(* ===== verification/Lantun_Prelude.thy ===== *)
theory Lantun_Prelude
  imports Main "HOL-Library.Word" "HOL-Library.List_Lexorder" "HOL-Library.Char_ord"
    "HOL-Library.Sublist" "HOL-Library.Multiset"
begin

section \<open>Shared types and helper lemmas\<close>

text \<open>
  What every component shares: the machine integers, byte strings, Rust's \<open>Result\<close> as a
  sum with the error on the left, the outcome of an operation that may panic, and the two
  \<open>Vec\<close>/\<open>Iterator\<close> operations the command line uses, with their lemmas. The collections
  \<open>fwd_defs\<close> and \<open>run_defs\<close> gather the definitions that the proofs about the forwarder
  loops and about the two tunnel tasks unfold.
\<close>

named_theorems fwd_defs "definitions of the forwarder loops"

named_theorems run_defs "definitions of the host and client tunnel tasks"

subsection \<open>Types\<close>

type_synonym byte = "8 word"
type_synonym u16 = "16 word"
type_synonym u32 = "32 word"
type_synonym u64 = "64 word"
type_synonym bytes = "byte list"

type_synonym ('e, 'a) result = "'e + 'a"

abbreviation Ok :: "'a \<Rightarrow> ('e, 'a) result" where
  "Ok \<equiv> Inr"

abbreviation Err :: "'e \<Rightarrow> ('e, 'a) result" where
  "Err \<equiv> Inl"

text \<open>\<open>Result::and_then\<close>, the continuation after the \<open>?\<close> operator.\<close>

definition and_then :: "('e, 'a) result \<Rightarrow> ('a \<Rightarrow> ('e, 'b) result) \<Rightarrow> ('e, 'b) result" where
  "and_then r f = (case r of Inl e \<Rightarrow> Err e | Inr x \<Rightarrow> f x)"

lemma and_then_simps [simp]: "and_then (Ok x) f = f x" "and_then (Err e) f = Err e"
  by (simp_all add: and_then_def)

lemma and_then_Ok: "and_then r f = Ok y \<longleftrightarrow> (\<exists>x. r = Ok x \<and> f x = Ok y)"
  by (cases r) simp_all

text \<open>An operation that may call \<open>unwrap\<close> on an error either returns or panics.\<close>

datatype 'a outcome = Returned 'a | Panic

datatype io_error = InvalidInput string | Os_Error string

subsection \<open>\<open>Iterator::position\<close> and \<open>Vec::remove\<close>\<close>

fun position :: "('a \<Rightarrow> bool) \<Rightarrow> 'a list \<Rightarrow> nat option" where
  "position P [] = None"
| "position P (x # xs) = (if P x then Some 0 else map_option Suc (position P xs))"

definition remove_at :: "nat \<Rightarrow> 'a list \<Rightarrow> 'a list" where
  "remove_at i xs = take i xs @ drop (Suc i) xs"

lemma position_None_iff: "position P xs = None \<longleftrightarrow> (\<forall>x \<in> set xs. \<not> P x)"
  by (induction xs) auto

lemma position_SomeD:
  "position P xs = Some i \<Longrightarrow> i < length xs \<and> P (xs ! i) \<and> (\<forall>j < i. \<not> P (xs ! j))"
proof (induction xs arbitrary: i)
  case Nil
  then show ?case by simp
next
  case (Cons x xs)
  then show ?case
    by (auto split: if_splits simp: nth_Cons' less_Suc_eq_0_disj)
qed

lemma position_Some_less: "position P xs = Some i \<Longrightarrow> i < length xs"
  by (blast dest: position_SomeD)

lemma set_remove_at: "set (remove_at i xs) \<subseteq> set xs"
  unfolding remove_at_def by (auto dest: in_set_takeD in_set_dropD)

lemma length_remove_at: "i < length xs \<Longrightarrow> length (remove_at i xs) = length xs - 1"
  by (simp add: remove_at_def)

lemma map_remove_at: "map f (remove_at i xs) = remove_at i (map f xs)"
  by (simp add: remove_at_def take_map drop_map)

lemma distinct_remove_at: "distinct xs \<Longrightarrow> distinct (remove_at i xs)"
  unfolding remove_at_def
  by (simp add: set_take_disj_set_drop_if_distinct)

lemma sorted_remove_at: "sorted xs \<Longrightarrow> sorted (remove_at i xs)"
proof -
  assume s: "sorted xs"
  have "sorted (take i xs)" "sorted (drop (Suc i) xs)"
    using s by (simp_all add: sorted_wrt_drop)
  moreover have "\<forall>x\<in>set (take i xs). \<forall>y\<in>set (drop i xs). x \<le> y"
    using s sorted_append[of "take i xs" "drop i xs"] by simp
  moreover have "set (drop (Suc i) xs) \<subseteq> set (drop i xs)"
    by (simp add: set_drop_subset_set_drop)
  ultimately show ?thesis
    unfolding remove_at_def by (auto simp: sorted_append)
qed

lemma mset_remove_at: "i < length xs \<Longrightarrow> mset xs = add_mset (xs ! i) (mset (remove_at i xs))"
  using arg_cong[OF id_take_nth_drop, of i xs mset] by (simp add: remove_at_def)

subsection \<open>Stable sorting by a key\<close>

text \<open>
  \<open>sort_key\<close> of the library is an insertion sort that keeps elements with equal keys in their
  order, as \<open>slice::sort_by\<close> does.
\<close>

lemma sort_key_sorted: "sorted (map f (sort_key f xs))"
  by simp

lemma sort_key_stable_class: "filter (\<lambda>y. f y = k) (sort_key f xs) = filter (\<lambda>y. f y = k) xs"
  by (rule sort_key_stable)

lemma distinct_map_sort_key [simp]: "distinct (map f (sort_key g xs)) \<longleftrightarrow> distinct (map f xs)"
  by (rule mset_eq_imp_distinct_iff) simp

subsection \<open>Prefixes of concatenations\<close>

lemma prefix_concat_snoc: "prefix (concat xs) (concat (xs @ [x]))"
  by simp

lemma prefix_take: "prefix (take k xs) xs"
  by (rule take_is_prefix)

end
