(* ===== verification/Activity_Clock.thy ===== *)
theory Activity_Clock
  imports Lantun_Prelude
begin

section \<open>The clock and the inactivity timeout\<close>

text \<open>
  \<open>now_secs\<close> of \<open>lantun-core/src/utils.rs\<close>, the constants of \<open>common.rs\<close>, and the computation of
  the sleep that every forwarder loop of \<open>net/tcp.rs\<close> and \<open>net/udp.rs\<close> repeats: the time left
  until \<open>CONNECTION_TIMEOUT_SECONDS\<close> after the last activity, on saturating \<open>u64\<close> seconds. A
  system time is the number of nanoseconds since the Unix epoch; before the epoch
  \<open>duration_since\<close> fails and \<open>unwrap\<close> panics (\<open>None\<close>).
\<close>

type_synonym time = int

definition TUNNEL_FORWARDER_BUFFER_SIZE :: nat where
  "TUNNEL_FORWARDER_BUFFER_SIZE = 1024"

definition CONNECTION_TIMEOUT_SECONDS :: u64 where
  "CONNECTION_TIMEOUT_SECONDS = 20"

definition now_secs :: "time \<Rightarrow> u64 option" where
  "now_secs t = (if t < 0 then None else Some (word_of_int (t div 1000000000)))"

definition saturating_sub :: "u64 \<Rightarrow> u64 \<Rightarrow> u64" where
  "saturating_sub a b = (if a < b then 0 else a - b)"

definition sleep_timeout :: "u64 \<Rightarrow> u64 \<Rightarrow> u64" where
  "sleep_timeout now prev =
     (let elapsed = saturating_sub now prev in
      if CONNECTION_TIMEOUT_SECONDS \<le> elapsed then 0 else CONNECTION_TIMEOUT_SECONDS - elapsed)"

definition timed_out :: "u64 \<Rightarrow> u64 \<Rightarrow> bool" where
  "timed_out now prev \<longleftrightarrow> CONNECTION_TIMEOUT_SECONDS \<le> saturating_sub now prev"

lemma unat_saturating_sub [simp]: "unat (saturating_sub a b) = unat a - unat b"
  by (auto simp: saturating_sub_def unat_sub word_less_nat_alt word_le_nat_alt)

lemma timed_out_iff: "timed_out now prev \<longleftrightarrow> unat prev + 20 \<le> unat now"
  by (auto simp: timed_out_def word_le_nat_alt CONNECTION_TIMEOUT_SECONDS_def)

lemma unat_sleep_timeout: "unat (sleep_timeout now prev) = 20 - (unat now - unat prev)"
  by (auto simp: sleep_timeout_def Let_def CONNECTION_TIMEOUT_SECONDS_def unat_sub word_le_nat_alt)

lemma sleep_timeout_le: "unat (sleep_timeout now prev) \<le> 20"
  by (simp add: unat_sleep_timeout)

lemma sleep_timeout_zero_iff: "sleep_timeout now prev = 0 \<longleftrightarrow> timed_out now prev"
  by (simp add: unat_eq_zero[symmetric] unat_sleep_timeout timed_out_iff) arith

lemma now_secs_None_iff: "now_secs t = None \<longleftrightarrow> t < 0"
  by (simp add: now_secs_def)

lemma now_secs_SomeD:
  assumes "now_secs t = Some s" and "t < 2 ^ 64 * 1000000000"
  shows "0 \<le> t" and "int (unat s) = t div 1000000000"
proof -
  show t: "0 \<le> t"
    using assms(1) by (simp add: now_secs_def split: if_splits)
  have "t div 1000000000 < 2 ^ 64"
    using assms(2) by (simp add: div_less_iff_less_mult)
  moreover have "0 \<le> t div 1000000000"
    using t by (simp add: pos_imp_zdiv_nonneg_iff)
  ultimately show "int (unat s) = t div 1000000000"
    using assms(1) t by (auto simp: now_secs_def take_bit_int_eq_self unsigned_of_int)
qed

text \<open>Sleeping for the computed timeout once is enough, when the clock did not run backwards.\<close>

lemma one_sleep_enough:
  assumes "unat prev \<le> unat now" and "unat now + unat (sleep_timeout now prev) \<le> unat now'"
  shows "timed_out now' prev"
  using assms by (auto simp: timed_out_iff unat_sleep_timeout)

lemma div_second_bounds:
  "1000000000 * (t div 1000000000) \<le> t" "t < 1000000000 * (t div 1000000000) + (1000000000 :: int)"
  using mult_div_mod_eq[of 1000000000 t] pos_mod_bound[of 1000000000 t] pos_mod_sign[of 1000000000 t]
  by linarith+

subsection \<open>Properties\<close>

text \<open>
  The sleep the loops compute is the rest of the 20 seconds after the last activity: at most
  20, never wrapped around although it is computed on unsigned words, 20 when the clock is behind
  the last activity, and zero exactly when the connection has timed out.
\<close>

lemma sleep_timeout_exact:
  "unat (sleep_timeout now prev) = 20 - (unat now - unat prev) \<and>
   unat (sleep_timeout now prev) \<le> unat CONNECTION_TIMEOUT_SECONDS \<and>
   (sleep_timeout now prev = 0 \<longleftrightarrow> timed_out now prev) \<and>
   (timed_out now prev \<longleftrightarrow> unat prev + unat CONNECTION_TIMEOUT_SECONDS \<le> unat now)"
  using sleep_timeout_zero_iff[of now prev]
  by (auto simp: timed_out_iff unat_sleep_timeout CONNECTION_TIMEOUT_SECONDS_def)

text \<open>
  C19. In real time: whole seconds are compared, so a loop that finds its connection timed out has
  been idle for more than 19 seconds, and one that has been idle for 20 seconds or more finds it
  timed out. The loop sleeps exactly as long as that takes: when it computes its sleep at \<open>t2\<close> and
  there is no traffic, a wake-up after this sleep finds the connection timed out, and one that is
  a second too early does not.
\<close>

theorem timeout_real_time:
  assumes "now_secs t1 = Some prev" and "now_secs t2 = Some now" and "now_secs t3 = Some later"
    and "t1 < 2 ^ 64 * 1000000000" and "t2 < 2 ^ 64 * 1000000000" and "t3 < 2 ^ 64 * 1000000000"
  shows "(timed_out now prev \<longrightarrow> 19 * 1000000000 < t2 - t1) \<and>
    (20 * 1000000000 \<le> t2 - t1 \<longrightarrow> timed_out now prev) \<and>
    (t1 \<le> t2 \<and> t2 + 1000000000 * int (unat (sleep_timeout now prev)) \<le> t3 \<longrightarrow> timed_out later prev) \<and>
    (t2 \<le> t3 \<and> t3 + 1000000000 \<le> t2 + 1000000000 * int (unat (sleep_timeout now prev)) \<longrightarrow>
       \<not> timed_out later prev)"
proof -
  note s = now_secs_SomeD(2)[OF assms(1,4)] now_secs_SomeD(2)[OF assms(2,5)] now_secs_SomeD(2)[OF assms(3,6)]
  note bounds = div_second_bounds[of t1] div_second_bounds[of t2] div_second_bounds[of t3]
  have two: "timed_out now prev \<longleftrightarrow> t1 div 1000000000 + 20 \<le> t2 div 1000000000"
    and three: "timed_out later prev \<longleftrightarrow> t1 div 1000000000 + 20 \<le> t3 div 1000000000"
    unfolding timed_out_iff s[symmetric] by linarith+
  have rest: "int (20 - (a - b)) =
      (if int a \<le> int b then 20 else if int b + 20 \<le> int a then 0 else 20 - (int a - int b))" for a b :: nat
    by auto
  have sleep: "int (unat (sleep_timeout now prev)) =
      (if t2 div 1000000000 \<le> t1 div 1000000000 then 20
       else if t1 div 1000000000 + 20 \<le> t2 div 1000000000 then 0
       else 20 - (t2 div 1000000000 - t1 div 1000000000))"
    unfolding unat_sleep_timeout s[symmetric] by (rule rest)
  have "timed_out now prev \<longrightarrow> 19 * 1000000000 < t2 - t1" "20 * 1000000000 \<le> t2 - t1 \<longrightarrow> timed_out now prev"
    using bounds two by linarith+
  moreover have "timed_out later prev"
    if "t1 \<le> t2" "t2 + 1000000000 * int (unat (sleep_timeout now prev)) \<le> t3"
    using that bounds unfolding three sleep by (auto split: if_splits)
  moreover have "\<not> timed_out later prev"
    if "t2 \<le> t3" "t3 + 1000000000 \<le> t2 + 1000000000 * int (unat (sleep_timeout now prev))"
    using that bounds unfolding three sleep by (auto split: if_splits)
  ultimately show ?thesis by blast
qed

theorem timeout_real_time_witness:
  "timed_out 1700000020 1700000000 \<and> (20 * 1000000000 :: int) \<le> 1700000020500000000 - 1700000000400000000 \<and>
   sleep_timeout 1700000012 1700000000 = 8 \<and> \<not> timed_out 1700000019 1700000000"
proof -
  have now: "now_secs 1700000000400000000 = Some 1700000000" "now_secs 1700000012900000000 = Some 1700000012"
    "now_secs 1700000020900000000 = Some 1700000020" "now_secs 1700000019800000000 = Some 1700000019"
    by (simp_all add: now_secs_def)
  have eight: "sleep_timeout 1700000012 1700000000 = 8" by code_simp
  then have "timed_out 1700000020 1700000000"
    using timeout_real_time[OF now(1-3)] by simp
  moreover from eight have "\<not> timed_out 1700000019 1700000000"
    using timeout_real_time[OF now(1,2,4)] by simp
  ultimately show ?thesis using eight by simp
qed

end
