(* ===== verification/Forwarder.thy ===== *)
theory Forwarder
  imports Activity_Clock
begin

section \<open>The forwarder loops\<close>

text \<open>
  The loops of \<open>lantun-core/src/net/tcp.rs\<close> and \<open>net/udp.rs\<close>. Each spawned task is a loop whose
  iterations compute a sleep, wait in a biased \<open>tokio::select!\<close> on the stop channel, a read and
  that sleep, and run the handler of the branch that became ready. A task is a program counter
  and what it has written to its sink; the only state it shares is the \<open>last_active\<close> atomic, read
  and written at the points where the code does.

  An event is one thing that happens to a task: it evaluates the top of its loop
  (\<open>Ev_Top\<close>, with the system time), it is polled inside \<open>select!\<close> (\<open>Ev_Poll\<close>, with what the three
  futures report and the system time a handler reads), or its write returns (\<open>Ev_Wrote\<close>). What
  the futures report is the runtime's; the order in which the branches are tried, the disabling of
  the \<open>Ok(n) = ...\<close> branch after an error and the handlers are the code's. An event that does not
  concern the task's program counter leaves it alone.
\<close>

subsection \<open>State and events\<close>

datatype exit_cause = By_Stop | By_Close | By_Timeout

datatype fwd_pc =
    At_Top
  | Selecting u64 bool
  | Writing bytes
  | Stopped exit_cause
  | Panicked

record 'o fwd =
  fw_pc :: fwd_pc
  fw_sink :: "'o list"

definition fwd_init :: "'o fwd" where
  "fwd_init = \<lparr>fw_pc = At_Top, fw_sink = []\<rparr>"

record 'r poll =
  stop_changed :: "bool option"
  read_ready :: "(string, 'r) result option"
  slept :: bool

datatype write_result = W_Ok | W_Err nat

datatype 'r fwd_event =
    Ev_Top time
  | Ev_Poll "'r poll" time
  | Ev_Wrote write_result

fun fwd_ended :: "fwd_pc \<Rightarrow> bool" where
  "fwd_ended (Stopped _) = True"
| "fwd_ended Panicked = True"
| "fwd_ended _ = False"

subsection \<open>The branches of \<open>select!\<close>\<close>

datatype 'r branch = Br_Stop bool | Br_Read 'r | Br_Sleep | Br_Pending bool

definition select_biased :: "bool \<Rightarrow> 'r poll \<Rightarrow> 'r branch" where
  "select_biased read_enabled p =
     (case stop_changed p of
        Some v \<Rightarrow> Br_Stop v
      | None \<Rightarrow>
          (case (if read_enabled then read_ready p else None) of
             Some (Inr r) \<Rightarrow> Br_Read r
           | Some (Inl e) \<Rightarrow> if slept p then Br_Sleep else Br_Pending False
           | None \<Rightarrow> if slept p then Br_Sleep else Br_Pending read_enabled))"

text \<open>
  A read fills the buffer of its loop: what the future reports is what there is to read, the bytes
  that a stream has ready or the datagram at the head of a socket, and the read takes as much of
  it as fits. The rest of a stream stays to be read, the rest of a datagram is lost.
\<close>

definition read_into_buf :: "bytes \<Rightarrow> bytes" where
  "read_into_buf bs = take TUNNEL_FORWARDER_BUFFER_SIZE bs"

lemma read_into_buf_Nil [simp]: "read_into_buf bs = [] \<longleftrightarrow> bs = []"
  by (simp add: read_into_buf_def TUNNEL_FORWARDER_BUFFER_SIZE_def)

lemma read_into_buf_fits [simp]: "length bs \<le> 1024 \<Longrightarrow> read_into_buf bs = bs"
  by (simp add: read_into_buf_def TUNNEL_FORWARDER_BUFFER_SIZE_def)

lemma read_into_buf_length: "length (read_into_buf bs) \<le> TUNNEL_FORWARDER_BUFFER_SIZE"
  by (simp add: read_into_buf_def)

text \<open>What a handler makes of a completed read: the end of the stream, or bytes to pass on.\<close>

datatype verdict = Close | Chunk bytes

fun tunnel_verdict :: "bytes option \<Rightarrow> verdict" where
  "tunnel_verdict None = Close"
| "tunnel_verdict (Some bs) = (if read_into_buf bs = [] then Close else Chunk (read_into_buf bs))"

definition socket_verdict :: "bytes \<Rightarrow> verdict" where
  "socket_verdict bs = (if read_into_buf bs = [] then Close else Chunk (read_into_buf bs))"

text \<open>
  What a write adds to its sink: \<open>write_all\<close> on a stream passes the whole chunk, and a prefix of
  it when it fails; a datagram is sent as a whole or not at all.
\<close>

fun stream_writer :: "write_result \<Rightarrow> bytes \<Rightarrow> bytes list" where
  "stream_writer W_Ok bs = [bs]"
| "stream_writer (W_Err k) bs = [take k bs]"

fun dgram_writer :: "write_result \<Rightarrow> bytes \<Rightarrow> bytes list" where
  "dgram_writer W_Ok bs = [bs]"
| "dgram_writer (W_Err k) bs = []"

fun dgram_writer_to :: "'a \<Rightarrow> write_result \<Rightarrow> bytes \<Rightarrow> ('a \<times> bytes) list" where
  "dgram_writer_to dest W_Ok bs = [(dest, bs)]"
| "dgram_writer_to dest (W_Err k) bs = []"

subsection \<open>One iteration\<close>

definition loop_top :: "time \<Rightarrow> u64 \<Rightarrow> fwd_pc" where
  "loop_top t active =
     (case now_secs t of
        None \<Rightarrow> Panicked
      | Some now \<Rightarrow> Selecting (sleep_timeout now active) True)"

definition on_stop :: "bool \<Rightarrow> fwd_pc" where
  "on_stop v = (if v then Stopped By_Stop else At_Top)"

definition on_verdict :: "verdict \<Rightarrow> time \<Rightarrow> u64 \<Rightarrow> fwd_pc \<times> u64" where
  "on_verdict v t active =
     (case v of
        Close \<Rightarrow> (Stopped By_Close, active)
      | Chunk bs \<Rightarrow>
          (case now_secs t of
             None \<Rightarrow> (Panicked, active)
           | Some now \<Rightarrow> (Writing bs, now)))"

definition on_sleep :: "time \<Rightarrow> u64 \<Rightarrow> fwd_pc" where
  "on_sleep t active =
     (case now_secs t of
        None \<Rightarrow> Panicked
      | Some now \<Rightarrow> if timed_out now active then Stopped By_Timeout else At_Top)"

fun fwd_select ::
    "('r \<Rightarrow> verdict) \<Rightarrow> u64 \<Rightarrow> bool \<Rightarrow> 'r poll \<Rightarrow> time \<Rightarrow> u64 \<Rightarrow> fwd_pc \<times> u64" where
  "fwd_select verdict timeout en p t active =
     (case select_biased en p of
        Br_Stop v \<Rightarrow> (on_stop v, active)
      | Br_Read r \<Rightarrow> on_verdict (verdict r) t active
      | Br_Sleep \<Rightarrow> (on_sleep t active, active)
      | Br_Pending en' \<Rightarrow> (Selecting timeout en', active))"

fun on_wrote :: "write_result \<Rightarrow> fwd_pc" where
  "on_wrote W_Ok = At_Top"
| "on_wrote (W_Err k) = Panicked"

fun fwd_step ::
    "('r \<Rightarrow> verdict) \<Rightarrow> (write_result \<Rightarrow> bytes \<Rightarrow> 'o list) \<Rightarrow> 'r fwd_event \<Rightarrow>
     'o fwd \<times> u64 \<Rightarrow> 'o fwd \<times> u64" where
  "fwd_step verdict writer (Ev_Top t) (f, active) =
     (case fw_pc f of
        At_Top \<Rightarrow> (f\<lparr>fw_pc := loop_top t active\<rparr>, active)
      | _ \<Rightarrow> (f, active))"
| "fwd_step verdict writer (Ev_Poll p t) (f, active) =
     (case fw_pc f of
        Selecting timeout en \<Rightarrow>
          (let (pc, active') = fwd_select verdict timeout en p t active
           in (f\<lparr>fw_pc := pc\<rparr>, active'))
      | _ \<Rightarrow> (f, active))"
| "fwd_step verdict writer (Ev_Wrote w) (f, active) =
     (case fw_pc f of
        Writing bs \<Rightarrow> (f\<lparr>fw_pc := on_wrote w, fw_sink := fw_sink f @ writer w bs\<rparr>, active)
      | _ \<Rightarrow> (f, active))"

text \<open>
  A run of one task. The value of \<open>last_active\<close> before each event is given with the event: the
  other task of the pair may have stored any value in between.
\<close>

fun fwd_run ::
    "('r \<Rightarrow> verdict) \<Rightarrow> (write_result \<Rightarrow> bytes \<Rightarrow> 'o list) \<Rightarrow> (u64 \<times> 'r fwd_event) list \<Rightarrow>
     'o fwd \<Rightarrow> 'o fwd" where
  "fwd_run verdict writer [] f = f"
| "fwd_run verdict writer ((a, e) # es) f =
     fwd_run verdict writer es (fst (fwd_step verdict writer e (f, a)))"

text \<open>What there was to read at the reads of a step or of a run.\<close>

fun step_offers :: "'r fwd_event \<Rightarrow> 'o fwd \<Rightarrow> 'r list" where
  "step_offers (Ev_Poll p t) f =
     (case fw_pc f of
        Selecting timeout en \<Rightarrow> (case select_biased en p of Br_Read r \<Rightarrow> [r] | _ \<Rightarrow> [])
      | _ \<Rightarrow> [])"
| "step_offers _ f = []"

fun run_offers ::
    "('r \<Rightarrow> verdict) \<Rightarrow> (write_result \<Rightarrow> bytes \<Rightarrow> 'o list) \<Rightarrow> (u64 \<times> 'r fwd_event) list \<Rightarrow>
     'o fwd \<Rightarrow> 'r list" where
  "run_offers verdict writer [] f = []"
| "run_offers verdict writer ((a, e) # es) f =
     step_offers e f @ run_offers verdict writer es (fst (fwd_step verdict writer e (f, a)))"

fun in_flight :: "fwd_pc \<Rightarrow> bytes" where
  "in_flight (Writing bs) = bs"
| "in_flight _ = []"

declare fwd_select.simps [simp del]

lemmas fwd_handlers = loop_top_def on_stop_def on_verdict_def on_sleep_def fwd_select.simps

subsection \<open>Steps of a task\<close>

lemma fwd_run_append:
  "fwd_run verdict writer (es @ es') f = fwd_run verdict writer es' (fwd_run verdict writer es f)"
  by (induction es arbitrary: f) auto

lemma run_offers_append:
  "run_offers verdict writer (es @ es') f =
     run_offers verdict writer es f @ run_offers verdict writer es' (fwd_run verdict writer es f)"
  by (induction es arbitrary: f) auto

lemma fwd_step_ended [simp]: "fwd_ended (fw_pc f) \<Longrightarrow> fwd_step verdict writer e (f, a) = (f, a)"
  by (cases e; cases "fw_pc f") auto

lemma step_offers_ended [simp]: "fwd_ended (fw_pc f) \<Longrightarrow> step_offers e f = []"
  by (cases e; cases "fw_pc f") auto

lemma fwd_run_ended [simp]: "fwd_ended (fw_pc f) \<Longrightarrow> fwd_run verdict writer es f = f"
  by (induction es) auto

text \<open>A poll in which the stop channel reports \<open>true\<close> ends the task whatever else is ready.\<close>

lemma select_stop [simp]: "stop_changed p = Some v \<Longrightarrow> select_biased en p = Br_Stop v"
  by (simp add: select_biased_def)

lemma select_read:
  "select_biased en p = Br_Read r \<longleftrightarrow> stop_changed p = None \<and> en \<and> read_ready p = Some (Ok r)"
  by (auto simp: select_biased_def split: option.splits sum.splits if_splits)

lemma select_sleep:
  "select_biased en p = Br_Sleep \<Longrightarrow> stop_changed p = None \<and> slept p"
  by (auto simp: select_biased_def split: option.splits sum.splits if_splits)

lemma select_idle:
  "stop_changed p = None \<Longrightarrow> read_ready p = None \<Longrightarrow> slept p \<Longrightarrow> select_biased en p = Br_Sleep"
  by (simp add: select_biased_def)

lemma timeout_step:
  assumes "fw_pc f \<noteq> Stopped By_Timeout"
    and "fw_pc (fst (fwd_step verdict writer e (f, active))) = Stopped By_Timeout"
  obtains p t now where "e = Ev_Poll p t" "slept p" "stop_changed p = None"
    "now_secs t = Some now" "timed_out now active"
proof (cases e)
  case (Ev_Poll p t)
  with assms that show ?thesis
    by (cases "fw_pc f"; cases "select_biased (case fw_pc f of Selecting _ en \<Rightarrow> en | _ \<Rightarrow> True) p")
      (auto simp: fwd_handlers dest: select_sleep split: option.splits if_splits verdict.splits)
next
  case (Ev_Top t)
  with assms show ?thesis
    by (cases "fw_pc f") (auto simp: fwd_handlers split: option.splits)
next
  case (Ev_Wrote w)
  with assms show ?thesis
    by (cases "fw_pc f"; cases w) auto
qed

text \<open>From any state of a running task, three events suffice to see the stop signal.\<close>

lemma stop_run:
  assumes "\<not> fwd_ended (fw_pc f)" and "now_secs t \<noteq> None" and "stop_changed p = Some True"
  shows "fwd_run verdict writer [(a1, Ev_Wrote W_Ok), (a2, Ev_Top t), (a3, Ev_Poll p t')] f =
    f\<lparr>fw_pc := Stopped By_Stop,
      fw_sink := fw_sink f @ (case fw_pc f of Writing bs \<Rightarrow> writer W_Ok bs | _ \<Rightarrow> [])\<rparr>"
  using assms by (cases "fw_pc f") (auto simp: fwd_handlers)

lemma idle_run:
  assumes "\<not> fwd_ended (fw_pc f)" and "now_secs t = Some now" and "now_secs t' = Some now'"
    and "stop_changed p = None" "read_ready p = None" "slept p" and "timed_out now' active"
  shows "fw_pc (fwd_run verdict writer
    [(active, Ev_Wrote W_Ok), (active, Ev_Top t), (active, Ev_Poll p t')] f) = Stopped By_Timeout"
  using assms by (cases "fw_pc f") (auto simp: fwd_handlers select_idle)

end
