(* ===== verification/Chunk_Transfer.thy ===== *)
theory Chunk_Transfer
  imports Forwarder
begin

section \<open>Data integrity of the forwarder loops\<close>

text \<open>
  The two interfaces a loop is built from, a source whose reads give chunks of bytes and a sink
  that takes them, as locales, and the integrity of every loop over such a pair, proved once:
  what reaches the sink is what was read, in order, without loss or duplication, up to the chunk
  being written. The interpretations are on the two kinds of reads and the three kinds of writes
  of the code. The abstract view of a task is a pipe: a pair of what was taken from the source
  and what was delivered.
\<close>

subsection \<open>Interfaces\<close>

locale chunk_source =
  fixes verdict :: "'r \<Rightarrow> verdict"
    and payload :: "'r \<Rightarrow> bytes"
  assumes verdict_payload: "verdict r = (if payload r = [] then Close else Chunk (payload r))"
begin

lemma chunk_iff: "verdict r = Chunk bs \<longleftrightarrow> payload r = bs \<and> bs \<noteq> []"
  by (auto simp: verdict_payload)

lemma close_iff: "verdict r = Close \<longleftrightarrow> payload r = []"
  by (simp add: verdict_payload)

end

locale chunk_sink =
  fixes writer :: "write_result \<Rightarrow> bytes \<Rightarrow> 'o list"
    and content :: "'o \<Rightarrow> bytes"
  assumes write_ok: "map content (writer W_Ok bs) = [bs]"
    and write_err: "prefix (concat (map content (writer (W_Err k) bs))) bs"
    and write_items: "c \<in> set (writer w bs) \<Longrightarrow> length (content c) \<le> length bs"

locale forwarder = chunk_source verdict payload + chunk_sink writer content
  for verdict :: "'r \<Rightarrow> verdict" and payload :: "'r \<Rightarrow> bytes"
    and writer :: "write_result \<Rightarrow> bytes \<Rightarrow> 'o list" and content :: "'o \<Rightarrow> bytes"
begin

abbreviation delivered :: "'o fwd \<Rightarrow> bytes" where
  "delivered f \<equiv> concat (map content (fw_sink f))"

abbreviation taken :: "'r list \<Rightarrow> bytes" where
  "taken rs \<equiv> concat (map payload rs)"

lemma concat_write_ok: "concat (map content (writer W_Ok bs)) = bs"
  by (simp add: write_ok)

text \<open>One step moves bytes from the reads through the write in flight to the sink.\<close>

lemma step_transfer:
  assumes "fst (fwd_step verdict writer e (f, a)) = f'"
  shows "fw_pc f' \<noteq> Panicked \<longrightarrow>
      delivered f' @ in_flight (fw_pc f') = delivered f @ in_flight (fw_pc f) @ taken (step_offers e f)"
    and "prefix (delivered f') (delivered f @ in_flight (fw_pc f) @ taken (step_offers e f))"
proof -
  have "(fw_pc f' \<noteq> Panicked \<longrightarrow>
      delivered f' @ in_flight (fw_pc f') = delivered f @ in_flight (fw_pc f) @ taken (step_offers e f)) \<and>
    prefix (delivered f') (delivered f @ in_flight (fw_pc f) @ taken (step_offers e f))"
  proof (cases e)
    case (Ev_Top t)
    with assms show ?thesis
      by (cases "fw_pc f") (auto simp: loop_top_def split: option.splits)
  next
    case (Ev_Wrote w)
    with assms show ?thesis
      by (cases "fw_pc f"; cases w) (auto simp: concat_write_ok write_err)
  next
    case (Ev_Poll p t)
    show ?thesis
    proof (cases "fw_pc f")
      case (Selecting timeout en)
      with Ev_Poll assms show ?thesis
        by (cases "select_biased en p")
          (auto simp: fwd_handlers verdict_payload split: option.splits if_splits)
    qed (use Ev_Poll assms in auto)
  qed
  then show "fw_pc f' \<noteq> Panicked \<longrightarrow>
      delivered f' @ in_flight (fw_pc f') = delivered f @ in_flight (fw_pc f) @ taken (step_offers e f)"
    and "prefix (delivered f') (delivered f @ in_flight (fw_pc f) @ taken (step_offers e f))"
    by auto
qed

lemma run_transfer:
  "prefix (delivered (fwd_run verdict writer es f) @ in_flight (fw_pc (fwd_run verdict writer es f)))
     (delivered f @ in_flight (fw_pc f) @ taken (run_offers verdict writer es f))"
proof (induction es arbitrary: f)
  case Nil
  then show ?case by simp
next
  case (Cons ae es)
  obtain a e where ae: "ae = (a, e)" by fastforce
  let ?f = "fst (fwd_step verdict writer e (f, a))"
  let ?rest = "taken (run_offers verdict writer es ?f)"
  have "prefix (delivered ?f @ in_flight (fw_pc ?f) @ ?rest)
      (delivered f @ in_flight (fw_pc f) @ taken (step_offers e f) @ ?rest)"
  proof (cases "fw_pc ?f = Panicked")
    case False
    with step_transfer(1)[of e f a ?f] show ?thesis
      by (metis append.assoc prefix_order.refl)
  next
    case True
    then have "run_offers verdict writer es ?f = []"
      by (induction es) auto
    with True step_transfer(2)[of e f a ?f] show ?thesis by simp
  qed
  with Cons.IH[of ?f] show ?case
    unfolding ae by (auto simp: prefix_order.trans)
qed

lemma run_transfer_eq:
  assumes "fw_pc (fwd_run verdict writer es f) \<noteq> Panicked"
  shows "delivered (fwd_run verdict writer es f) @ in_flight (fw_pc (fwd_run verdict writer es f)) =
    delivered f @ in_flight (fw_pc f) @ taken (run_offers verdict writer es f)"
  using assms
proof (induction es arbitrary: f)
  case Nil
  then show ?case by simp
next
  case (Cons ae es)
  obtain a e where ae: "ae = (a, e)" by fastforce
  let ?f = "fst (fwd_step verdict writer e (f, a))"
  have "fw_pc ?f \<noteq> Panicked"
  proof
    assume "fw_pc ?f = Panicked"
    then have "fwd_run verdict writer es ?f = ?f" by simp
    with Cons.prems ae \<open>fw_pc ?f = Panicked\<close> show False by simp
  qed
  then have "delivered ?f @ in_flight (fw_pc ?f) = delivered f @ in_flight (fw_pc f) @ taken (step_offers e f)"
    using step_transfer(1)[of e f a ?f] by simp
  moreover have "delivered (fwd_run verdict writer es ?f) @ in_flight (fw_pc (fwd_run verdict writer es ?f)) =
      delivered ?f @ in_flight (fw_pc ?f) @ taken (run_offers verdict writer es ?f)"
    using Cons.prems ae by (intro Cons.IH) simp
  ultimately show ?case
    unfolding ae by simp
qed

text \<open>From the start of a task: the delivered bytes are a prefix of the bytes read.\<close>

lemma init_transfer:
  "prefix (delivered (fwd_run verdict writer es fwd_init)) (taken (run_offers verdict writer es fwd_init))"
  using run_transfer[of es fwd_init] by (auto simp: fwd_init_def intro: append_prefixD)

lemma init_transfer_eq:
  assumes "\<forall>bs. fw_pc (fwd_run verdict writer es fwd_init) \<noteq> Writing bs"
    and "fw_pc (fwd_run verdict writer es fwd_init) \<noteq> Panicked"
  shows "delivered (fwd_run verdict writer es fwd_init) = taken (run_offers verdict writer es fwd_init)"
proof -
  have "in_flight (fw_pc (fwd_run verdict writer es fwd_init)) = []"
    using assms(1) by (cases "fw_pc (fwd_run verdict writer es fwd_init)") auto
  with run_transfer_eq[OF assms(2)] show ?thesis by (simp add: fwd_init_def)
qed

text \<open>No sink item is longer than the longest read, so none exceeds the buffer.\<close>

lemma run_bounded:
  assumes "\<forall>r \<in> set (run_offers verdict writer es f). length (payload r) \<le> n"
    and "length (in_flight (fw_pc f)) \<le> n" and "\<forall>c \<in> set (fw_sink f). length (content c) \<le> n"
  shows "\<forall>c \<in> set (fw_sink (fwd_run verdict writer es f)). length (content c) \<le> n"
  using assms
proof (induction es arbitrary: f)
  case Nil
  then show ?case by simp
next
  case (Cons ae es)
  obtain a e where ae: "ae = (a, e)" by fastforce
  let ?f = "fst (fwd_step verdict writer e (f, a))"
  have reads: "\<forall>r \<in> set (step_offers e f). length (payload r) \<le> n"
    using Cons.prems(1) ae by auto
  have "length (in_flight (fw_pc ?f)) \<le> n \<and> (\<forall>c \<in> set (fw_sink ?f). length (content c) \<le> n)"
  proof (cases e)
    case (Ev_Top t)
    with Cons.prems show ?thesis
      by (cases "fw_pc f") (auto simp: loop_top_def split: option.splits)
  next
    case (Ev_Wrote w)
    with Cons.prems show ?thesis
      by (cases "fw_pc f"; cases w) (auto dest!: write_items intro: order_trans)
  next
    case (Ev_Poll p t)
    show ?thesis
    proof (cases "fw_pc f")
      case (Selecting timeout en)
      with Ev_Poll Cons.prems reads show ?thesis
        by (cases "select_biased en p")
          (auto simp: fwd_handlers verdict_payload split: option.splits if_splits)
    qed (use Ev_Poll Cons.prems in auto)
  qed
  moreover have "\<forall>r \<in> set (run_offers verdict writer es ?f). length (payload r) \<le> n"
    using Cons.prems(1) ae by auto
  ultimately show ?case
    unfolding ae using Cons.IH[of ?f] by simp
qed

end

subsection \<open>The reads and writes of the code\<close>

definition tunnel_payload :: "bytes option \<Rightarrow> bytes" where
  "tunnel_payload r = (case r of None \<Rightarrow> [] | Some bs \<Rightarrow> bs)"

text \<open>What a read of the tunnel takes of what there is; of a socket it is \<open>read_into_buf\<close>.\<close>

definition tunnel_taken :: "bytes option \<Rightarrow> bytes" where
  "tunnel_taken r = tunnel_payload (map_option read_into_buf r)"

interpretation tunnel_to_stream: forwarder tunnel_verdict tunnel_taken stream_writer id
proof (unfold_locales, goal_cases)
  case (1 r)
  then show ?case by (cases r) (auto simp: tunnel_taken_def tunnel_payload_def)
next
  case (4 c w bs)
  then show ?case by (cases w) auto
qed (auto simp: take_is_prefix)

interpretation tunnel_to_dgram: forwarder tunnel_verdict tunnel_taken dgram_writer id
proof (unfold_locales, goal_cases)
  case (3 c w bs)
  then show ?case by (cases w) auto
qed auto

interpretation tunnel_to_addressed: forwarder tunnel_verdict tunnel_taken "dgram_writer_to dest" snd
  for dest
proof (unfold_locales, goal_cases)
  case (3 c w bs)
  then show ?case by (cases w) auto
qed auto

interpretation socket_to_stream: forwarder socket_verdict read_into_buf stream_writer id
  by unfold_locales (simp add: socket_verdict_def)

end
