(* ===== verification/Net_Core.thy ===== *)
theory Net_Core
  imports Lantun_Prelude
begin

section \<open>Socket addresses and the tunnel protocol\<close>

text \<open>
  The types of \<open>lantun-core/src/lib.rs\<close> that every other component uses: socket addresses with
  \<open>get_unspecified\<close>, the protocol enum with its \<open>Display\<close>, \<open>FromStr\<close>, \<open>Serialize\<close> and
  \<open>Deserialize\<close> instances, and the standard library's printing of addresses, which the command
  line shows. Strings are UTF-8 byte strings. \<open>str::to_lowercase\<close> is modelled on the ASCII
  letters: no other code point has \<open>tcp\<close> or \<open>udp\<close> letters as its lower case, so the comparison
  with the two names is the code's.
\<close>

subsection \<open>Socket addresses\<close>

datatype socket_addr =
    V4 u32 u16
  | V6 "128 word" u16 u32 u32

fun is_ipv4 :: "socket_addr \<Rightarrow> bool" where
  "is_ipv4 (V4 _ _) = True"
| "is_ipv4 (V6 _ _ _ _) = False"

fun addr_port :: "socket_addr \<Rightarrow> u16" where
  "addr_port (V4 _ p) = p"
| "addr_port (V6 _ p _ _) = p"

definition ipv4_unspecified :: u32 where
  "ipv4_unspecified = 0"

definition ipv6_unspecified :: "128 word" where
  "ipv6_unspecified = 0"

definition get_unspecified :: "bool \<Rightarrow> socket_addr" where
  "get_unspecified ip4 =
     (if ip4 then V4 ipv4_unspecified 0 else V6 ipv6_unspecified 0 0 0)"

lemma get_unspecified_port [simp]: "addr_port (get_unspecified b) = 0"
  by (simp add: get_unspecified_def)

lemma get_unspecified_family [simp]: "is_ipv4 (get_unspecified b) = b"
  by (simp add: get_unspecified_def)

lemma get_unspecified_inject [simp]: "get_unspecified a = get_unspecified b \<longleftrightarrow> a = b"
  by (simp add: get_unspecified_def)

subsection \<open>The protocol\<close>

datatype tunnel_protocol = Tcp | Udp

fun tunnel_protocol_fmt :: "tunnel_protocol \<Rightarrow> string" where
  "tunnel_protocol_fmt Tcp = ''tcp''"
| "tunnel_protocol_fmt Udp = ''udp''"

definition lower_char :: "char \<Rightarrow> char" where
  "lower_char c =
     (let n = (of_char c :: nat) in if 65 \<le> n \<and> n \<le> 90 then char_of (n + 32) else c)"

definition to_lowercase :: "string \<Rightarrow> string" where
  "to_lowercase s = map lower_char s"

definition tunnel_protocol_from_str :: "string \<Rightarrow> (io_error, tunnel_protocol) result" where
  "tunnel_protocol_from_str s =
     (let l = to_lowercase s in
      if l = ''tcp'' then Ok Tcp
      else if l = ''udp'' then Ok Udp
      else Err (InvalidInput (''Invalid protocol: '' @ s)))"

fun tunnel_protocol_serialize :: "tunnel_protocol \<Rightarrow> string" where
  "tunnel_protocol_serialize Tcp = ''tcp''"
| "tunnel_protocol_serialize Udp = ''udp''"

text \<open>
  \<open>deserialize\<close> first asks the deserializer for a string; its error is passed on, and an error of
  \<open>from_str\<close> is wrapped by \<open>serde::de::Error::custom\<close>, which keeps the message.
\<close>

datatype de_error = De_Custom string | De_Other string

fun io_error_message :: "io_error \<Rightarrow> string" where
  "io_error_message (InvalidInput m) = m"
| "io_error_message (Os_Error m) = m"

fun tunnel_protocol_deserialize ::
    "(de_error, string) result \<Rightarrow> (de_error, tunnel_protocol) result" where
  "tunnel_protocol_deserialize (Inl e) = Err e"
| "tunnel_protocol_deserialize (Inr s) =
     (case tunnel_protocol_from_str s of
        Inl e \<Rightarrow> Err (De_Custom (io_error_message e))
      | Inr p \<Rightarrow> Ok p)"

text \<open>The protocols are an enumeration, so that statements over all of them compute.\<close>

instantiation tunnel_protocol :: enum
begin

definition enum_tunnel_protocol :: "tunnel_protocol list" where
  "enum_tunnel_protocol = [Tcp, Udp]"

definition enum_all_tunnel_protocol :: "(tunnel_protocol \<Rightarrow> bool) \<Rightarrow> bool" where
  "enum_all_tunnel_protocol P \<longleftrightarrow> P Tcp \<and> P Udp"

definition enum_ex_tunnel_protocol :: "(tunnel_protocol \<Rightarrow> bool) \<Rightarrow> bool" where
  "enum_ex_tunnel_protocol P \<longleftrightarrow> P Tcp \<or> P Udp"

instance
proof
  have two: "p = Tcp \<or> p = Udp" for p
    by (cases p) simp_all
  then have "(UNIV :: tunnel_protocol set) \<subseteq> {Tcp, Udp}" by blast
  then show "(UNIV :: tunnel_protocol set) = set Enum.enum"
    by (simp add: enum_tunnel_protocol_def subset_antisym)
  show "distinct (Enum.enum :: tunnel_protocol list)"
    by (simp add: enum_tunnel_protocol_def)
  show "Enum.enum_all P \<longleftrightarrow> Ball UNIV P" for P :: "tunnel_protocol \<Rightarrow> bool"
    using two by (metis UNIV_I enum_all_tunnel_protocol_def)
  show "Enum.enum_ex P \<longleftrightarrow> Bex UNIV P" for P :: "tunnel_protocol \<Rightarrow> bool"
    using two by (metis UNIV_I enum_ex_tunnel_protocol_def)
qed

end

lemma card_tunnel_protocol: "card (UNIV :: tunnel_protocol set) = 2"
  by (simp add: UNIV_enum enum_tunnel_protocol_def)

lemma to_lowercase_fmt [simp]: "to_lowercase (tunnel_protocol_fmt p) = tunnel_protocol_fmt p"
  by (cases p) (simp_all add: to_lowercase_def lower_char_def)

lemma fmt_inject [simp]: "tunnel_protocol_fmt p = tunnel_protocol_fmt q \<longleftrightarrow> p = q"
  by (cases p; cases q) simp_all

lemma fmt_eq_literal [simp]:
  "tunnel_protocol_fmt p = ''tcp'' \<longleftrightarrow> p = Tcp" "tunnel_protocol_fmt p = ''udp'' \<longleftrightarrow> p = Udp"
  by (cases p; simp)+

lemma from_str_Ok_iff:
  "tunnel_protocol_from_str s = Ok p \<longleftrightarrow> to_lowercase s = tunnel_protocol_fmt p"
  by (cases p) (auto simp: tunnel_protocol_from_str_def Let_def)

lemma from_str_fmt [simp]: "tunnel_protocol_from_str (tunnel_protocol_fmt p) = Ok p"
  by (simp add: from_str_Ok_iff)

lemma from_str_Err_iff:
  "tunnel_protocol_from_str s = Err e \<longleftrightarrow>
     (\<forall>p. to_lowercase s \<noteq> tunnel_protocol_fmt p) \<and> e = InvalidInput (''Invalid protocol: '' @ s)"
proof -
  have "(\<forall>p. to_lowercase s \<noteq> tunnel_protocol_fmt p) \<longleftrightarrow>
      to_lowercase s \<noteq> ''tcp'' \<and> to_lowercase s \<noteq> ''udp''"
    by (metis tunnel_protocol.exhaust tunnel_protocol_fmt.simps)
  then show ?thesis
    by (auto simp: tunnel_protocol_from_str_def Let_def)
qed

lemma serialize_fmt: "tunnel_protocol_serialize p = tunnel_protocol_fmt p"
  by (cases p) simp_all

subsection \<open>Printing addresses\<close>

text \<open>The standard library's \<open>Display\<close> of numbers, IP addresses and socket addresses.\<close>

definition digit_char :: "int \<Rightarrow> char" where
  "digit_char d = char_of (if d < 10 then 48 + d else 87 + d)"

function show_num :: "int \<Rightarrow> int \<Rightarrow> string" where
  "show_num r n =
     (if n < r \<or> r < 2 then [digit_char n] else show_num r (n div r) @ [digit_char (n mod r)])"
  by pat_completeness auto
termination
  by (relation "measure (\<lambda>(r, n). nat n)") (auto simp: int_div_less_self)

declare show_num.simps [simp del]

abbreviation show_dec :: "int \<Rightarrow> string" where
  "show_dec \<equiv> show_num 10"

abbreviation show_hex :: "int \<Rightarrow> string" where
  "show_hex \<equiv> show_num 16"

fun join_with :: "string \<Rightarrow> string list \<Rightarrow> string" where
  "join_with sep [] = []"
| "join_with sep [x] = x"
| "join_with sep (x # y # xs) = x @ sep @ join_with sep (y # xs)"

definition ipv4_octets :: "u32 \<Rightarrow> byte list" where
  "ipv4_octets ip = map (\<lambda>k. ucast (drop_bit k ip)) [24, 16, 8, 0]"

definition show_ipv4 :: "u32 \<Rightarrow> string" where
  "show_ipv4 ip = join_with ''.'' (map (\<lambda>b. show_dec (uint b)) (ipv4_octets ip))"

definition ipv6_segments :: "128 word \<Rightarrow> u16 list" where
  "ipv6_segments ip = map (\<lambda>k. ucast (drop_bit k ip)) [112, 96, 80, 64, 48, 32, 16, 0]"

text \<open>The longest run of zero segments, the first one where several are longest.\<close>

fun zero_span :: "nat \<Rightarrow> u16 list \<Rightarrow> nat \<times> nat \<Rightarrow> nat \<times> nat \<Rightarrow> nat \<times> nat" where
  "zero_span i [] cur best = best"
| "zero_span i (s # ss) cur best =
     (if s = 0 then
        let cur' = (if snd cur = 0 then i else fst cur, Suc (snd cur)) in
        zero_span (Suc i) ss cur' (if snd best < snd cur' then cur' else best)
      else zero_span (Suc i) ss (0, 0) best)"

definition show_ipv6 :: "128 word \<Rightarrow> string" where
  "show_ipv6 ip =
     (let segs = ipv6_segments ip in
      if take 5 segs = [0, 0, 0, 0, 0] \<and> segs ! 5 = 65535
      then ''::ffff:'' @ show_ipv4 (ucast ip)
      else
        let (start, n) = zero_span 0 segs (0, 0) (0, 0) in
        if 1 < n
        then join_with '':'' (map (\<lambda>s. show_hex (uint s)) (take start segs)) @ ''::'' @
             join_with '':'' (map (\<lambda>s. show_hex (uint s)) (drop (start + n) segs))
        else join_with '':'' (map (\<lambda>s. show_hex (uint s)) segs))"

fun show_addr :: "socket_addr \<Rightarrow> string" where
  "show_addr (V4 ip p) = show_ipv4 ip @ '':'' @ show_dec (uint p)"
| "show_addr (V6 ip p _ scope) =
     (if scope = 0 then ''['' @ show_ipv6 ip @ '']:'' @ show_dec (uint p)
      else ''['' @ show_ipv6 ip @ ''%'' @ show_dec (uint scope) @ '']:'' @ show_dec (uint p))"

subsection \<open>Constants and the secret\<close>

definition ALPN :: string where
  "ALPN = ''lan-tun/0.1.0''"

text \<open>\<open>gen_secret\<close> runs iroh's key generator on the operating system's random source.\<close>

definition gen_secret :: "('rng \<Rightarrow> bytes) \<Rightarrow> 'rng \<Rightarrow> bytes" where
  "gen_secret generate os_rng = generate os_rng"

subsection \<open>Properties\<close>

text \<open>
  The two names the program prints and stores for a protocol are read back as the same
  protocol, by \<open>FromStr\<close> and by the serde pair; a string is read as a protocol exactly when its
  lower case is that protocol's name, and every other string is an error that quotes it.
\<close>

lemma protocol_roundtrip:
  "tunnel_protocol_from_str (tunnel_protocol_fmt p) = Ok p \<and>
   tunnel_protocol_deserialize (Ok (tunnel_protocol_serialize p)) = Ok p \<and>
   (tunnel_protocol_from_str s = Ok p \<longleftrightarrow> to_lowercase s = tunnel_protocol_fmt p) \<and>
   (tunnel_protocol_from_str s = Err (InvalidInput (''Invalid protocol: '' @ s)) \<longleftrightarrow>
    to_lowercase s \<noteq> ''tcp'' \<and> to_lowercase s \<noteq> ''udp'')"
  by (simp add: serialize_fmt from_str_Ok_iff) (simp add: tunnel_protocol_from_str_def Let_def)

end
