(* ===== verification/Hash_Map.thy ===== *)
theory Hash_Map
  imports Lantun_Prelude "HOL-Library.AList"
begin

section \<open>Hash maps\<close>

text \<open>
  \<open>std::collections::HashMap\<close> as an association list with distinct keys: the list is the
  (unspecified) iteration order, \<open>hm_get\<close> is \<open>get\<close>, \<open>hm_insert\<close> replaces or adds, \<open>hm_remove\<close>
  deletes and \<open>hm_len\<close> is \<open>len\<close>. The components use it through the locale \<open>hash_table\<close>.
\<close>

type_synonym ('k, 'v) hashmap = "('k \<times> 'v) list"

definition hm_empty :: "('k, 'v) hashmap" where
  "hm_empty = []"

definition hm_get :: "('k, 'v) hashmap \<Rightarrow> 'k \<Rightarrow> 'v option" where
  "hm_get m k = map_of m k"

definition hm_contains :: "('k, 'v) hashmap \<Rightarrow> 'k \<Rightarrow> bool" where
  "hm_contains m k \<longleftrightarrow> hm_get m k \<noteq> None"

definition hm_insert :: "'k \<Rightarrow> 'v \<Rightarrow> ('k, 'v) hashmap \<Rightarrow> ('k, 'v) hashmap" where
  "hm_insert k v m = AList.update k v m"

definition hm_remove :: "'k \<Rightarrow> ('k, 'v) hashmap \<Rightarrow> ('k, 'v) hashmap" where
  "hm_remove k m = AList.delete k m"

definition hm_len :: "('k, 'v) hashmap \<Rightarrow> nat" where
  "hm_len m = length m"

definition hm_wf :: "('k, 'v) hashmap \<Rightarrow> bool" where
  "hm_wf m \<longleftrightarrow> distinct (map fst m)"

subsection \<open>The interface\<close>

locale hash_table =
  fixes empty :: "'m"
    and get :: "'m \<Rightarrow> 'k \<Rightarrow> 'v option"
    and put :: "'k \<Rightarrow> 'v \<Rightarrow> 'm \<Rightarrow> 'm"
    and del :: "'k \<Rightarrow> 'm \<Rightarrow> 'm"
    and len :: "'m \<Rightarrow> nat"
    and wf :: "'m \<Rightarrow> bool"
  assumes wf_empty: "wf empty"
    and wf_put: "wf m \<Longrightarrow> wf (put k v m)"
    and wf_del: "wf m \<Longrightarrow> wf (del k m)"
    and get_empty: "get empty k = None"
    and get_put: "get (put k v m) k' = (if k' = k then Some v else get m k')"
    and get_del: "get (del k m) k' = (if k' = k then None else get m k')"
    and len_card: "wf m \<Longrightarrow> len m = card {k. get m k \<noteq> None}"
    and finite_keys: "finite {k. get m k \<noteq> None}"
begin

lemma keys_put: "{x. get (put k v m) x \<noteq> None} = insert k {x. get m x \<noteq> None}"
  by (auto simp: get_put)

lemma keys_del: "{x. get (del k m) x \<noteq> None} = {x. get m x \<noteq> None} - {k}"
  by (auto simp: get_del)

lemma len_empty: "len empty = 0"
  by (simp add: len_card wf_empty get_empty)

lemma len_put:
  "wf m \<Longrightarrow> len (put k v m) = (if get m k = None then Suc (len m) else len m)"
  using finite_keys[of m] by (simp only: len_card wf_put keys_put) (auto simp: card_insert_if)

lemma len_del:
  "wf m \<Longrightarrow> len (del k m) = (if get m k = None then len m else len m - 1)"
  using finite_keys[of m] by (simp only: len_card wf_del keys_del) (auto simp: card_Diff_singleton_if)

lemma len_put_le: "wf m \<Longrightarrow> len m \<le> len (put k v m)"
  by (simp add: len_put)

lemma len_zero_iff: "wf m \<Longrightarrow> len m = 0 \<longleftrightarrow> (\<forall>k. get m k = None)"
  using finite_keys[of m] by (auto simp: len_card)

lemma put_del_fresh: "get m k = None \<Longrightarrow> get (del k (put k v m)) = get m"
  by (auto simp: get_put get_del fun_eq_iff)

lemma len_put_del: "wf m \<Longrightarrow> get m k = None \<Longrightarrow> len (del k (put k v m)) = len m"
  by (simp add: len_del len_put wf_put get_put)

end

subsection \<open>The association list provides it\<close>

lemma hm_keys: "{k. hm_get m k \<noteq> None} = fst ` set m"
  by (force simp: hm_get_def map_of_eq_None_iff)

interpretation hm: hash_table hm_empty hm_get hm_insert hm_remove hm_len hm_wf
proof (unfold_locales, goal_cases)
  case (2 m k v)
  then show ?case by (simp add: hm_wf_def hm_insert_def distinct_update)
next
  case (3 m k)
  then show ?case by (simp add: hm_wf_def hm_remove_def distinct_delete)
next
  case (5 k v m k')
  then show ?case by (simp add: hm_get_def hm_insert_def update_conv')
next
  case (6 k m k')
  then show ?case by (simp add: hm_get_def hm_remove_def delete_conv')
next
  case (7 m)
  then show ?case
    unfolding hm_keys by (metis hm_len_def hm_wf_def card_distinct distinct_card length_map list.set_map)
next
  case (8 m)
  then show ?case unfolding hm_keys by simp
qed (simp_all add: hm_wf_def hm_empty_def hm_get_def)

lemmas hm_simps = hm.get_empty hm.get_put hm.get_del hm.wf_empty hm.wf_put hm.wf_del

lemma hm_contains_insert: "hm_contains (hm_insert k v m) k' \<longleftrightarrow> k' = k \<or> hm_contains m k'"
  by (auto simp: hm_contains_def hm.get_put)

lemma hm_contains_remove: "hm_contains (hm_remove k m) k' \<longleftrightarrow> k' \<noteq> k \<and> hm_contains m k'"
  by (auto simp: hm_contains_def hm.get_del)

text \<open>The iteration of \<open>values()\<close> and \<open>values_mut()\<close> in the list's order.\<close>

definition hm_values :: "('k, 'v) hashmap \<Rightarrow> 'v list" where
  "hm_values m = map snd m"

lemma hm_get_Some_iff: "hm_wf m \<Longrightarrow> hm_get m k = Some v \<longleftrightarrow> (k, v) \<in> set m"
  by (simp add: hm_get_def hm_wf_def)

lemma hm_values_iff: "hm_wf m \<Longrightarrow> v \<in> set (hm_values m) \<longleftrightarrow> (\<exists>k. hm_get m k = Some v)"
  by (force simp: hm_values_def hm_get_Some_iff)

lemma hm_insert_fresh: "hm_get m k = None \<Longrightarrow> hm_insert k v m = m @ [(k, v)]"
  unfolding hm_get_def hm_insert_def by (induction m) (auto split: if_splits)

end
