(* ===== verification/Local_Conns.thy ===== *)
theory Local_Conns
  imports Net_Core Hash_Map
begin

section \<open>Local connections and their tables\<close>

text \<open>
  \<open>LocalClientConnection\<close> of \<open>lantun-core/src/common.rs\<close> and the two static methods that take a
  connection out of the table it is registered in: \<open>HostTunnel::disconnect_local_client_connection\<close>
  (\<open>host.rs\<close>, keyed by the virtual address) and \<open>ClientTunnel::disconnect_local_connection\<close>
  (\<open>client.rs\<close>, keyed by the local address). A connection is never written after it is created
  except through its atomic, so the table holds it by value and \<open>last_active\<close> is the reference of
  the atomic's cell. What both methods promise is the locale \<open>disconnector\<close>.
\<close>

type_synonym cell = nat

record local_client_connection =
  client_local_addr :: socket_addr
  client_virtual_addr :: socket_addr
  last_active :: cell

type_synonym conn_table = "(socket_addr, local_client_connection) hashmap"

definition disconnect_local_client_connection ::
    "local_client_connection \<Rightarrow> conn_table \<Rightarrow> bool \<times> conn_table" where
  "disconnect_local_client_connection c tbl =
     (let virtual_addr = client_virtual_addr c in
      if hm_get tbl virtual_addr \<noteq> None then (True, hm_remove virtual_addr tbl)
      else (False, hm_remove virtual_addr tbl))"

definition disconnect_local_connection ::
    "local_client_connection \<Rightarrow> conn_table \<Rightarrow> bool \<times> conn_table" where
  "disconnect_local_connection c tbl =
     (let local_addr = client_local_addr c in
      if hm_get tbl local_addr \<noteq> None then (True, hm_remove local_addr tbl)
      else (False, hm_remove local_addr tbl))"

locale disconnector =
  fixes key :: "local_client_connection \<Rightarrow> socket_addr"
    and disconnect :: "local_client_connection \<Rightarrow> conn_table \<Rightarrow> bool \<times> conn_table"
  assumes reports: "fst (disconnect c tbl) \<longleftrightarrow> hm_contains tbl (key c)"
    and removes: "snd (disconnect c tbl) = hm_remove (key c) tbl"
begin

lemma get_after: "hm_get (snd (disconnect c tbl)) k = (if k = key c then None else hm_get tbl k)"
  by (simp add: removes hm.get_del)

lemma wf_after: "hm_wf tbl \<Longrightarrow> hm_wf (snd (disconnect c tbl))"
  by (simp add: removes hm.wf_del)

lemma gone_after: "\<not> hm_contains (snd (disconnect c tbl)) (key c)"
  by (simp add: hm_contains_def get_after)

lemma len_after:
  "hm_wf tbl \<Longrightarrow> hm_len (snd (disconnect c tbl)) = hm_len tbl - (if fst (disconnect c tbl) then 1 else 0)"
  by (simp add: removes reports hm.len_del hm_contains_def)

lemma restores: "hm_get tbl (key c) = None \<Longrightarrow>
    hm_get (snd (disconnect c (hm_insert (key c) c tbl))) = hm_get tbl"
  by (simp add: removes hm.put_del_fresh)

lemma second_reports_false: "\<not> fst (disconnect c (snd (disconnect c tbl)))"
  by (simp add: reports gone_after)

end

interpretation host_disc: disconnector client_virtual_addr disconnect_local_client_connection
  by unfold_locales (simp_all add: disconnect_local_client_connection_def hm_contains_def Let_def)

interpretation client_disc: disconnector client_local_addr disconnect_local_connection
  by unfold_locales (simp_all add: disconnect_local_connection_def hm_contains_def Let_def)

text \<open>
  Disconnecting answers whether the connection was registered, removes it, keeps every other
  entry, lowers the number of connections by one exactly in that case, and a second call answers
  \<open>false\<close>, on the host and on the client side.
\<close>

lemma disconnect_removes_exactly:
  assumes "hm_wf tbl"
  shows "(fst (disconnect_local_client_connection c tbl) \<longleftrightarrow> hm_contains tbl (client_virtual_addr c)) \<and>
    (\<forall>k. hm_get (snd (disconnect_local_client_connection c tbl)) k =
       (if k = client_virtual_addr c then None else hm_get tbl k)) \<and>
    hm_len (snd (disconnect_local_client_connection c tbl)) =
      hm_len tbl - (if fst (disconnect_local_client_connection c tbl) then 1 else 0) \<and>
    \<not> fst (disconnect_local_client_connection c (snd (disconnect_local_client_connection c tbl))) \<and>
    (fst (disconnect_local_connection c tbl) \<longleftrightarrow> hm_contains tbl (client_local_addr c)) \<and>
    (\<forall>k. hm_get (snd (disconnect_local_connection c tbl)) k =
       (if k = client_local_addr c then None else hm_get tbl k)) \<and>
    hm_len (snd (disconnect_local_connection c tbl)) =
      hm_len tbl - (if fst (disconnect_local_connection c tbl) then 1 else 0) \<and>
    \<not> fst (disconnect_local_connection c (snd (disconnect_local_connection c tbl)))"
  using assms
  by (simp only: host_disc.reports host_disc.get_after host_disc.len_after host_disc.gone_after
      client_disc.reports client_disc.get_after client_disc.len_after client_disc.gone_after) simp

end
