(* ===== verification/Udp_Uplink.thy ===== *)
theory Udp_Uplink
  imports Forwarder Local_Conns
begin

section \<open>The client's UDP reader\<close>

text \<open>
  The loop \<open>udp_to_tunnel_forwader\<close> of \<open>bi_udp_client\<close> (\<open>net/udp.rs\<close>). All UDP clients of a tunnel
  send to one socket, which the listener of the tunnel also peeks at. The loop peeks at the head
  of the socket's queue, goes back to its top when the datagram is from another address, and else
  receives it. A receive fills a buffer of \<open>TUNNEL_FORWARDER_BUFFER_SIZE\<close> bytes and drops what is
  beyond. The queue is part of the shared state; \<open>Up_Arrive\<close> is a datagram reaching the socket.
\<close>

type_synonym dgram_queue = "(socket_addr \<times> bytes) list"

record udp_poll =
  up_stop :: "bool option"
  up_peek_err :: bool
  up_slept :: bool
  up_recv_ok :: bool

datatype udp_up_event =
    Up_Top time
  | Up_Poll udp_poll time
  | Up_Wrote write_result
  | Up_Arrive socket_addr bytes

definition peek_from :: "bool \<Rightarrow> dgram_queue \<Rightarrow> (string, nat \<times> socket_addr) result option" where
  "peek_from err q =
     (if err then Some (Err ''peek'')
      else case q of
        [] \<Rightarrow> None
      | (addr, d) # _ \<Rightarrow> Some (Ok (min TUNNEL_FORWARDER_BUFFER_SIZE (length d), addr)))"

definition udp_up_select :: "bool \<Rightarrow> udp_poll \<Rightarrow> dgram_queue \<Rightarrow> (nat \<times> socket_addr) branch" where
  "udp_up_select en p q =
     select_biased en
       \<lparr>stop_changed = up_stop p, read_ready = peek_from (up_peek_err p) q, slept = up_slept p\<rparr>"

fun udp_up_peeked ::
    "socket_addr \<Rightarrow> nat \<times> socket_addr \<Rightarrow> udp_poll \<Rightarrow> time \<Rightarrow> u64 \<times> dgram_queue \<Rightarrow>
     fwd_pc \<times> u64 \<times> dgram_queue" where
  "udp_up_peeked client_addr (n, addr) p t (active, q) =
     (if addr \<noteq> client_addr then (At_Top, active, q)
      else if \<not> up_recv_ok p then (At_Top, active, q)
      else
        let bs = take n (snd (hd q)); (pc, active') = on_verdict (socket_verdict bs) t active
        in (pc, active', tl q))"

fun udp_client_up ::
    "socket_addr \<Rightarrow> udp_up_event \<Rightarrow> bytes fwd \<times> u64 \<times> dgram_queue \<Rightarrow>
     bytes fwd \<times> u64 \<times> dgram_queue" where
  "udp_client_up client_addr (Up_Arrive addr d) (f, active, q) = (f, active, q @ [(addr, d)])"
| "udp_client_up client_addr (Up_Top t) (f, active, q) =
     (case fw_pc f of
        At_Top \<Rightarrow> (f\<lparr>fw_pc := loop_top t active\<rparr>, active, q)
      | _ \<Rightarrow> (f, active, q))"
| "udp_client_up client_addr (Up_Poll p t) (f, active, q) =
     (case fw_pc f of
        Selecting timeout en \<Rightarrow>
          (case udp_up_select en p q of
             Br_Stop v \<Rightarrow> (f\<lparr>fw_pc := on_stop v\<rparr>, active, q)
           | Br_Read r \<Rightarrow>
               (let (pc, s) = udp_up_peeked client_addr r p t (active, q) in (f\<lparr>fw_pc := pc\<rparr>, s))
           | Br_Sleep \<Rightarrow> (f\<lparr>fw_pc := on_sleep t active\<rparr>, active, q)
           | Br_Pending en' \<Rightarrow> (f\<lparr>fw_pc := Selecting timeout en'\<rparr>, active, q))
      | _ \<Rightarrow> (f, active, q))"
| "udp_client_up client_addr (Up_Wrote w) (f, active, q) =
     (case fw_pc f of
        Writing bs \<Rightarrow>
          (f\<lparr>fw_pc := on_wrote w, fw_sink := fw_sink f @ stream_writer w bs\<rparr>, active, q)
      | _ \<Rightarrow> (f, active, q))"

text \<open>A run, with the value of \<open>last_active\<close> before each event given with it.\<close>

fun udp_up_run ::
    "socket_addr \<Rightarrow> (u64 \<times> udp_up_event) list \<Rightarrow> bytes fwd \<times> dgram_queue \<Rightarrow>
     bytes fwd \<times> dgram_queue" where
  "udp_up_run client_addr [] s = s"
| "udp_up_run client_addr ((a, e) # es) (f, q) =
     (let (f', a', q') = udp_client_up client_addr e (f, a, q)
      in udp_up_run client_addr es (f', q'))"

fun arrivals :: "(u64 \<times> udp_up_event) list \<Rightarrow> dgram_queue" where
  "arrivals [] = []"
| "arrivals ((a, Up_Arrive addr d) # es) = (addr, d) # arrivals es"
| "arrivals (_ # es) = arrivals es"

subsection \<open>What is taken from the shared socket\<close>

definition dgram_chunk :: "socket_addr \<times> bytes \<Rightarrow> bytes" where
  "dgram_chunk x = take TUNNEL_FORWARDER_BUFFER_SIZE (snd x)"

definition dgram_chunks :: "dgram_queue \<Rightarrow> bytes list" where
  "dgram_chunks q = filter (\<lambda>bs. bs \<noteq> []) (map dgram_chunk q)"

fun pending :: "fwd_pc \<Rightarrow> bytes list" where
  "pending (Writing bs) = [bs]"
| "pending _ = []"

lemma dgram_chunks_append [simp]: "dgram_chunks (p @ q) = dgram_chunks p @ dgram_chunks q"
  by (simp add: dgram_chunks_def)

lemma take_min_dgram: "take (min TUNNEL_FORWARDER_BUFFER_SIZE (length d)) d = take TUNNEL_FORWARDER_BUFFER_SIZE d"
  by (simp add: min_def)

lemma udp_up_select_read:
  "udp_up_select en p q = Br_Read r \<Longrightarrow>
     \<exists>addr d q'. q = (addr, d) # q' \<and> r = (min TUNNEL_FORWARDER_BUFFER_SIZE (length d), addr)"
  by (auto simp: udp_up_select_def select_read peek_from_def split: if_splits list.splits)

lemma peeked_takes:
  assumes "udp_up_peeked client_addr (min TUNNEL_FORWARDER_BUFFER_SIZE (length d), addr) p t
      (active, (addr, d) # q) = (pc, active', q')"
  obtains "pc = At_Top" "q' = (addr, d) # q"
  | "addr = client_addr" "q' = q" "pc \<noteq> Panicked \<longrightarrow> pending pc = dgram_chunks [(addr, d)]"
  using assms
  by (auto simp: take_min_dgram on_verdict_def socket_verdict_def read_into_buf_def dgram_chunks_def dgram_chunk_def
      split: if_splits option.splits)

lemma udp_up_step_takes:
  assumes "udp_client_up client_addr e (f, active, q) = (f', active', q')"
  shows "\<exists>taken. taken @ q' = q @ arrivals [(active, e)] \<and> (\<forall>x \<in> set taken. fst x = client_addr) \<and>
    (fw_pc f' \<noteq> Panicked \<longrightarrow>
       fw_sink f' @ pending (fw_pc f') = fw_sink f @ pending (fw_pc f) @ dgram_chunks taken)"
proof (cases e)
  case (Up_Poll p t)
  show ?thesis
  proof (cases "fw_pc f")
    case (Selecting timeout en)
    show ?thesis
    proof (cases "udp_up_select en p q")
      case (Br_Read r)
      then obtain addr d q0 where q: "q = (addr, d) # q0"
        and r: "r = (min TUNNEL_FORWARDER_BUFFER_SIZE (length d), addr)"
        by (blast dest: udp_up_select_read)
      obtain pc a1 q1 where k: "udp_up_peeked client_addr r p t (active, q) = (pc, a1, q1)"
        by (cases "udp_up_peeked client_addr r p t (active, q)") auto
      then have res: "f' = f\<lparr>fw_pc := pc\<rparr>" "q' = q1"
        using assms Up_Poll Selecting Br_Read by auto
      show ?thesis
        using k[unfolded q r]
      proof (cases rule: peeked_takes)
        case 1
        with res q Up_Poll Selecting show ?thesis by (intro exI[of _ "[]"]) (auto simp: dgram_chunks_def)
      next
        case 2
        with res q Up_Poll Selecting show ?thesis by (intro exI[of _ "[(addr, d)]"]) auto
      qed
    qed (use assms Up_Poll Selecting in
        \<open>auto simp: dgram_chunks_def on_stop_def on_sleep_def intro!: exI[of _ "[]"]
          split: if_splits option.splits\<close>)
  qed (use assms Up_Poll in \<open>auto simp: dgram_chunks_def intro!: exI[of _ "[]"]\<close>)
next
  case (Up_Top t)
  with assms show ?thesis
    by (cases "fw_pc f")
      (auto simp: dgram_chunks_def loop_top_def intro!: exI[of _ "[]"] split: option.splits)
next
  case (Up_Wrote w)
  with assms show ?thesis
    by (cases "fw_pc f"; cases w) (auto simp: dgram_chunks_def intro!: exI[of _ "[]"])
next
  case (Up_Arrive addr d)
  with assms show ?thesis
    by (auto simp: dgram_chunks_def intro!: exI[of _ "[]"])
qed

lemma udp_up_step_ended:
  "fw_pc f = Panicked \<Longrightarrow> fst (udp_client_up client_addr e (f, active, q)) = f"
  by (cases e) auto

lemma udp_up_run_panicked:
  "fw_pc f = Panicked \<Longrightarrow> fst (udp_up_run client_addr es (f, q)) = f"
proof (induction es arbitrary: q)
  case (Cons ae es)
  obtain a e where ae: "ae = (a, e)" by fastforce
  obtain f' a' q' where st: "udp_client_up client_addr e (f, a, q) = (f', a', q')"
    by (cases "udp_client_up client_addr e (f, a, q)") auto
  with udp_up_step_ended[OF Cons.prems, of client_addr e a q] have "f' = f" by simp
  with st ae Cons show ?case by simp
qed simp

lemma arrivals_Cons: "arrivals (x # es) = arrivals [x] @ arrivals es"
  by (cases x rule: prod.exhaust; cases "snd x") auto

lemma udp_up_run_takes:
  assumes "udp_up_run client_addr es (f, q) = (f', q')"
  shows "\<exists>taken. taken @ q' = q @ arrivals es \<and> (\<forall>x \<in> set taken. fst x = client_addr) \<and>
    (fw_pc f' \<noteq> Panicked \<longrightarrow>
       fw_sink f' @ pending (fw_pc f') = fw_sink f @ pending (fw_pc f) @ dgram_chunks taken)"
  using assms
proof (induction es arbitrary: f q)
  case Nil
  then show ?case by (intro exI[of _ "[]"]) (auto simp: dgram_chunks_def)
next
  case (Cons ae es)
  obtain a e where ae: "ae = (a, e)" by fastforce
  obtain f1 a1 q1 where st: "udp_client_up client_addr e (f, a, q) = (f1, a1, q1)"
    by (cases "udp_client_up client_addr e (f, a, q)") auto
  from udp_up_step_takes[OF st] obtain t1 where t1:
    "t1 @ q1 = q @ arrivals [ae]" "\<forall>x \<in> set t1. fst x = client_addr"
    "fw_pc f1 \<noteq> Panicked \<longrightarrow>
       fw_sink f1 @ pending (fw_pc f1) = fw_sink f @ pending (fw_pc f) @ dgram_chunks t1"
    unfolding ae by blast
  have run: "udp_up_run client_addr es (f1, q1) = (f', q')"
    using Cons.prems st ae by simp
  from Cons.IH[OF this] obtain t2 where t2:
    "t2 @ q' = q1 @ arrivals es" "\<forall>x \<in> set t2. fst x = client_addr"
    "fw_pc f' \<noteq> Panicked \<longrightarrow>
       fw_sink f' @ pending (fw_pc f') = fw_sink f1 @ pending (fw_pc f1) @ dgram_chunks t2"
    by blast
  have "fw_pc f1 = Panicked \<Longrightarrow> fw_pc f' = Panicked"
    using udp_up_run_panicked[of f1 client_addr es q1] run by simp
  moreover have "(t1 @ t2) @ q' = q @ arrivals (ae # es)"
    using t1(1) t2(1) arrivals_Cons[of ae es] by (metis append.assoc)
  ultimately show ?case
    using t1(2,3) t2(2,3) by (intro exI[of _ "t1 @ t2"]) auto
qed

subsection \<open>A foreign datagram at the head of the queue\<close>

text \<open>
  What one event of the environment may be while the stop channel is quiet, peeking works and the
  clock is after the epoch.
\<close>

fun quiet :: "udp_up_event \<Rightarrow> bool" where
  "quiet (Up_Top t) \<longleftrightarrow> 0 \<le> t"
| "quiet (Up_Poll p t) \<longleftrightarrow> up_stop p = None \<and> \<not> up_peek_err p"
| "quiet (Up_Wrote w) \<longleftrightarrow> True"
| "quiet (Up_Arrive addr d) \<longleftrightarrow> True"

definition looping :: "fwd_pc \<Rightarrow> bool" where
  "looping pc \<longleftrightarrow> pc = At_Top \<or> (\<exists>timeout. pc = Selecting timeout True)"

lemma blocked_step:
  assumes "addr \<noteq> client_addr" and "looping (fw_pc f)" and "quiet e"
    and "udp_client_up client_addr e (f, active, (addr, d) # q) = (f', active', q')"
  shows "looping (fw_pc f') \<and> fw_sink f' = fw_sink f \<and> q' = (addr, d) # q @ arrivals [(active, e)]"
proof (cases e)
  case (Up_Poll p t)
  have "udp_up_select True p ((addr, d) # q) = Br_Read (min TUNNEL_FORWARDER_BUFFER_SIZE (length d), addr)"
    using assms(3) Up_Poll by (simp add: udp_up_select_def peek_from_def select_biased_def)
  with assms Up_Poll show ?thesis
    by (auto simp: looping_def)
qed (use assms in \<open>auto simp: looping_def loop_top_def now_secs_def split: option.splits\<close>)

lemma blocked_run:
  assumes "addr \<noteq> client_addr" and "looping (fw_pc f)" and "\<forall>(a, e) \<in> set es. quiet e"
    and "udp_up_run client_addr es (f, (addr, d) # q) = (f', q')"
  shows "looping (fw_pc f') \<and> fw_sink f' = fw_sink f \<and> q' = (addr, d) # q @ arrivals es"
  using assms(2-)
proof (induction es arbitrary: f q)
  case Nil
  then show ?case by simp
next
  case (Cons ae es)
  obtain a e where ae: "ae = (a, e)" by fastforce
  obtain f1 a1 q1 where st: "udp_client_up client_addr e (f, a, (addr, d) # q) = (f1, a1, q1)"
    by (cases "udp_client_up client_addr e (f, a, (addr, d) # q)") auto
  have step: "looping (fw_pc f1)" "fw_sink f1 = fw_sink f" "q1 = (addr, d) # q @ arrivals [ae]"
    using blocked_step[OF assms(1) Cons.prems(1) _ st] Cons.prems(2) ae by auto
  show ?case
    using Cons.IH[OF step(1), of "q @ arrivals [ae]"] Cons.prems(2,3) step st ae
      arrivals_Cons[of ae es] by simp
qed

subsection \<open>Properties\<close>

text \<open>
  C9. The loop takes from the shared socket only datagrams of its own client, from the head of the
  queue and in order; every other datagram stays queued. What it writes to the tunnel is, in
  order, the first 1024 bytes of each datagram it took.
\<close>

theorem udp_uplink_fifo:
  assumes "udp_up_run client_addr es (fwd_init, q) = (f', q')"
  shows "\<exists>taken. taken @ q' = q @ arrivals es \<and> (\<forall>x \<in> set taken. fst x = client_addr) \<and>
    (fw_pc f' = Panicked \<or> fw_sink f' @ pending (fw_pc f') = dgram_chunks taken)"
  using udp_up_run_takes[OF assms] by (auto simp: fwd_init_def)

theorem udp_uplink_fifo_witness:
  "\<exists>taken. taken @ [(V4 2 9, [5])] = [(V4 1 1, [7, 8]), (V4 2 9, [5])] @ [] \<and>
     list_all (\<lambda>x. fst x = V4 1 1) taken \<and> [[7, 8]] = dgram_chunks taken"
proof -
  have "udp_up_run (V4 1 1)
      [(0, Up_Top 0), (0, Up_Poll \<lparr>up_stop = None, up_peek_err = False, up_slept = False, up_recv_ok = True\<rparr> 0),
       (0, Up_Wrote W_Ok)] (fwd_init, [(V4 1 1, [7, 8]), (V4 2 9, [5])]) =
      (\<lparr>fw_pc = At_Top, fw_sink = [[7, 8]]\<rparr>, [(V4 2 9, [5])])"
    by (simp add: fwd_init_def loop_top_def now_secs_def udp_up_select_def peek_from_def
        select_biased_def on_verdict_def socket_verdict_def TUNNEL_FORWARDER_BUFFER_SIZE_def)
  from udp_uplink_fifo[OF this] show ?thesis by (simp add: list_all_iff)
qed

text \<open>
  C34. A datagram of another address at the head of the queue blocks the loop: however often it
  runs, whatever the clock shows and however long it has been idle, it neither forwards anything
  nor times out, and the datagram stays at the head, as long as the stop channel is quiet.
\<close>

theorem udp_uplink_blocked:
  assumes "addr \<noteq> client_addr" and "\<forall>(a, e) \<in> set es. quiet e"
    and "udp_up_run client_addr es (fwd_init, (addr, d) # q) = (f', q')"
  shows "\<not> fwd_ended (fw_pc f') \<and> fw_sink f' = [] \<and> q' = (addr, d) # q @ arrivals es"
  using blocked_run[OF assms(1) _ assms(2,3)] by (auto simp: looping_def fwd_init_def)

theorem udp_uplink_blocked_witness:
  "\<not> fwd_ended (fw_pc (fst (udp_up_run (V4 1 1)
     [(0, Up_Top 0),
      (0, Up_Poll \<lparr>up_stop = None, up_peek_err = False, up_slept = True, up_recv_ok = True\<rparr> 60000000000),
      (0, Up_Top 60000000000)] (fwd_init, [(V4 2 9, [5])]))))"
proof -
  let ?es = "[(0, Up_Top 0),
      (0, Up_Poll \<lparr>up_stop = None, up_peek_err = False, up_slept = True, up_recv_ok = True\<rparr> 60000000000),
      (0, Up_Top 60000000000)]"
  obtain f' q' where r: "udp_up_run (V4 1 1) ?es (fwd_init, [(V4 2 9, [5])]) = (f', q')"
    by fastforce
  from udp_uplink_blocked[OF _ _ r] show ?thesis unfolding r by simp
qed

end
