(* ===== verification/Bi_Forward.thy ===== *)
theory Bi_Forward
  imports Chunk_Transfer Udp_Uplink
begin

section \<open>Bidirectional forwarding of one local connection\<close>

text \<open>
  The four functions \<open>bi_tcp_stream_host\<close>, \<open>bi_tcp_stream_client\<close> (\<open>net/tcp.rs\<close>), \<open>bi_udp_host\<close> and
  \<open>bi_udp_client\<close> (\<open>net/udp.rs\<close>). Each stores the current time in \<open>last_active\<close>, spawns one loop
  per direction, waits for them in \<open>try_join!\<close>, which returns when both loops have ended or as
  soon as one has panicked, and then takes the connection out of its table and returns \<open>Ok(())\<close>.
  The two tasks interleave freely, so a step is a step of the loop from the tunnel (\<open>Down_Ev\<close>), a
  step of the loop to the tunnel (\<open>Up_Ev\<close>) or the completion of the join (\<open>Join\<close>). After a panic
  the other loop goes on as a detached task: it still takes steps when the function has returned.
\<close>

subsection \<open>The eight loops\<close>

definition tcp_host_down :: "bytes option fwd_event \<Rightarrow> bytes fwd \<times> u64 \<Rightarrow> bytes fwd \<times> u64" where
  "tcp_host_down = fwd_step tunnel_verdict stream_writer"

definition tcp_host_up :: "bytes fwd_event \<Rightarrow> bytes fwd \<times> u64 \<Rightarrow> bytes fwd \<times> u64" where
  "tcp_host_up = fwd_step socket_verdict stream_writer"

definition tcp_client_down :: "bytes option fwd_event \<Rightarrow> bytes fwd \<times> u64 \<Rightarrow> bytes fwd \<times> u64" where
  "tcp_client_down = fwd_step tunnel_verdict stream_writer"

definition tcp_client_up :: "bytes fwd_event \<Rightarrow> bytes fwd \<times> u64 \<Rightarrow> bytes fwd \<times> u64" where
  "tcp_client_up = fwd_step socket_verdict stream_writer"

definition udp_host_down :: "bytes option fwd_event \<Rightarrow> bytes fwd \<times> u64 \<Rightarrow> bytes fwd \<times> u64" where
  "udp_host_down = fwd_step tunnel_verdict dgram_writer"

definition udp_host_up :: "bytes fwd_event \<Rightarrow> bytes fwd \<times> u64 \<Rightarrow> bytes fwd \<times> u64" where
  "udp_host_up = fwd_step socket_verdict stream_writer"

text \<open>The client's UDP loops also share the socket's queue, which the loop from the tunnel leaves alone.\<close>

definition udp_client_down ::
    "socket_addr \<Rightarrow> bytes option fwd_event \<Rightarrow> (socket_addr \<times> bytes) fwd \<times> u64 \<times> dgram_queue \<Rightarrow>
     (socket_addr \<times> bytes) fwd \<times> u64 \<times> dgram_queue" where
  "udp_client_down client_addr e s =
     (case s of (f, active, q) \<Rightarrow>
        (case fwd_step tunnel_verdict (dgram_writer_to client_addr) e (f, active) of
           (f', active') \<Rightarrow> (f', active', q)))"

subsection \<open>Spawning, joining and returning\<close>

record ('o, 'p) bi =
  bi_conn :: local_client_connection
  bi_down :: "'o fwd"
  bi_up :: "'p fwd"
  bi_returned :: bool

datatype ('d, 'u) bi_event = Down_Ev 'd | Up_Ev 'u | Join

definition bi_start :: "local_client_connection \<Rightarrow> time \<Rightarrow> (('o, 'p) bi \<times> u64) outcome" where
  "bi_start c t =
     (case now_secs t of
        None \<Rightarrow> Panic
      | Some now \<Rightarrow>
          Returned (\<lparr>bi_conn = c, bi_down = fwd_init, bi_up = fwd_init, bi_returned = False\<rparr>, now))"

text \<open>\<open>bi_udp_host\<close> panics when its socket is not connected.\<close>

definition bi_udp_host_start ::
    "bool \<Rightarrow> local_client_connection \<Rightarrow> time \<Rightarrow> ((bytes, bytes) bi \<times> u64) outcome" where
  "bi_udp_host_start peer_addr_ok c t = (if \<not> peer_addr_ok then Panic else bi_start c t)"

definition bi_joinable :: "('o, 'p) bi \<Rightarrow> bool" where
  "bi_joinable b \<longleftrightarrow>
     fwd_ended (fw_pc (bi_down b)) \<and> fwd_ended (fw_pc (bi_up b)) \<or>
     fw_pc (bi_down b) = Panicked \<or> fw_pc (bi_up b) = Panicked"

fun bi_step ::
    "('d \<Rightarrow> 'o fwd \<times> 's \<Rightarrow> 'o fwd \<times> 's) \<Rightarrow> ('u \<Rightarrow> 'p fwd \<times> 's \<Rightarrow> 'p fwd \<times> 's) \<Rightarrow>
     (local_client_connection \<Rightarrow> conn_table \<Rightarrow> bool \<times> conn_table) \<Rightarrow>
     ('d, 'u) bi_event \<Rightarrow> ('o, 'p) bi \<times> 's \<times> conn_table \<Rightarrow> ('o, 'p) bi \<times> 's \<times> conn_table" where
  "bi_step down up disconnect (Down_Ev e) (b, s, tbl) =
     (let (f, s') = down e (bi_down b, s) in (b\<lparr>bi_down := f\<rparr>, s', tbl))"
| "bi_step down up disconnect (Up_Ev e) (b, s, tbl) =
     (let (f, s') = up e (bi_up b, s) in (b\<lparr>bi_up := f\<rparr>, s', tbl))"
| "bi_step down up disconnect Join (b, s, tbl) =
     (if bi_joinable b \<and> \<not> bi_returned b
      then (b\<lparr>bi_returned := True\<rparr>, s, snd (disconnect (bi_conn b) tbl))
      else (b, s, tbl))"

type_synonym stream_bi = "(bytes, bytes) bi"
type_synonym stream_event = "(bytes option fwd_event, bytes fwd_event) bi_event"
type_synonym udp_bi = "(socket_addr \<times> bytes, bytes) bi"
type_synonym udp_event = "(bytes option fwd_event, udp_up_event) bi_event"

definition bi_tcp_stream_host ::
    "stream_event \<Rightarrow> stream_bi \<times> u64 \<times> conn_table \<Rightarrow> stream_bi \<times> u64 \<times> conn_table" where
  "bi_tcp_stream_host = bi_step tcp_host_down tcp_host_up disconnect_local_client_connection"

definition bi_tcp_stream_client ::
    "stream_event \<Rightarrow> stream_bi \<times> u64 \<times> conn_table \<Rightarrow> stream_bi \<times> u64 \<times> conn_table" where
  "bi_tcp_stream_client = bi_step tcp_client_down tcp_client_up disconnect_local_connection"

definition bi_udp_host ::
    "stream_event \<Rightarrow> stream_bi \<times> u64 \<times> conn_table \<Rightarrow> stream_bi \<times> u64 \<times> conn_table" where
  "bi_udp_host = bi_step udp_host_down udp_host_up disconnect_local_client_connection"

definition bi_udp_client ::
    "udp_event \<Rightarrow> udp_bi \<times> (u64 \<times> dgram_queue) \<times> conn_table \<Rightarrow>
     udp_bi \<times> (u64 \<times> dgram_queue) \<times> conn_table" where
  "bi_udp_client e s =
     (let client_addr = client_local_addr (bi_conn (fst s)) in
      bi_step (udp_client_down client_addr) (udp_client_up client_addr) disconnect_local_connection e s)"

fun run_all :: "('e \<Rightarrow> 's \<Rightarrow> 's) \<Rightarrow> 'e list \<Rightarrow> 's \<Rightarrow> 's" where
  "run_all step [] s = s"
| "run_all step (e # es) s = run_all step es (step e s)"

lemma run_all_append [simp]: "run_all step (es @ es') s = run_all step es' (run_all step es s)"
  by (induction es arbitrary: s) auto

lemma run_all_invariant:
  assumes "\<And>e s. I s \<Longrightarrow> I (step e s)" and "I s"
  shows "I (run_all step es s)"
  using assms(2) by (induction es arbitrary: s) (auto intro: assms(1))

text \<open>A machine that runs inside another one: the outer state is built by \<open>put\<close> from the inner.\<close>

lemma run_all_embed:
  assumes "\<And>e x. e \<in> set es \<Longrightarrow> I x \<Longrightarrow> outer (wrap e) (put x) = put (inner e x) \<and> I (inner e x)"
    and "I x"
  shows "run_all outer (map wrap es) (put x) = put (run_all inner es x) \<and> I (run_all inner es x)"
  using assms by (induction es arbitrary: x) auto

subsection \<open>Sessions\<close>

text \<open>
  What the four functions have in common: their loops stay ended once they have ended, and the
  table is given to a \<open>disconnect\<close> that removes the connection's key.
\<close>

locale session = disconnector key disconnect
  for key and disconnect +
  fixes step :: "('d, 'u) bi_event \<Rightarrow> ('o, 'p) bi \<times> 's \<times> conn_table \<Rightarrow> ('o, 'p) bi \<times> 's \<times> conn_table"
    and down :: "local_client_connection \<Rightarrow> 'd \<Rightarrow> 'o fwd \<times> 's \<Rightarrow> 'o fwd \<times> 's"
    and up :: "local_client_connection \<Rightarrow> 'u \<Rightarrow> 'p fwd \<times> 's \<Rightarrow> 'p fwd \<times> 's"
  assumes step_bi: "step e (b, s, tbl) = bi_step (down (bi_conn b)) (up (bi_conn b)) disconnect e (b, s, tbl)"
    and down_ended: "fwd_ended (fw_pc f) \<Longrightarrow> fst (down c d (f, s)) = f"
    and up_ended: "fwd_ended (fw_pc g) \<Longrightarrow> fst (up c u (g, s)) = g"
begin

lemma step_cases:
  assumes "step e (b, s, tbl) = (b', s', tbl')"
  shows "bi_conn b' = bi_conn b \<and>
    (if bi_returned b then bi_returned b' \<and> tbl' = tbl
     else if bi_returned b' then e = Join \<and> bi_joinable b \<and> tbl' = hm_remove (key (bi_conn b)) tbl
     else tbl' = tbl)"
  using assms
  by (cases e) (auto simp: step_bi removes Let_def split: prod.splits if_splits)

lemma joinable_step:
  assumes "step e (b, s, tbl) = (b', s', tbl')" and "bi_joinable b"
  shows "bi_joinable b'"
proof (cases e)
  case (Down_Ev d)
  with assms down_ended[of "bi_down b" "bi_conn b" d s] show ?thesis
    by (auto simp: step_bi bi_joinable_def split: prod.splits)
next
  case (Up_Ev u)
  with assms up_ended[of "bi_up b" "bi_conn b" u s] show ?thesis
    by (auto simp: step_bi bi_joinable_def split: prod.splits)
next
  case Join
  with assms show ?thesis by (auto simp: step_bi bi_joinable_def split: if_splits)
qed

text \<open>The table over a whole run: untouched until the function returns, then without the key.\<close>

lemma run_table:
  assumes "run_all step es (b, s, tbl) = (b', s', tbl')" and "\<not> bi_returned b"
  shows "bi_conn b' = bi_conn b \<and>
    (if bi_returned b' then bi_joinable b' \<and> tbl' = hm_remove (key (bi_conn b)) tbl else tbl' = tbl)"
proof -
  define I where "I = (\<lambda>x :: ('o, 'p) bi \<times> 's \<times> conn_table. case x of (b1, s1, t1) \<Rightarrow>
    bi_conn b1 = bi_conn b \<and>
    (if bi_returned b1 then bi_joinable b1 \<and> t1 = hm_remove (key (bi_conn b)) tbl else t1 = tbl))"
  have inv: "I (step e x)" if "I x" for e x
  proof -
    obtain b1 s1 t1 where x: "x = (b1, s1, t1)" by (cases x)
    obtain b2 s2 t2 where st: "step e (b1, s1, t1) = (b2, s2, t2)" by (cases "step e (b1, s1, t1)")
    show ?thesis
      using that step_cases[OF st] joinable_step[OF st]
      by (auto simp: I_def x st split: if_splits)
  qed
  have "I (b, s, tbl)" by (simp add: I_def assms(2))
  with inv have "I (run_all step es (b, s, tbl))" by (rule run_all_invariant)
  with assms(1) show ?thesis by (simp add: I_def)
qed

lemma step_open:
  assumes "step e x = x'" and "\<not> bi_returned (fst x)" and "e \<noteq> Join"
  shows "bi_conn (fst x') = bi_conn (fst x) \<and> \<not> bi_returned (fst x')"
proof -
  obtain b s tbl b' s' tbl' where x: "x = (b, s, tbl)" "x' = (b', s', tbl')"
    by (cases x; cases x')
  show ?thesis
    using step_cases[of e b s tbl b' s' tbl'] assms unfolding x by (auto split: if_splits)
qed

lemma join_returns:
  "bi_joinable b \<Longrightarrow> \<not> bi_returned b \<Longrightarrow>
   step Join (b, s, tbl) = (b\<lparr>bi_returned := True\<rparr>, s, hm_remove (key (bi_conn b)) tbl)"
  by (simp add: step_bi removes)

end

lemma udp_client_up_ended:
  "fwd_ended (fw_pc f) \<Longrightarrow> fst (udp_client_up addr e (f, s)) = f"
  by (cases s; cases e; cases "fw_pc f") auto

lemma fwd_step_ended_fst:
  "fwd_ended (fw_pc f) \<Longrightarrow> fst (fwd_step verdict writer e (f, s)) = f"
  by simp

declare
  tcp_host_down_def [fwd_defs]
  tcp_host_up_def [fwd_defs]
  tcp_client_down_def [fwd_defs]
  tcp_client_up_def [fwd_defs]
  udp_host_down_def [fwd_defs]
  udp_host_up_def [fwd_defs]
  udp_client_down_def [fwd_defs]

interpretation tcp_host: session client_virtual_addr disconnect_local_client_connection
    bi_tcp_stream_host "\<lambda>_. tcp_host_down" "\<lambda>_. tcp_host_up"
  by unfold_locales (simp_all add: bi_tcp_stream_host_def fwd_defs)

interpretation tcp_client: session client_local_addr disconnect_local_connection
    bi_tcp_stream_client "\<lambda>_. tcp_client_down" "\<lambda>_. tcp_client_up"
  by unfold_locales (simp_all add: bi_tcp_stream_client_def fwd_defs)

interpretation udp_host: session client_virtual_addr disconnect_local_client_connection
    bi_udp_host "\<lambda>_. udp_host_down" "\<lambda>_. udp_host_up"
  by unfold_locales (simp_all add: bi_udp_host_def fwd_defs)

interpretation udp_client: session client_local_addr disconnect_local_connection
    bi_udp_client "\<lambda>c. udp_client_down (client_local_addr c)" "\<lambda>c. udp_client_up (client_local_addr c)"
proof (unfold_locales, goal_cases)
  case (1 e b s tbl)
  then show ?case by (simp add: bi_udp_client_def Let_def)
next
  case (2 f c d s)
  then show ?case by (cases s) (simp add: udp_client_down_def)
next
  case (3 g c u s)
  then show ?case by (rule udp_client_up_ended)
qed

subsection \<open>Stop and inactivity in a session\<close>

text \<open>Steps of one direction do not touch the other, so a run splits into its directions.\<close>

lemma bi_down_run:
  "run_all (bi_step down up disconnect) (map Down_Ev es) (b, s, tbl) =
     (let (f, s') = run_all down es (bi_down b, s) in (b\<lparr>bi_down := f\<rparr>, s', tbl))"
  by (induction es arbitrary: b s) (auto simp: Let_def split: prod.splits)

lemma bi_up_run:
  "run_all (bi_step down up disconnect) (map Up_Ev es) (b, s, tbl) =
     (let (f, s') = run_all up es (bi_up b, s) in (b\<lparr>bi_up := f\<rparr>, s', tbl))"
  by (induction es arbitrary: b s) (auto simp: Let_def split: prod.splits)

definition flushed :: "(write_result \<Rightarrow> bytes \<Rightarrow> 'o list) \<Rightarrow> exit_cause \<Rightarrow> 'o fwd \<Rightarrow> 'o fwd" where
  "flushed writer cause f =
     (if fwd_ended (fw_pc f) then f
      else f\<lparr>fw_pc := Stopped cause,
        fw_sink := fw_sink f @ (case fw_pc f of Writing bs \<Rightarrow> writer W_Ok bs | _ \<Rightarrow> [])\<rparr>)"

lemma flushed_ended [simp]: "fwd_ended (fw_pc (flushed writer cause f))"
  by (simp add: flushed_def)

lemma run_all_fwd_stop:
  assumes "now_secs t \<noteq> None" and "stop_changed p = Some True"
  shows "run_all (fwd_step verdict writer) [Ev_Wrote W_Ok, Ev_Top t, Ev_Poll p t] (f, a) =
    (flushed writer By_Stop f, a)"
  using assms by (cases "fw_pc f") (auto simp: fwd_handlers flushed_def)

lemma run_all_fwd_idle:
  assumes "now_secs t = Some now" and "stop_changed p = None" "read_ready p = None" "slept p"
    and "timed_out now a" and "now_secs t0 \<noteq> None"
  shows "run_all (fwd_step verdict writer) [Ev_Wrote W_Ok, Ev_Top t0, Ev_Poll p t] (f, a) =
    (flushed writer By_Timeout f, a)"
  using assms by (cases "fw_pc f") (auto simp: fwd_handlers flushed_def select_idle)

lemma run_all_udp_up_stop:
  assumes "now_secs t \<noteq> None" and "up_stop p = Some True"
  shows "run_all (udp_client_up addr) [Up_Wrote W_Ok, Up_Top t, Up_Poll p t] (f, a, q) =
    (flushed stream_writer By_Stop f, a, q)"
  using assms by (cases "fw_pc f") (auto simp: fwd_handlers flushed_def udp_up_select_def)

definition stream_stop_events :: "time \<Rightarrow> bytes option poll \<Rightarrow> bytes poll \<Rightarrow> stream_event list" where
  "stream_stop_events t pd pu =
     map Down_Ev [Ev_Wrote W_Ok, Ev_Top t, Ev_Poll pd t] @
     map Up_Ev [Ev_Wrote W_Ok, Ev_Top t, Ev_Poll pu t] @ [Join]"

definition udp_stop_events :: "time \<Rightarrow> bytes option poll \<Rightarrow> udp_poll \<Rightarrow> udp_event list" where
  "udp_stop_events t pd pu =
     map Down_Ev [Ev_Wrote W_Ok, Ev_Top t, Ev_Poll pd t] @
     map Up_Ev [Up_Wrote W_Ok, Up_Top t, Up_Poll pu t] @ [Join]"

lemma bi_stream_ends:
  assumes "down = fwd_step v1 w1" "up = fwd_step v2 w2" and "\<not> bi_returned b"
    and "run_all down ds (bi_down b, a) = (flushed w1 cause (bi_down b), a)"
    and "run_all up us (bi_up b, a) = (flushed w2 cause (bi_up b), a)"
  shows "run_all (bi_step down up disconnect) (map Down_Ev ds @ map Up_Ev us @ [Join]) (b, a, tbl) =
    (b\<lparr>bi_down := flushed w1 cause (bi_down b), bi_up := flushed w2 cause (bi_up b),
       bi_returned := True\<rparr>, a, snd (disconnect (bi_conn b) tbl))"
proof -
  have "bi_joinable (b\<lparr>bi_down := flushed w1 cause (bi_down b), bi_up := flushed w2 cause (bi_up b)\<rparr>)"
    by (simp add: bi_joinable_def)
  with assms show ?thesis
    by (simp add: bi_down_run bi_up_run)
qed

subsection \<open>Properties\<close>

definition deregisters ::
    "(local_client_connection \<Rightarrow> socket_addr) \<Rightarrow>
     ('e \<Rightarrow> ('o, 'p) bi \<times> 's \<times> conn_table \<Rightarrow> ('o, 'p) bi \<times> 's \<times> conn_table) \<Rightarrow> bool" where
  "deregisters key step \<longleftrightarrow>
     (\<forall>es b s tbl b' s' tbl'.
        run_all step es (b, s, tbl) = (b', s', tbl') \<and> \<not> bi_returned b \<longrightarrow>
        (bi_returned b' \<longrightarrow> bi_joinable b' \<and> tbl' = hm_remove (key (bi_conn b)) tbl) \<and>
        (\<not> bi_returned b' \<longrightarrow> tbl' = tbl))"

text \<open>
  C10. Each of the four forwarding functions, over every interleaving of its two loops, leaves the
  table of local connections untouched until it returns, returns only when both loops have ended
  or one has panicked, and has then removed exactly its own connection.
\<close>

theorem sessions_deregister:
  "deregisters client_virtual_addr bi_tcp_stream_host \<and>
   deregisters client_virtual_addr bi_udp_host \<and>
   deregisters client_local_addr bi_tcp_stream_client \<and>
   deregisters client_local_addr bi_udp_client"
  unfolding deregisters_def
  using tcp_host.run_table udp_host.run_table tcp_client.run_table udp_client.run_table
  by (intro conjI allI impI) (metis (lifting))+

text \<open>
  C16. The stop signal ends a stream session on the host and on the client from every state: once
  each loop has finished the write it is in and is polled, both have stopped, whatever data is
  ready to be read, the chunks in flight have been written, and the function has returned and
  removed its connection. A loop that had ended before keeps its state.
\<close>

theorem stop_ends_stream_session:
  assumes "now_secs t \<noteq> None" and "stop_changed pd = Some True" and "stop_changed pu = Some True"
    and "\<not> bi_returned b"
  shows "run_all bi_tcp_stream_host (stream_stop_events t pd pu) (b, a, tbl) =
      (b\<lparr>bi_down := flushed stream_writer By_Stop (bi_down b),
         bi_up := flushed stream_writer By_Stop (bi_up b), bi_returned := True\<rparr>,
       a, hm_remove (client_virtual_addr (bi_conn b)) tbl) \<and>
    run_all bi_tcp_stream_client (stream_stop_events t pd pu) (b, a, tbl) =
      (b\<lparr>bi_down := flushed stream_writer By_Stop (bi_down b),
         bi_up := flushed stream_writer By_Stop (bi_up b), bi_returned := True\<rparr>,
       a, hm_remove (client_local_addr (bi_conn b)) tbl) \<and>
    run_all bi_udp_host (stream_stop_events t pd pu) (b, a, tbl) =
      (b\<lparr>bi_down := flushed dgram_writer By_Stop (bi_down b),
         bi_up := flushed stream_writer By_Stop (bi_up b), bi_returned := True\<rparr>,
       a, hm_remove (client_virtual_addr (bi_conn b)) tbl)"
proof -
  note ends = bi_stream_ends[OF refl refl assms(4) run_all_fwd_stop[OF assms(1,2)]
      run_all_fwd_stop[OF assms(1,3)]]
  show ?thesis
    unfolding stream_stop_events_def bi_tcp_stream_host_def bi_tcp_stream_client_def bi_udp_host_def
      fwd_defs ends
    by (simp add: host_disc.removes client_disc.removes)
qed

text \<open>A concrete session with a chunk in flight from the tunnel.\<close>

definition demo_conn :: local_client_connection where
  "demo_conn = \<lparr>client_local_addr = V4 2130706433 5000, client_virtual_addr = V4 0 0, last_active = 0\<rparr>"

definition demo_session :: stream_bi where
  "demo_session = \<lparr>bi_conn = demo_conn, bi_down = \<lparr>fw_pc = Writing [1, 2], fw_sink = []\<rparr>,
     bi_up = \<lparr>fw_pc = Selecting 20 True, fw_sink = []\<rparr>, bi_returned = False\<rparr>"

definition stop_poll :: "'r poll" where
  "stop_poll = \<lparr>stop_changed = Some True, read_ready = None, slept = True\<rparr>"

definition idle_poll :: "'r poll" where
  "idle_poll = \<lparr>stop_changed = None, read_ready = None, slept = True\<rparr>"

theorem stop_ends_stream_session_witness:
  "\<not> bi_returned demo_session \<and>
   fw_sink (bi_down (fst (run_all bi_tcp_stream_host (stream_stop_events 0 stop_poll stop_poll)
     (demo_session, 0, [])))) = [[1, 2]]"
proof -
  have h: "\<not> bi_returned demo_session" by (simp add: demo_session_def)
  show ?thesis
    using h stop_ends_stream_session[of 0 stop_poll stop_poll demo_session 0 "[]"]
    by (simp add: stop_poll_def now_secs_def flushed_def demo_session_def)
qed

text \<open>
  C17. Inactivity ends a stream session: when both loops are polled with nothing to read and their
  sleeps over at a time 20 seconds or more after the last activity, both stop, and the function
  returns and removes its connection.
\<close>

theorem idle_ends_stream_session:
  assumes "now_secs t = Some now" and "unat a + 20 \<le> unat now"
    and "stop_changed pd = None" "read_ready pd = None" "slept pd"
    and "stop_changed pu = None" "read_ready pu = None" "slept pu"
    and "\<not> bi_returned b"
  shows "run_all bi_tcp_stream_host (stream_stop_events t pd pu) (b, a, tbl) =
      (b\<lparr>bi_down := flushed stream_writer By_Timeout (bi_down b),
         bi_up := flushed stream_writer By_Timeout (bi_up b), bi_returned := True\<rparr>,
       a, hm_remove (client_virtual_addr (bi_conn b)) tbl) \<and>
    run_all bi_tcp_stream_client (stream_stop_events t pd pu) (b, a, tbl) =
      (b\<lparr>bi_down := flushed stream_writer By_Timeout (bi_down b),
         bi_up := flushed stream_writer By_Timeout (bi_up b), bi_returned := True\<rparr>,
       a, hm_remove (client_local_addr (bi_conn b)) tbl) \<and>
    run_all bi_udp_host (stream_stop_events t pd pu) (b, a, tbl) =
      (b\<lparr>bi_down := flushed dgram_writer By_Timeout (bi_down b),
         bi_up := flushed stream_writer By_Timeout (bi_up b), bi_returned := True\<rparr>,
       a, hm_remove (client_virtual_addr (bi_conn b)) tbl)"
proof -
  have t: "now_secs t \<noteq> None" and o: "timed_out now a"
    using assms(1,2) by (simp_all add: timed_out_iff)
  note ends = bi_stream_ends[OF refl refl assms(9) run_all_fwd_idle[OF assms(1,3-5) o t]
      run_all_fwd_idle[OF assms(1,6-8) o t]]
  show ?thesis
    unfolding stream_stop_events_def bi_tcp_stream_host_def bi_tcp_stream_client_def bi_udp_host_def
      fwd_defs ends
    by (simp add: host_disc.removes client_disc.removes)
qed

theorem idle_ends_stream_session_witness:
  "fw_pc (bi_up (fst (run_all bi_tcp_stream_client (stream_stop_events 20000000000 idle_poll idle_poll)
     (demo_session, 0, [])))) = Stopped By_Timeout"
  using idle_ends_stream_session[of 20000000000 20 0 idle_poll idle_poll demo_session "[]"]
  by (simp add: idle_poll_def now_secs_def flushed_def demo_session_def)

lemma run_all_udp_client_down:
  "run_all (udp_client_down addr) es (f, a, q) =
     (case run_all (fwd_step tunnel_verdict (dgram_writer_to addr)) es (f, a) of
        (f', a') \<Rightarrow> (f', a', q))"
  by (induction es arbitrary: f a) (auto simp: udp_client_down_def split: prod.splits)

lemma run_all_bi_udp_client:
  "run_all bi_udp_client es (b, s, tbl) =
     run_all (bi_step (udp_client_down (client_local_addr (bi_conn b)))
       (udp_client_up (client_local_addr (bi_conn b))) disconnect_local_connection) es (b, s, tbl)"
proof (induction es arbitrary: b s tbl)
  case (Cons e es)
  obtain b' s' tbl' where st: "bi_udp_client e (b, s, tbl) = (b', s', tbl')"
    by (cases "bi_udp_client e (b, s, tbl)")
  with udp_client.step_cases[OF st] Cons.IH[of b' s' tbl'] show ?case
    by (simp add: bi_udp_client_def Let_def)
qed simp

text \<open>
  The stop signal also ends a UDP session of the client, from every state and whatever is at
  the head of the socket's queue, which it leaves as it is.
\<close>

lemma udp_client_stop_run:
  assumes "now_secs t \<noteq> None" and "stop_changed pd = Some True" and "up_stop pu = Some True"
    and "\<not> bi_returned b"
  shows "run_all bi_udp_client (udp_stop_events t pd pu) (b, (a, q), tbl) =
      (b\<lparr>bi_down := flushed (dgram_writer_to (client_local_addr (bi_conn b))) By_Stop (bi_down b),
         bi_up := flushed stream_writer By_Stop (bi_up b), bi_returned := True\<rparr>,
       (a, q), hm_remove (client_local_addr (bi_conn b)) tbl)"
proof -
  let ?addr = "client_local_addr (bi_conn b)"
  have "bi_joinable (b\<lparr>bi_down := flushed (dgram_writer_to ?addr) By_Stop (bi_down b),
      bi_up := flushed stream_writer By_Stop (bi_up b)\<rparr>)"
    by (simp add: bi_joinable_def)
  then show ?thesis
    using assms(4)
    by (simp only: run_all_bi_udp_client udp_stop_events_def run_all_append bi_down_run bi_up_run
        run_all_udp_client_down run_all_fwd_stop[OF assms(1,2)] run_all_udp_up_stop[OF assms(1,3)] Let_def
        prod.case) (simp add: client_disc.removes)
qed

end
