(* ===== verification/Packet.thy ===== *)
theory Packet
  imports Net_Core
begin

section \<open>Control packets\<close>

text \<open>
  \<open>send_packet\<close>, \<open>receive_packet\<close>, \<open>ReceivePacketError\<close> and \<open>Client2HostControlMsg\<close> of
  \<open>lantun-core/src/common.rs\<close>. The codec is bincode's and the stream is iroh's: the encoder and
  the decoder are parameters, and so are the results of the calls on the stream. A send leaves on
  the wire the bytes written and whether the stream was finished; a receive reads chunks until
  the stream reports its end, then decodes what it collected and drops the decoder's count of
  consumed bytes.
\<close>

datatype client2host_control_msg = ConnReq socket_addr

fun conn_req_addr :: "client2host_control_msg \<Rightarrow> socket_addr" where
  "conn_req_addr (ConnReq local_addr) = local_addr"

subsection \<open>Sending\<close>

datatype write_all_result = Wrote_All | Write_Failed nat io_error

record send_env =
  open_uni :: "(io_error, unit) result"
  write_all :: write_all_result
  flush_res :: "(io_error, unit) result"
  finish_res :: "(io_error, unit) result"

record uni_stream =
  us_data :: bytes
  us_finished :: bool

definition send_packet ::
    "('p \<Rightarrow> bytes) \<Rightarrow> send_env \<Rightarrow> 'p \<Rightarrow> (io_error, unit) result \<times> uni_stream option" where
  "send_packet encode env packet =
     (case open_uni env of
        Inl e \<Rightarrow> (Err e, None)
      | Inr u \<Rightarrow>
          let data = encode packet in
          (case write_all env of
             Write_Failed k e \<Rightarrow> (Err e, Some \<lparr>us_data = take k data, us_finished = False\<rparr>)
           | Wrote_All \<Rightarrow>
               (case flush_res env of
                  Inl e \<Rightarrow> (Err e, Some \<lparr>us_data = data, us_finished = False\<rparr>)
                | Inr u \<Rightarrow>
                    (case finish_res env of
                       Inl e \<Rightarrow> (Err e, Some \<lparr>us_data = data, us_finished = False\<rparr>)
                     | Inr u \<Rightarrow> (Ok (), Some \<lparr>us_data = data, us_finished = True\<rparr>)))))"

lemma send_packet_Ok_iff:
  "fst (send_packet encode env packet) = Ok () \<longleftrightarrow>
     open_uni env = Ok () \<and> write_all env = Wrote_All \<and> flush_res env = Ok () \<and> finish_res env = Ok ()"
  by (auto simp: send_packet_def Let_def split: sum.splits write_all_result.splits)

lemma send_packet_wire:
  assumes "fst (send_packet encode env packet) = Ok ()"
  shows "snd (send_packet encode env packet) = Some \<lparr>us_data = encode packet, us_finished = True\<rparr>"
  using assms unfolding send_packet_Ok_iff by (simp add: send_packet_def Let_def)

lemma send_packet_prefix:
  "snd (send_packet encode env packet) = Some u \<Longrightarrow> prefix (us_data u) (encode packet)"
  by (auto simp: send_packet_def Let_def take_is_prefix split: sum.splits write_all_result.splits)

subsection \<open>Receiving\<close>

datatype receive_packet_error =
    RP_Io io_error
  | RP_Decode string
  | RP_Connection string
  | RP_Read string

fun receive_packet_error_fmt :: "receive_packet_error \<Rightarrow> string" where
  "receive_packet_error_fmt (RP_Io e) = ''io error: '' @ io_error_message e"
| "receive_packet_error_fmt (RP_Decode e) = ''decode error: '' @ e"
| "receive_packet_error_fmt (RP_Connection e) = ''connection error: '' @ e"
| "receive_packet_error_fmt (RP_Read e) = ''read error: '' @ e"

text \<open>\<open>None\<close> is a receive that still waits for the peer.\<close>

fun receive_loop ::
    "bytes \<Rightarrow> (string, bytes option) result list \<Rightarrow> (receive_packet_error, bytes) result option" where
  "receive_loop buf [] = None"
| "receive_loop buf (Inl e # rs) = Some (Err (RP_Read e))"
| "receive_loop buf (Inr (Some bs) # rs) = receive_loop (buf @ bs) rs"
| "receive_loop buf (Inr None # rs) = Some (Ok buf)"

definition receive_packet ::
    "(bytes \<Rightarrow> (string, 'p \<times> nat) result) \<Rightarrow> (string, unit) result \<Rightarrow>
     (string, bytes option) result list \<Rightarrow> (receive_packet_error, 'p) result option" where
  "receive_packet decode accept_uni reads =
     (case accept_uni of
        Inl e \<Rightarrow> Some (Err (RP_Connection e))
      | Inr u \<Rightarrow>
          (case receive_loop [] reads of
             None \<Rightarrow> None
           | Some (Inl e) \<Rightarrow> Some (Err e)
           | Some (Inr buf) \<Rightarrow>
               (case decode buf of
                  Inl e \<Rightarrow> Some (Err (RP_Decode e))
                | Inr (packet, n) \<Rightarrow> Some (Ok packet))))"

lemma receive_loop_chunks:
  "receive_loop buf (map (\<lambda>c. Ok (Some c)) cs @ Ok None # rest) = Some (Ok (buf @ concat cs))"
  by (induction cs arbitrary: buf) auto

lemma receive_loop_waits: "receive_loop buf (map (\<lambda>c. Ok (Some c)) cs) = None"
  by (induction cs arbitrary: buf) auto

lemma receive_loop_error:
  "receive_loop buf (map (\<lambda>c. Ok (Some c)) cs @ Err e # rest) = Some (Err (RP_Read e))"
  by (induction cs arbitrary: buf) auto

text \<open>Every list of read results falls in one of the three shapes.\<close>

lemma reads_cases:
  obtains cs where "reads = map (\<lambda>c. Ok (Some c)) cs"
  | cs rest where "reads = map (\<lambda>c. Ok (Some c)) cs @ Ok None # rest"
  | cs e rest where "reads = map (\<lambda>c. Ok (Some c)) cs @ Err e # rest"
proof (induction reads arbitrary: thesis)
  case Nil
  from Nil(1)[of "[]"] show ?case by simp
next
  case (Cons r rs)
  show ?case
  proof (cases r)
    case (Inl e)
    with Cons.prems(3)[of "[]" e rs] show ?thesis by simp
  next
    case (Inr o')
    show ?thesis
    proof (cases o')
      case None
      with Inr Cons.prems(2)[of "[]" rs] show ?thesis by simp
    next
      case (Some c)
      show ?thesis
      proof (rule Cons.IH)
        fix cs assume "rs = map (\<lambda>c. Ok (Some c)) cs"
        with Inr Some show ?thesis using Cons.prems(1)[of "c # cs"] by simp
      next
        fix cs rest assume "rs = map (\<lambda>c. Ok (Some c)) cs @ Ok None # rest"
        with Inr Some show ?thesis using Cons.prems(2)[of "c # cs" rest] by simp
      next
        fix cs e rest assume "rs = map (\<lambda>c. Ok (Some c)) cs @ Err e # rest"
        with Inr Some show ?thesis using Cons.prems(3)[of "c # cs" e rest] by simp
      qed
    qed
  qed
qed

subsection \<open>Properties\<close>

text \<open>What the program relies on from the codec: decoding an encoding gives the value back.\<close>

definition codec_ok :: "('p \<Rightarrow> bytes) \<Rightarrow> (bytes \<Rightarrow> (string, 'p \<times> nat) result) \<Rightarrow> 'p \<Rightarrow> bool" where
  "codec_ok encode decode p \<longleftrightarrow> decode (encode p) = Ok (p, length (encode p))"

text \<open>
  A packet that was sent successfully is received as the same packet, however the stream cuts
  its bytes into reads.
\<close>

lemma packet_roundtrip:
  assumes "codec_ok encode decode packet"
    and "fst (send_packet encode env packet) = Ok ()"
    and "snd (send_packet encode env packet) = Some u"
    and "concat chunks = us_data u"
  shows "us_finished u \<and>
    receive_packet decode (Ok ()) (map (\<lambda>c. Ok (Some c)) chunks @ Ok None # rest) = Some (Ok packet)"
  using assms send_packet_wire[OF assms(2)]
  by (auto simp: receive_packet_def receive_loop_chunks codec_ok_def)

text \<open>A small codec for requests from IPv4 addresses, to run the theorem on.\<close>

definition demo_encode :: "client2host_control_msg \<Rightarrow> bytes" where
  "demo_encode m =
     (case conn_req_addr m of
        V4 ip p \<Rightarrow> 0 # ipv4_octets ip @ [ucast (drop_bit 8 p), ucast p]
      | V6 ip p f s \<Rightarrow> [1])"

definition demo_decode :: "bytes \<Rightarrow> (string, client2host_control_msg \<times> nat) result" where
  "demo_decode bs =
     (case bs of
        [v, a, b, c, d, p, q] \<Rightarrow>
          if v \<noteq> 0 then Err ''unknown variant''
          else Ok (ConnReq (V4 (push_bit 24 (ucast a) + push_bit 16 (ucast b) + push_bit 8 (ucast c) + ucast d)
            (push_bit 8 (ucast p) + ucast q)), 7)
      | _ \<Rightarrow> Err ''unknown variant'')"

text \<open>
  A receive returns as soon as the stream ends or a read fails, never before, and fails
  exactly when the stream could not be accepted, a read failed before the end, or the collected
  bytes do not decode; the result depends on the bytes, not on their chunks.
\<close>

lemma receive_packet_outcomes:
  "receive_packet decode (Err e) reads = Some (Err (RP_Connection e)) \<and>
   receive_packet decode (Ok ()) (map (\<lambda>c. Ok (Some c)) cs) = None \<and>
   receive_packet decode (Ok ()) (map (\<lambda>c. Ok (Some c)) cs @ Err e # rest) = Some (Err (RP_Read e)) \<and>
   receive_packet decode (Ok ()) (map (\<lambda>c. Ok (Some c)) cs @ Ok None # rest) =
     Some (case decode (concat cs) of Inl d \<Rightarrow> Err (RP_Decode d) | Inr (p, n) \<Rightarrow> Ok p)"
  by (auto simp: receive_packet_def receive_loop_chunks receive_loop_waits receive_loop_error
      split: sum.splits)

end
