(* ===== verification/Tunnel_Common.thy ===== *)
theory Tunnel_Common
  imports Lantun_Prelude
begin

section \<open>The life cycle of a tunnel\<close>

text \<open>
  What the two implementations of the trait \<open>TunnelCommon\<close> (\<open>lantun-core/src/common.rs\<close>) share:
  a flag that \<open>is_running\<close> reads, the optional running properties, an operation that starts the
  tunnel and one that stops it. A tunnel lives in a world of spawned tasks, which move on between
  its operations but never write to the tunnel itself. The locale states the contract of the two
  operations; the theories \<open>Host\<close> and \<open>Client\<close> interpret it on their tunnels.
\<close>

datatype ('env, 'w) life_op = Op_Start 'env | Op_Stop | Op_Tasks "'w \<Rightarrow> 'w"

fun life_step ::
    "('env \<Rightarrow> 't \<times> 'w \<Rightarrow> 'r \<times> 't \<times> 'w) \<Rightarrow> ('t \<times> 'w \<Rightarrow> 'q outcome \<times> 't \<times> 'w) \<Rightarrow>
     ('env, 'w) life_op \<Rightarrow> 't \<times> 'w \<Rightarrow> 't \<times> 'w" where
  "life_step start stop (Op_Start env) s = snd (start env s)"
| "life_step start stop Op_Stop s = snd (stop s)"
| "life_step start stop (Op_Tasks f) (t, w) = (t, f w)"

fun life_run ::
    "('env \<Rightarrow> 't \<times> 'w \<Rightarrow> 'r \<times> 't \<times> 'w) \<Rightarrow> ('t \<times> 'w \<Rightarrow> 'q outcome \<times> 't \<times> 'w) \<Rightarrow>
     ('env, 'w) life_op list \<Rightarrow> 't \<times> 'w \<Rightarrow> 't \<times> 'w" where
  "life_run start stop [] s = s"
| "life_run start stop (op # ops) s = life_run start stop ops (life_step start stop op s)"

text \<open>Whether some stop of a run panics.\<close>

fun life_panics ::
    "('env \<Rightarrow> 't \<times> 'w \<Rightarrow> 'r \<times> 't \<times> 'w) \<Rightarrow> ('t \<times> 'w \<Rightarrow> 'q outcome \<times> 't \<times> 'w) \<Rightarrow>
     ('env, 'w) life_op list \<Rightarrow> 't \<times> 'w \<Rightarrow> bool" where
  "life_panics start stop [] s = False"
| "life_panics start stop (op # ops) s =
     ((case op of Op_Stop \<Rightarrow> fst (stop s) = Panic | _ \<Rightarrow> False) \<or> life_panics start stop ops (life_step start stop op s))"

locale tunnel_lifecycle =
  fixes running :: "'t \<Rightarrow> bool"
    and has_props :: "'t \<Rightarrow> bool"
    and ident :: "'t \<Rightarrow> 'i"
    and start :: "'env \<Rightarrow> 't \<times> 'w \<Rightarrow> ('e, 'h) result \<times> 't \<times> 'w"
    and stop :: "'t \<times> 'w \<Rightarrow> 'q outcome \<times> 't \<times> 'w"
  assumes start_running: "running t \<Longrightarrow> \<exists>e. start env (t, w) = (Err e, t, w)"
    and start_err: "start env (t, w) = (Err e, t', w') \<Longrightarrow> t' = t \<and> w' = w"
    and start_ok: "start env (t, w) = (Ok h, t', w') \<Longrightarrow> running t' \<and> has_props t' \<and> ident t' = ident t"
    and stop_stopped: "\<not> running t \<Longrightarrow> fst (stop (t, w)) \<noteq> Panic \<and> snd (stop (t, w)) = (t, w)"
    and stop_running: "running t \<Longrightarrow> stop (t, w) = (q, t', w') \<Longrightarrow>
        \<not> has_props t' \<and> ident t' = ident t \<and> (running t' \<longleftrightarrow> q = Panic)"
begin

lemma start_ident: "ident (fst (snd (start env (t, w)))) = ident t"
proof (cases "start env (t, w)")
  case (fields r t' w')
  then show ?thesis by (cases r) (auto dest: start_err start_ok)
qed

lemma stop_ident: "ident (fst (snd (stop (t, w)))) = ident t"
proof (cases "running t")
  case True
  obtain q t' w' where "stop (t, w) = (q, t', w')" by (cases "stop (t, w)")
  with stop_running[OF True this] show ?thesis by simp
qed (simp add: stop_stopped)

lemma life_step_ident: "ident (fst (life_step start stop op (t, w))) = ident t"
  by (cases op) (simp_all add: start_ident stop_ident)

lemma life_run_ident: "ident (fst (life_run start stop ops (t, w))) = ident t"
proof (induction ops arbitrary: t w)
  case (Cons op ops)
  obtain t' w' where "life_step start stop op (t, w) = (t', w')" by fastforce
  with Cons.IH[of t' w'] life_step_ident[of op t w] show ?case by simp
qed simp

lemma life_step_coherent:
  assumes "running t \<longleftrightarrow> has_props t" and "life_step start stop op (t, w) = (t', w')"
    and "\<not> (op = Op_Stop \<and> fst (stop (t, w)) = Panic)"
  shows "running t' \<longleftrightarrow> has_props t'"
proof (cases op)
  case (Op_Start env)
  obtain r t1 w1 where st: "start env (t, w) = (r, t1, w1)" by (cases "start env (t, w)")
  with Op_Start assms(2) have "t' = t1" by simp
  with st assms(1) show ?thesis by (cases r) (auto dest: start_err start_ok)
next
  case Op_Stop
  show ?thesis
  proof (cases "running t")
    case True
    obtain q t1 w1 where st: "stop (t, w) = (q, t1, w1)" by (cases "stop (t, w)")
    with Op_Stop assms(2,3) have "t' = t1" "q \<noteq> Panic" by auto
    with stop_running[OF True st] show ?thesis by simp
  next
    case False
    with Op_Stop assms(1,2) stop_stopped[OF False, of w] show ?thesis by simp
  qed
qed (use assms in auto)

lemma life_run_coherent:
  assumes "running t \<longleftrightarrow> has_props t" and "\<not> life_panics start stop ops (t, w)"
    and "life_run start stop ops (t, w) = (t', w')"
  shows "running t' \<longleftrightarrow> has_props t'"
  using assms
proof (induction ops arbitrary: t w)
  case (Cons op ops)
  obtain t1 w1 where st: "life_step start stop op (t, w) = (t1, w1)" by fastforce
  have "running t1 \<longleftrightarrow> has_props t1"
    using life_step_coherent[OF Cons.prems(1) st] Cons.prems(2) by (auto split: life_op.splits)
  with Cons.IH[of t1 w1] Cons.prems(2,3) st show ?case by simp
qed simp

text \<open>Stopping a stopped tunnel, and starting a running one, changes nothing.\<close>

lemma stop_twice:
  assumes "stop (t, w) = (Returned q, t', w')"
  shows "snd (stop (t', w')) = (t', w')"
proof -
  have "\<not> running t'"
  proof (cases "running t")
    case True
    with stop_running[OF True assms] show ?thesis by simp
  next
    case False
    with stop_stopped[OF False, of w] assms show ?thesis by simp
  qed
  then show ?thesis by (simp add: stop_stopped)
qed

end

end
