(* ===== verification/Client.thy ===== *)
theory Client
  imports Bi_Forward Packet Tunnel_Common
begin

section \<open>The client side\<close>

text \<open>
  \<open>lantun-core/src/client.rs\<close>: the listener task that \<open>ClientTunnel::connect\<close> spawns. It binds the
  tunnel's address and waits, in a biased \<open>select!\<close>, for the stop signal or an application: a TCP
  connection, or a datagram at the head of the UDP socket's queue. It then opens a stream, sends
  the connection request, registers the local connection and awaits its forwarding before it
  looks at the next application. An error of a call ends the task with that error. The state of
  the task is a \<open>client_run\<close>; its sent requests and the UDP queue are part of it.
\<close>

subsection \<open>Errors\<close>

datatype client_error =
    Client_FailedToCreateEndpoint string
  | Client_IoError io_error
  | Client_WriteError string
  | Client_ReadError string
  | Client_TunnelAlreadyExists socket_addr tunnel_protocol
  | Client_FailedToConnect string
  | Client_FailedToAcceptStream string
  | Client_ConnectionError string
  | Client_AlreadyConnected
  | Client_NotConnected

fun client_error_fmt :: "client_error \<Rightarrow> string" where
  "client_error_fmt (Client_FailedToCreateEndpoint e) = ''Failed to create endpoint: '' @ e"
| "client_error_fmt (Client_IoError e) = ''IO error: '' @ io_error_message e"
| "client_error_fmt (Client_WriteError e) = ''Write error: '' @ e"
| "client_error_fmt (Client_ReadError e) = ''Read error: '' @ e"
| "client_error_fmt (Client_TunnelAlreadyExists a p) =
     ''Tunnel with local address '' @ show_addr a @ ''/'' @ tunnel_protocol_fmt p @ '' already exists''"
| "client_error_fmt (Client_FailedToConnect e) = ''Failed to connect: '' @ e"
| "client_error_fmt (Client_FailedToAcceptStream e) = ''Failed to accept stream: '' @ e"
| "client_error_fmt (Client_ConnectionError e) = ''Connection error: '' @ e"
| "client_error_fmt Client_AlreadyConnected = ''Already connected to tunnel''"
| "client_error_fmt Client_NotConnected = ''Not connected to tunnel''"

subsection \<open>The listener task\<close>

datatype client_pc =
    C_Bind
  | C_Top
  | C_Select bool
  | C_Open socket_addr
  | C_Request socket_addr
  | C_Tcp_Start local_client_connection
  | C_Udp_Start local_client_connection
  | C_Tcp stream_bi
  | C_Udp udp_bi
  | C_Done "(client_error, unit) result"
  | C_Panicked

record client_run =
  cr_tunnel_addr :: socket_addr
  cr_protocol :: tunnel_protocol
  cr_table :: conn_table
  cr_cells :: "cell \<Rightarrow> u64"
  cr_next_cell :: cell
  cr_queue :: dgram_queue
  cr_requests :: "client2host_control_msg list"
  cr_stop_value :: bool
  cr_connection_closed :: bool
  cr_endpoint_closed :: bool
  cr_pc :: client_pc

text \<open>
  What \<open>select!\<close> finds: the stop channel, with its value, and the accept or the peek; the peek
  answers for the head of the queue, unless it fails.
\<close>

record listen_poll =
  lp_stop :: "bool option"
  lp_accept :: "(string, socket_addr) result option"
  lp_peek_err :: bool

datatype client_event =
    Cev_Bind "(io_error, unit) result"
  | Cev_Top
  | Cev_Poll listen_poll
  | Cev_Open "(string, unit) result"
  | Cev_Sent "(io_error, unit) result"
  | Cev_Start time
  | Cev_Tcp stream_event
  | Cev_Udp udp_event
  | Cev_Arrive socket_addr bytes

definition client_ready :: "client_run \<Rightarrow> listen_poll \<Rightarrow> (string, socket_addr) result option" where
  "client_ready r p =
     (case cr_protocol r of
        Tcp \<Rightarrow> lp_accept p
      | Udp \<Rightarrow> map_option (map_sum id snd) (peek_from (lp_peek_err p) (cr_queue r)))"

text \<open>The two branches of the listener's \<open>select!\<close>, in the order of the code.\<close>

definition client_select :: "bool \<Rightarrow> client_run \<Rightarrow> listen_poll \<Rightarrow> client_pc" where
  "client_select en r p =
     (case lp_stop p of
        Some v \<Rightarrow> if v then C_Done (Ok ()) else C_Top
      | None \<Rightarrow>
          (case (if en then client_ready r p else None) of
             Some (Inr addr) \<Rightarrow>
               if cr_protocol r = Udp \<and> hm_contains (cr_table r) addr then C_Top else C_Open addr
           | Some (Inl e) \<Rightarrow> C_Select False
           | None \<Rightarrow> C_Select en))"

definition client_register :: "socket_addr \<Rightarrow> client_run \<Rightarrow> client_run" where
  "client_register addr r =
     (let lcc = \<lparr>client_local_addr = addr, client_virtual_addr = V4 ipv4_unspecified 0,
                 last_active = cr_next_cell r\<rparr>
      in r\<lparr>cr_cells := (cr_cells r)(cr_next_cell r := 0), cr_next_cell := Suc (cr_next_cell r),
           cr_table := hm_insert addr lcc (cr_table r),
           cr_pc := (case cr_protocol r of Tcp \<Rightarrow> C_Tcp_Start lcc | Udp \<Rightarrow> C_Udp_Start lcc)\<rparr>)"

definition client_tcp_step :: "stream_bi \<Rightarrow> stream_event \<Rightarrow> client_run \<Rightarrow> client_run" where
  "client_tcp_step b e r =
     (let cell = last_active (bi_conn b);
          (b', active, tbl) = bi_tcp_stream_client e (b, cr_cells r cell, cr_table r)
      in r\<lparr>cr_cells := (cr_cells r)(cell := active), cr_table := tbl,
           cr_pc := (if bi_returned b' then C_Top else C_Tcp b')\<rparr>)"

definition client_udp_step :: "udp_bi \<Rightarrow> udp_event \<Rightarrow> client_run \<Rightarrow> client_run" where
  "client_udp_step b e r =
     (let cell = last_active (bi_conn b);
          (b', (active, q), tbl) = bi_udp_client e (b, (cr_cells r cell, cr_queue r), cr_table r)
      in r\<lparr>cr_cells := (cr_cells r)(cell := active), cr_queue := q, cr_table := tbl,
           cr_pc := (if bi_returned b' then C_Top else C_Udp b')\<rparr>)"

fun client_step :: "client_event \<Rightarrow> client_run \<Rightarrow> client_run" where
  "client_step (Cev_Bind res) r =
     (case cr_pc r of
        C_Bind \<Rightarrow>
          (case res of
             Inl e \<Rightarrow> r\<lparr>cr_pc := C_Done (Err (Client_IoError e))\<rparr>
           | Inr u \<Rightarrow> r\<lparr>cr_pc := C_Top\<rparr>)
      | _ \<Rightarrow> r)"
| "client_step Cev_Top r =
     (case cr_pc r of C_Top \<Rightarrow> r\<lparr>cr_pc := C_Select True\<rparr> | _ \<Rightarrow> r)"
| "client_step (Cev_Poll p) r =
     (case cr_pc r of C_Select en \<Rightarrow> r\<lparr>cr_pc := client_select en r p\<rparr> | _ \<Rightarrow> r)"
| "client_step (Cev_Open res) r =
     (case cr_pc r of
        C_Open addr \<Rightarrow>
          (case res of
             Inl e \<Rightarrow> r\<lparr>cr_pc := C_Done (Err (Client_ConnectionError e))\<rparr>
           | Inr u \<Rightarrow> r\<lparr>cr_pc := C_Request addr\<rparr>)
      | _ \<Rightarrow> r)"
| "client_step (Cev_Sent res) r =
     (case cr_pc r of
        C_Request addr \<Rightarrow>
          (case res of
             Inl e \<Rightarrow> r\<lparr>cr_pc := C_Done (Err (Client_IoError e))\<rparr>
           | Inr u \<Rightarrow> client_register addr (r\<lparr>cr_requests := cr_requests r @ [ConnReq addr]\<rparr>))
      | _ \<Rightarrow> r)"
| "client_step (Cev_Start t) r =
     (case cr_pc r of
        C_Tcp_Start lcc \<Rightarrow>
          (case bi_start lcc t of
             Panic \<Rightarrow> r\<lparr>cr_pc := C_Panicked\<rparr>
           | Returned (b, now) \<Rightarrow>
               r\<lparr>cr_cells := (cr_cells r)(last_active lcc := now), cr_pc := C_Tcp b\<rparr>)
      | C_Udp_Start lcc \<Rightarrow>
          (case bi_start lcc t of
             Panic \<Rightarrow> r\<lparr>cr_pc := C_Panicked\<rparr>
           | Returned (b, now) \<Rightarrow>
               r\<lparr>cr_cells := (cr_cells r)(last_active lcc := now), cr_pc := C_Udp b\<rparr>)
      | _ \<Rightarrow> r)"
| "client_step (Cev_Tcp e) r =
     (case cr_pc r of C_Tcp b \<Rightarrow> client_tcp_step b e r | _ \<Rightarrow> r)"
| "client_step (Cev_Udp e) r =
     (case cr_pc r of C_Udp b \<Rightarrow> client_udp_step b e r | _ \<Rightarrow> r)"
| "client_step (Cev_Arrive addr d) r =
     (case cr_pc r of
        C_Done res \<Rightarrow> r
      | C_Panicked \<Rightarrow> r
      | _ \<Rightarrow> r\<lparr>cr_queue := cr_queue r @ [(addr, d)]\<rparr>)"

definition new_client_run :: "socket_addr \<Rightarrow> tunnel_protocol \<Rightarrow> client_run" where
  "new_client_run addr proto =
     \<lparr>cr_tunnel_addr = addr, cr_protocol = proto, cr_table = hm_empty, cr_cells = (\<lambda>_. 0),
      cr_next_cell = 0, cr_queue = [], cr_requests = [], cr_stop_value = False, cr_connection_closed = False, cr_endpoint_closed = False,
      cr_pc = C_Bind\<rparr>"

declare
  client_register_def [run_defs]
  client_tcp_step_def [run_defs]
  client_udp_step_def [run_defs]

end
