(* ===== verification/Client_Behaviour.thy ===== *)
theory Client_Behaviour
  imports Client
begin

section \<open>Behaviour of the client's listener\<close>

text \<open>
  The invariant of the listener task, which says that the table of local connections holds
  exactly the connection that is being forwarded, and what the task does with applications,
  errors and the stop signal.
\<close>

subsection \<open>The invariant\<close>

fun client_pc_ok :: "tunnel_protocol \<Rightarrow> conn_table \<Rightarrow> client_pc \<Rightarrow> bool" where
  "client_pc_ok proto tbl (C_Tcp_Start lcc) \<longleftrightarrow> proto = Tcp \<and> tbl = [(client_local_addr lcc, lcc)]"
| "client_pc_ok proto tbl (C_Udp_Start lcc) \<longleftrightarrow> proto = Udp \<and> tbl = [(client_local_addr lcc, lcc)]"
| "client_pc_ok proto tbl (C_Tcp b) \<longleftrightarrow>
     proto = Tcp \<and> tbl = [(client_local_addr (bi_conn b), bi_conn b)] \<and> \<not> bi_returned b"
| "client_pc_ok proto tbl (C_Udp b) \<longleftrightarrow>
     proto = Udp \<and> tbl = [(client_local_addr (bi_conn b), bi_conn b)] \<and> \<not> bi_returned b"
| "client_pc_ok proto tbl C_Panicked \<longleftrightarrow> length tbl \<le> 1"
| "client_pc_ok proto tbl _ \<longleftrightarrow> tbl = []"

definition client_inv :: "client_run \<Rightarrow> bool" where
  "client_inv r \<longleftrightarrow> client_pc_ok (cr_protocol r) (cr_table r) (cr_pc r)"

lemma client_inv_new: "client_inv (new_client_run addr proto)"
  by (simp add: client_inv_def new_client_run_def hm_empty_def)

lemma client_inv_len: "client_inv r \<Longrightarrow> length (cr_table r) \<le> 1"
  by (cases "cr_pc r") (auto simp: client_inv_def)

lemma start_conn: "bi_start lcc t = Returned (b, now) \<Longrightarrow> bi_conn b = lcc \<and> \<not> bi_returned b"
  by (auto simp: bi_start_def split: option.splits)

lemma client_select_pc:
  "client_pc_ok proto [] (client_select en r p)"
  by (auto simp: client_select_def split: option.splits sum.splits)

lemma remove_singleton: "hm_remove k [(k, v)] = []"
  by (simp add: hm_remove_def AList.delete_eq)

lemma client_tcp_inv:
  assumes "client_inv r" and "cr_pc r = C_Tcp b"
  shows "client_inv (client_tcp_step b e r)"
proof -
  obtain b' active tbl where st: "bi_tcp_stream_client e (b, cr_cells r (last_active (bi_conn b)), cr_table r) =
      (b', active, tbl)" by (metis prod_cases3)
  with assms tcp_client.step_cases[OF st] show ?thesis
    by (auto simp: client_inv_def run_defs Let_def remove_singleton split: if_splits)
qed

lemma client_udp_inv:
  assumes "client_inv r" and "cr_pc r = C_Udp b"
  shows "client_inv (client_udp_step b e r)"
proof -
  obtain b' active q tbl where st:
    "bi_udp_client e (b, (cr_cells r (last_active (bi_conn b)), cr_queue r), cr_table r) =
      (b', (active, q), tbl)" by (metis prod_cases3 surj_pair)
  with assms udp_client.step_cases[OF st] show ?thesis
    by (auto simp: client_inv_def run_defs Let_def remove_singleton split: if_splits)
qed

lemma client_register_inv:
  "cr_table r = [] \<Longrightarrow> client_inv (client_register addr r)"
  by (auto simp: client_inv_def run_defs Let_def hm_insert_def split: tunnel_protocol.splits)

lemma client_step_inv:
  assumes "client_inv r"
  shows "client_inv (client_step e r)"
proof (cases e)
  case (Cev_Tcp s)
  with assms show ?thesis by (cases "cr_pc r") (auto simp: client_tcp_inv)
next
  case (Cev_Udp s)
  with assms show ?thesis by (cases "cr_pc r") (auto simp: client_udp_inv)
next
  case (Cev_Poll p)
  with assms show ?thesis
    by (cases "cr_pc r") (auto simp: client_inv_def client_select_pc)
next
  case (Cev_Sent res)
  with assms show ?thesis
    by (cases "cr_pc r") (auto simp: client_inv_def client_register_inv[unfolded client_inv_def] split: sum.splits)
next
  case (Cev_Start t)
  with assms show ?thesis
    by (cases "cr_pc r") (auto simp: client_inv_def start_conn split: outcome.splits)
next
  case (Cev_Bind res)
  with assms show ?thesis by (cases "cr_pc r") (auto simp: client_inv_def split: sum.splits)
next
  case (Cev_Open res)
  with assms show ?thesis by (cases "cr_pc r") (auto simp: client_inv_def split: sum.splits)
next
  case Cev_Top
  with assms show ?thesis by (cases "cr_pc r") (auto simp: client_inv_def)
next
  case (Cev_Arrive addr d)
  with assms show ?thesis by (cases "cr_pc r") (auto simp: client_inv_def)
qed

lemma client_reachable_inv: "client_inv (run_all client_step es (new_client_run addr proto))"
  by (rule run_all_invariant[of client_inv]) (simp_all add: client_step_inv client_inv_new)

lemma run_all_map_invariant_pc:
  assumes "\<And>e. e \<in> set es \<Longrightarrow> step e s = s"
  shows "run_all step es s = s"
  using assms by (induction es) auto

subsection \<open>Properties\<close>

text \<open>
  C13. In every run of the listener the table of local connections holds exactly the connection
  being forwarded, and is empty while the listener waits for an application: a client tunnel
  never has more than one local connection, and the test whether a datagram belongs to a known
  application never succeeds.
\<close>

theorem client_one_connection:
  "client_inv (run_all client_step es (new_client_run addr proto)) \<and>
   length (cr_table (run_all client_step es (new_client_run addr proto))) \<le> 1 \<and>
   (\<forall>en a. cr_pc (run_all client_step es (new_client_run addr proto)) = C_Select en \<longrightarrow>
      \<not> hm_contains (cr_table (run_all client_step es (new_client_run addr proto))) a)"
proof -
  let ?r = "run_all client_step es (new_client_run addr proto)"
  have inv: "client_inv ?r" by (rule client_reachable_inv)
  moreover have "cr_pc ?r = C_Select en \<Longrightarrow> \<not> hm_contains (cr_table ?r) a" for en a
    using inv by (simp add: client_inv_def hm_contains_def hm_get_def)
  ultimately show ?thesis using client_inv_len by blast
qed

theorem client_one_connection_witness:
  "length (cr_table (run_all client_step [Cev_Bind (Ok ()), Cev_Top,
     Cev_Poll \<lparr>lp_stop = None, lp_accept = Some (Ok (V4 1 5000)), lp_peek_err = False\<rparr>,
     Cev_Open (Ok ()), Cev_Sent (Ok ())] (new_client_run (V4 0 25565) Tcp))) \<le> 1"
  using client_one_connection[of "[Cev_Bind (Ok ()), Cev_Top,
     Cev_Poll \<lparr>lp_stop = None, lp_accept = Some (Ok (V4 1 5000)), lp_peek_err = False\<rparr>,
     Cev_Open (Ok ()), Cev_Sent (Ok ())]" "V4 0 25565" Tcp] by blast

text \<open>
  C14. A new application is served from the first message on: the listener opens a stream, sends
  the request with the application's address, registers the connection and starts to forward it
  with a fresh activity time; a UDP application's first datagram has only been peeked at and is
  still in the queue, for the forwarder to take.
\<close>

theorem client_serves_application:
  assumes "client_inv r" and "cr_pc r = C_Select True" and "lp_stop p = None"
    and "client_ready r p = Some (Ok addr)" and "now_secs t = Some now"
    and "run_all client_step [Cev_Poll p, Cev_Open (Ok ()), Cev_Sent (Ok ()), Cev_Start t] r = r'"
  shows "cr_requests r' = cr_requests r @ [ConnReq addr] \<and> map fst (cr_table r') = [addr] \<and>
    cr_queue r' = cr_queue r \<and>
    (case cr_protocol r of
       Tcp \<Rightarrow> \<exists>b. cr_pc r' = C_Tcp b \<and> client_local_addr (bi_conn b) = addr \<and> bi_down b = fwd_init \<and>
         bi_up b = fwd_init \<and> cr_cells r' (last_active (bi_conn b)) = now
     | Udp \<Rightarrow> \<exists>b. cr_pc r' = C_Udp b \<and> client_local_addr (bi_conn b) = addr \<and> bi_down b = fwd_init \<and>
         bi_up b = fwd_init \<and> cr_cells r' (last_active (bi_conn b)) = now)"
proof -
  have tbl: "cr_table r = []"
    using assms(1,2) by (simp add: client_inv_def)
  have sel: "client_select True r p = C_Open addr"
    using assms(3,4) tbl by (simp add: client_select_def hm_contains_def hm_get_def)
  show ?thesis
    using assms(2,5) tbl sel unfolding assms(6)[symmetric]
    by (cases "cr_protocol r") (simp_all add: run_defs Let_def bi_start_def hm_insert_def)
qed

definition demo_listening :: "tunnel_protocol \<Rightarrow> dgram_queue \<Rightarrow> client_run" where
  "demo_listening proto q =
     (new_client_run (V4 0 25565) proto)\<lparr>cr_queue := q, cr_pc := C_Select True\<rparr>"

definition quiet_poll :: listen_poll where
  "quiet_poll = \<lparr>lp_stop = None, lp_accept = None, lp_peek_err = False\<rparr>"

lemma demo_listening_inv: "client_inv (demo_listening proto q)"
  by (simp add: demo_listening_def client_inv_def new_client_run_def hm_empty_def)

theorem client_serves_application_witness:
  "cr_queue (run_all client_step [Cev_Poll quiet_poll, Cev_Open (Ok ()), Cev_Sent (Ok ()), Cev_Start 0]
     (demo_listening Udp [(V4 1 5000, [1])])) = [(V4 1 5000, [1])]"
proof -
  let ?r = "demo_listening Udp [(V4 1 5000, [1])]"
  have ready: "client_ready ?r quiet_poll = Some (Ok (V4 1 5000))"
    by (simp add: client_ready_def demo_listening_def new_client_run_def quiet_poll_def peek_from_def)
  have pc: "cr_pc ?r = C_Select True" and quiet: "lp_stop quiet_poll = None" and now: "now_secs 0 = Some 0"
    by (simp_all add: demo_listening_def quiet_poll_def now_secs_def)
  note served = client_serves_application[OF demo_listening_inv pc quiet ready now refl]
  have "cr_queue ?r = [(V4 1 5000, [1])]" by (simp add: demo_listening_def)
  with conjunct1[OF conjunct2[OF conjunct2[OF served]]] show ?thesis by (simp only:)
qed

text \<open>
  C36. When accepting or peeking fails once, the listener is deaf until it is stopped: the failed
  branch stays disabled while \<open>select!\<close> waits for the stop signal alone, so no later application
  is noticed.
\<close>

theorem client_accept_error_deafens:
  assumes "cr_pc r = C_Select True" and "lp_stop p = None" and "client_ready r p = Some (Err e)"
    and "\<forall>ev \<in> set es. \<exists>q. ev = Cev_Poll q \<and> lp_stop q = None"
  shows "run_all client_step (Cev_Poll p # es) r = r\<lparr>cr_pc := C_Select False\<rparr>"
proof -
  have deaf: "client_step (Cev_Poll q) (r\<lparr>cr_pc := C_Select False\<rparr>) = r\<lparr>cr_pc := C_Select False\<rparr>"
    if "lp_stop q = None" for q
    using that by (simp add: client_select_def)
  have "run_all client_step es (r\<lparr>cr_pc := C_Select False\<rparr>) = r\<lparr>cr_pc := C_Select False\<rparr>"
  proof (rule run_all_map_invariant_pc)
    fix ev assume "ev \<in> set es"
    then obtain q where "ev = Cev_Poll q" "lp_stop q = None" using assms(4) by auto
    then show "client_step ev (r\<lparr>cr_pc := C_Select False\<rparr>) = r\<lparr>cr_pc := C_Select False\<rparr>"
      by (simp only: deaf)
  qed
  then show ?thesis
    using assms(1-3) by (simp add: client_select_def)
qed

theorem client_accept_error_deafens_witness:
  "cr_pc (run_all client_step
     [Cev_Poll \<lparr>lp_stop = None, lp_accept = Some (Err ''too many open files''), lp_peek_err = False\<rparr>,
      Cev_Poll \<lparr>lp_stop = None, lp_accept = Some (Ok (V4 1 5000)), lp_peek_err = False\<rparr>]
     (demo_listening Tcp [])) = C_Select False"
  using client_accept_error_deafens[of "demo_listening Tcp []"
      "\<lparr>lp_stop = None, lp_accept = Some (Err ''too many open files''), lp_peek_err = False\<rparr>"
      "''too many open files''"
      "[Cev_Poll \<lparr>lp_stop = None, lp_accept = Some (Ok (V4 1 5000)), lp_peek_err = False\<rparr>]"]
  by (simp add: demo_listening_def new_client_run_def client_ready_def)

subsection \<open>Sessions inside the listener\<close>

definition put_tcp :: "client_run \<Rightarrow> cell \<Rightarrow> stream_bi \<times> u64 \<times> conn_table \<Rightarrow> client_run" where
  "put_tcp r c x =
     r\<lparr>cr_cells := (cr_cells r)(c := fst (snd x)), cr_table := snd (snd x), cr_pc := C_Tcp (fst x)\<rparr>"

definition put_udp :: "client_run \<Rightarrow> cell \<Rightarrow> udp_bi \<times> (u64 \<times> dgram_queue) \<times> conn_table \<Rightarrow> client_run" where
  "put_udp r c x =
     r\<lparr>cr_cells := (cr_cells r)(c := fst (fst (snd x))), cr_queue := snd (fst (snd x)),
       cr_table := snd (snd x), cr_pc := C_Udp (fst x)\<rparr>"

definition open_on :: "cell \<Rightarrow> ('o, 'p) bi \<times> 's \<times> conn_table \<Rightarrow> bool" where
  "open_on c x \<longleftrightarrow> \<not> bi_returned (fst x) \<and> last_active (bi_conn (fst x)) = c"

lemma put_tcp_self:
  "cr_pc r = C_Tcp b \<Longrightarrow> put_tcp r c (b, cr_cells r c, cr_table r) = r"
  by (cases r) (simp add: put_tcp_def)

lemma put_udp_self:
  "cr_pc r = C_Udp b \<Longrightarrow> put_udp r c (b, (cr_cells r c, cr_queue r), cr_table r) = r"
  by (cases r) (simp add: put_udp_def)

lemma client_tcp_step_put:
  "client_step (Cev_Tcp e) (put_tcp r c x) =
     (let x' = bi_tcp_stream_client e x in
      if bi_returned (fst x') then (put_tcp r c x')\<lparr>cr_pc := C_Top\<rparr> else put_tcp r c x')"
  if "last_active (bi_conn (fst x)) = c"
  using that by (cases x; cases r)
    (auto simp: put_tcp_def run_defs Let_def fun_eq_iff split: prod.splits)

lemma client_udp_step_put:
  "client_step (Cev_Udp e) (put_udp r c x) =
     (let x' = bi_udp_client e x in
      if bi_returned (fst x') then (put_udp r c x')\<lparr>cr_pc := C_Top\<rparr> else put_udp r c x')"
  if "last_active (bi_conn (fst x)) = c"
  using that by (cases x; cases r)
    (auto simp: put_udp_def run_defs Let_def fun_eq_iff split: prod.splits)

lemma client_tcp_runs:
  assumes "cr_pc r = C_Tcp b" and "\<not> bi_returned b" and "Join \<notin> set es"
    and "(b, cr_cells r (last_active (bi_conn b)), cr_table r) = x"
  shows "run_all client_step (map Cev_Tcp es) r = put_tcp r (last_active (bi_conn b)) (run_all bi_tcp_stream_client es x) \<and>
    open_on (last_active (bi_conn b)) (run_all bi_tcp_stream_client es x)"
proof -
  let ?c = "last_active (bi_conn b)"
  have "run_all client_step (map Cev_Tcp es) (put_tcp r ?c x) = put_tcp r ?c (run_all bi_tcp_stream_client es x) \<and>
      open_on ?c (run_all bi_tcp_stream_client es x)"
  proof (rule run_all_embed)
    fix e and x :: "stream_bi \<times> u64 \<times> conn_table" assume "e \<in> set es" "open_on ?c x"
    moreover have "e \<noteq> Join" using assms(3) \<open>e \<in> set es\<close> by auto
    ultimately have "open_on ?c (bi_tcp_stream_client e x)"
      using tcp_client.step_open[of e x, OF refl] by (simp add: open_on_def)
    with \<open>open_on ?c x\<close> show "client_step (Cev_Tcp e) (put_tcp r ?c x) = put_tcp r ?c (bi_tcp_stream_client e x) \<and>
        open_on ?c (bi_tcp_stream_client e x)"
      unfolding open_on_def by (subst client_tcp_step_put) (simp_all add: Let_def)
  qed (use assms(2,4) in \<open>auto simp: open_on_def\<close>)
  then show ?thesis using assms(4) by (auto simp: put_tcp_self[OF assms(1)])
qed

lemma client_tcp_returns:
  assumes "cr_pc r = C_Tcp b" and "\<not> bi_returned b" and "Join \<notin> set es"
    and "run_all bi_tcp_stream_client (es @ [Join])
      (b, cr_cells r (last_active (bi_conn b)), cr_table r) = x"
    and "bi_returned (fst x)"
  shows "run_all client_step (map Cev_Tcp (es @ [Join])) r =
    (put_tcp r (last_active (bi_conn b)) x)\<lparr>cr_pc := C_Top\<rparr>"
  using client_tcp_runs[OF assms(1-3) refl] assms(4,5)
  by (simp add: client_tcp_step_put open_on_def del: client_step.simps)

lemma client_udp_runs:
  assumes "cr_pc r = C_Udp b" and "\<not> bi_returned b" and "Join \<notin> set es"
    and "(b, (cr_cells r (last_active (bi_conn b)), cr_queue r), cr_table r) = x"
  shows "run_all client_step (map Cev_Udp es) r = put_udp r (last_active (bi_conn b)) (run_all bi_udp_client es x) \<and>
    open_on (last_active (bi_conn b)) (run_all bi_udp_client es x)"
proof -
  let ?c = "last_active (bi_conn b)"
  have "run_all client_step (map Cev_Udp es) (put_udp r ?c x) = put_udp r ?c (run_all bi_udp_client es x) \<and>
      open_on ?c (run_all bi_udp_client es x)"
  proof (rule run_all_embed)
    fix e and x :: "udp_bi \<times> (u64 \<times> dgram_queue) \<times> conn_table" assume "e \<in> set es" "open_on ?c x"
    moreover have "e \<noteq> Join" using assms(3) \<open>e \<in> set es\<close> by auto
    ultimately have "open_on ?c (bi_udp_client e x)"
      using udp_client.step_open[of e x, OF refl] by (simp add: open_on_def)
    with \<open>open_on ?c x\<close> show "client_step (Cev_Udp e) (put_udp r ?c x) = put_udp r ?c (bi_udp_client e x) \<and>
        open_on ?c (bi_udp_client e x)"
      unfolding open_on_def by (subst client_udp_step_put) (simp_all add: Let_def)
  qed (use assms(2,4) in \<open>auto simp: open_on_def\<close>)
  then show ?thesis using assms(4) by (auto simp: put_udp_self[OF assms(1)])
qed

lemma client_udp_returns:
  assumes "cr_pc r = C_Udp b" and "\<not> bi_returned b" and "Join \<notin> set es"
    and "run_all bi_udp_client (es @ [Join])
      (b, (cr_cells r (last_active (bi_conn b)), cr_queue r), cr_table r) = x"
    and "bi_returned (fst x)"
  shows "run_all client_step (map Cev_Udp (es @ [Join])) r =
    (put_udp r (last_active (bi_conn b)) x)\<lparr>cr_pc := C_Top\<rparr>"
  using client_udp_runs[OF assms(1-3) refl] assms(4,5)
  by (simp add: client_udp_step_put open_on_def del: client_step.simps)

text \<open>The events that stop a session of the listener and then the listener itself.\<close>

lemma tcp_client_stop_run:
  assumes "now_secs t \<noteq> None" and "stop_changed pd = Some True" and "stop_changed pu = Some True"
    and "\<not> bi_returned b"
  shows "run_all bi_tcp_stream_client (stream_stop_events t pd pu) (b, a, tbl) =
    (b\<lparr>bi_down := flushed stream_writer By_Stop (bi_down b),
       bi_up := flushed stream_writer By_Stop (bi_up b), bi_returned := True\<rparr>,
     a, hm_remove (client_local_addr (bi_conn b)) tbl)"
  unfolding stream_stop_events_def bi_tcp_stream_client_def fwd_defs
    bi_stream_ends[OF refl refl assms(4) run_all_fwd_stop[OF assms(1,2)] run_all_fwd_stop[OF assms(1,3)]]
  by (simp add: client_disc.removes)

definition tcp_listener_stop_events ::
    "time \<Rightarrow> bytes option poll \<Rightarrow> bytes poll \<Rightarrow> listen_poll \<Rightarrow> client_event list" where
  "tcp_listener_stop_events t pd pu lp =
     map Cev_Tcp (stream_stop_events t pd pu) @ [Cev_Top, Cev_Poll lp]"

definition udp_listener_stop_events ::
    "time \<Rightarrow> bytes option poll \<Rightarrow> udp_poll \<Rightarrow> listen_poll \<Rightarrow> client_event list" where
  "udp_listener_stop_events t pd pu lp =
     map Cev_Udp (udp_stop_events t pd pu) @ [Cev_Top, Cev_Poll lp]"

lemma listener_stops_at_top:
  "cr_pc r = C_Top \<Longrightarrow> lp_stop lp = Some True \<Longrightarrow>
   run_all client_step [Cev_Top, Cev_Poll lp] r = r\<lparr>cr_pc := C_Done (Ok ())\<rparr>"
  by (simp add: client_select_def)

lemma put_table: "cr_table (put_tcp r c x) = snd (snd x)" "cr_table (put_udp r c y) = snd (snd y)"
  by (simp_all add: put_tcp_def put_udp_def)

text \<open>
  C15. Stopping a connected client ends its listener task from the middle of any session: once the
  loops of the session are polled they flush what they hold, the forwarding function returns and
  takes its entry out of the table, and the listener, back at the top of its loop, sees the same
  signal and returns \<open>Ok(())\<close> with an empty table, for either protocol.
\<close>

theorem client_stop_ends_listener:
  assumes "client_inv r" and "now_secs t \<noteq> None"
    and "stop_changed pd = Some True" and "stop_changed pu = Some True" and "up_stop pq = Some True"
    and "lp_stop lp = Some True"
    and "cr_pc r = C_Tcp b \<and> r' = run_all client_step (tcp_listener_stop_events t pd pu lp) r \<or>
      cr_pc r = C_Udp c \<and> r' = run_all client_step (udp_listener_stop_events t pd pq lp) r"
  shows "cr_pc r' = C_Done (Ok ()) \<and> cr_table r' = [] \<and> cr_requests r' = cr_requests r"
  using assms(7)
proof (elim disjE conjE)
  assume pc: "cr_pc r = C_Tcp b" and r': "r' = run_all client_step (tcp_listener_stop_events t pd pu lp) r"
  from assms(1) pc have open_: "\<not> bi_returned b"
    and tbl: "hm_remove (client_local_addr (bi_conn b)) (cr_table r) = []"
    by (auto simp: client_inv_def hm_remove_def)
  note ends = tcp_client_stop_run[OF assms(2-4) open_]
  have "stream_stop_events t pd pu = butlast (stream_stop_events t pd pu) @ [Join]"
    and "Join \<notin> set (butlast (stream_stop_events t pd pu))"
    by (simp_all add: stream_stop_events_def)
  note stopped = client_tcp_returns[OF pc open_ this(2), folded this(1), OF ends]
  then show ?thesis
    unfolding r' tcp_listener_stop_events_def run_all_append
    by (simp add: listener_stops_at_top[OF _ assms(6)] stopped tbl put_tcp_def
        del: run_all.simps)
next
  assume pc: "cr_pc r = C_Udp c" and r': "r' = run_all client_step (udp_listener_stop_events t pd pq lp) r"
  from assms(1) pc have open_: "\<not> bi_returned c"
    and tbl: "hm_remove (client_local_addr (bi_conn c)) (cr_table r) = []"
    by (auto simp: client_inv_def hm_remove_def)
  note ends = udp_client_stop_run[OF assms(2,3,5) open_]
  have "udp_stop_events t pd pq = butlast (udp_stop_events t pd pq) @ [Join]"
    and "Join \<notin> set (butlast (udp_stop_events t pd pq))"
    by (simp_all add: udp_stop_events_def)
  note stopped = client_udp_returns[OF pc open_ this(2), folded this(1), OF ends]
  then show ?thesis
    unfolding r' udp_listener_stop_events_def run_all_append
    by (simp add: listener_stops_at_top[OF _ assms(6)] stopped tbl put_udp_def
        del: run_all.simps)
qed

definition demo_forwarding :: client_run where
  "demo_forwarding =
     (demo_listening Tcp [])\<lparr>cr_table := [(client_local_addr demo_conn, demo_conn)], cr_pc := C_Tcp demo_session\<rparr>"

theorem client_stop_ends_listener_witness:
  "cr_pc (run_all client_step (tcp_listener_stop_events 0 stop_poll stop_poll
     \<lparr>lp_stop = Some True, lp_accept = None, lp_peek_err = False\<rparr>) demo_forwarding) = C_Done (Ok ())"
proof -
  let ?lp = "\<lparr>lp_stop = Some True, lp_accept = None, lp_peek_err = False\<rparr>"
  let ?pq = "\<lparr>up_stop = Some True, up_peek_err = False, up_slept = False, up_recv_ok = True\<rparr>"
  have inv: "client_inv demo_forwarding" and pc: "cr_pc demo_forwarding = C_Tcp demo_session"
    by (simp_all add: client_inv_def demo_forwarding_def demo_session_def demo_listening_def new_client_run_def)
  have now: "now_secs 0 \<noteq> None" and polls: "stop_changed stop_poll = Some True"
    "stop_changed stop_poll = Some True" "up_stop ?pq = Some True" "lp_stop ?lp = Some True"
    by (simp_all add: now_secs_def stop_poll_def)
  show ?thesis
    by (rule conjunct1[OF client_stop_ends_listener[OF inv now polls disjI1[OF conjI[OF pc refl]]]])
qed

end
