(* ===== verification/Host.thy ===== *)
theory Host
  imports Bi_Forward Packet Tunnel_Common
begin

section \<open>The host side\<close>

text \<open>
  \<open>lantun-core/src/host.rs\<close>: \<open>HostState\<close> with its table of tunnels, \<open>HostTunnel\<close> with \<open>start\<close>,
  \<open>stop\<close> and the counters, and the task that \<open>start\<close> spawns: the accept loop, which awaits
  \<open>handle_connection\<close> of one client inside its own body, which in turn awaits the forwarding of
  one local connection inside its own. The task is therefore one program counter. Its state is a
  \<open>host_run\<close>, and the world holds one for every task ever spawned. \<open>Arc\<close>s that are cloned are
  references: \<open>tables\<close> holds the tables of local connections, which a \<open>ConnectedClient\<close> and its
  clones share, and \<open>cells\<close> the atomics of the connections. An event is the completion of the call
  the task awaits.
\<close>

subsection \<open>Errors\<close>

datatype host_error =
    Host_TunnelAlreadyExists socket_addr
  | Host_FailedToCreateEndpoint string
  | Host_FailedToAcceptConnection string
  | Host_FailedToCreateStream string
  | Host_IoError io_error
  | Host_WriteError string
  | Host_ReadError string
  | Host_ConnectionError string
  | Host_TunnelNotRunning
  | Host_ReceivePacketError receive_packet_error
  | Host_UnexpectedControlMessage client2host_control_msg
  | Host_TunnelAlreadyOpen

fun host_error_fmt :: "host_error \<Rightarrow> string" where
  "host_error_fmt (Host_TunnelAlreadyExists a) = ''Tunnel with local addr '' @ show_addr a @ '' already exists''"
| "host_error_fmt (Host_FailedToCreateEndpoint e) = ''Failed to create endpoint: '' @ e"
| "host_error_fmt (Host_FailedToAcceptConnection e) = ''Failed to accept connection: '' @ e"
| "host_error_fmt (Host_FailedToCreateStream e) = ''Failed to create stream: '' @ e"
| "host_error_fmt (Host_IoError e) = ''IO error: '' @ io_error_message e"
| "host_error_fmt (Host_WriteError e) = ''Write error: '' @ e"
| "host_error_fmt (Host_ReadError e) = ''Read error: '' @ e"
| "host_error_fmt (Host_ConnectionError e) = ''Connection error: '' @ e"
| "host_error_fmt Host_TunnelNotRunning = ''Tunnel is not running''"
| "host_error_fmt (Host_ReceivePacketError e) = ''Receive packet error: '' @ receive_packet_error_fmt e"
| "host_error_fmt (Host_UnexpectedControlMessage m) =
     ''Unexpected control message: ConnReq { local_addr: '' @ show_addr (conn_req_addr m) @ '' }''"
| "host_error_fmt Host_TunnelAlreadyOpen = ''Tunnel is already open''"

subsection \<open>The task of a tunnel\<close>

type_synonym public_key = bytes
type_synonym table_ref = nat

record connection =
  remote_node_id :: "public_key option"

record connected_client =
  local_connections :: table_ref
  client_connection :: connection

datatype host_pc =
    H_Accept
  | H_Connecting
  | H_Accept_Bi connection
  | H_Receive connection
  | H_Connect connection local_client_connection connected_client
  | H_Forward connection connected_client stream_bi
  | H_Panicked

record host_run =
  hr_local_addr :: socket_addr
  hr_protocol :: tunnel_protocol
  tunnel_clients :: "(public_key, connected_client) hashmap"
  tables :: "table_ref \<Rightarrow> conn_table"
  next_table :: table_ref
  cells :: "cell \<Rightarrow> u64"
  next_cell :: cell
  hr_pc :: host_pc
  hr_log :: "host_error list"
  stop_value :: bool
  endpoint_closed :: bool

text \<open>
  The system calls of a session with their results: which socket is created, bound and
  connected, to what.
\<close>

datatype sock_call =
    Tcp_New bool
  | Tcp_Bind bool socket_addr
  | Tcp_Connect bool socket_addr
  | Udp_Bind socket_addr
  | Udp_Connect socket_addr socket_addr

record sock_env =
  sys :: "sock_call \<Rightarrow> (io_error, unit) result"
  peer_addr_ok :: bool

datatype host_event =
    Ev_Accept bool
  | Ev_Connected "(string, connection) result"
  | Ev_Accept_Bi "(string, unit) result"
  | Ev_Packet "(receive_packet_error, client2host_control_msg) result"
  | Ev_Sockets sock_env time
  | Ev_Session stream_event

definition host_fail :: "host_error \<Rightarrow> host_run \<Rightarrow> host_run" where
  "host_fail e r = r\<lparr>hr_pc := H_Accept, hr_log := hr_log r @ [e]\<rparr>"

text \<open>A connection that was established: refused when its key is known, else registered.\<close>

definition host_connected :: "connection \<Rightarrow> host_run \<Rightarrow> host_run" where
  "host_connected conn r =
     (case remote_node_id conn of
        None \<Rightarrow> r\<lparr>hr_pc := H_Panicked\<rparr>
      | Some key \<Rightarrow>
          if hm_contains (tunnel_clients r) key then r\<lparr>hr_pc := H_Accept\<rparr>
          else r\<lparr>tunnel_clients :=
                   hm_insert key \<lparr>local_connections = next_table r, client_connection = conn\<rparr>
                     (tunnel_clients r),
                 tables := (tables r)(next_table r := hm_empty),
                 next_table := Suc (next_table r),
                 hr_pc := H_Accept_Bi conn\<rparr>)"

text \<open>A connection request of a client: the local connection is created and registered.\<close>

definition host_register :: "connection \<Rightarrow> client2host_control_msg \<Rightarrow> host_run \<Rightarrow> host_run" where
  "host_register conn msg r =
     (let local_addr = conn_req_addr msg;
          virtual_addr = get_unspecified (is_ipv4 local_addr);
          lcc = \<lparr>client_local_addr = local_addr, client_virtual_addr = virtual_addr,
                 last_active = next_cell r\<rparr>;
          r1 = r\<lparr>cells := (cells r)(next_cell r := 0), next_cell := Suc (next_cell r)\<rparr>
      in case remote_node_id conn of
           None \<Rightarrow> r1\<lparr>hr_pc := H_Panicked\<rparr>
         | Some key \<Rightarrow>
             (case hm_get (tunnel_clients r1) key of
                None \<Rightarrow> r1\<lparr>hr_pc := H_Panicked\<rparr>
              | Some client \<Rightarrow>
                  r1\<lparr>tables := (tables r1)(local_connections client :=
                       hm_insert virtual_addr lcc (tables r1 (local_connections client))),
                     hr_pc := H_Connect conn lcc client\<rparr>))"

text \<open>The socket to the tunneled service; each \<open>?\<close> returns the error.\<close>

definition host_connect_service ::
    "tunnel_protocol \<Rightarrow> socket_addr \<Rightarrow> socket_addr \<Rightarrow> (sock_call \<Rightarrow> (io_error, unit) result) \<Rightarrow>
     (host_error, unit) result" where
  "host_connect_service proto tunnel_addr virtual_addr call =
     (case proto of
        Tcp \<Rightarrow>
          (let v4 = is_ipv4 tunnel_addr in
           case call (Tcp_New v4) of
             Inl e \<Rightarrow> Err (Host_IoError e)
           | Inr u \<Rightarrow>
               (case call (Tcp_Bind v4 virtual_addr) of
                  Inl e \<Rightarrow> Err (Host_IoError e)
                | Inr u \<Rightarrow>
                    (case call (Tcp_Connect v4 tunnel_addr) of
                       Inl e \<Rightarrow> Err (Host_IoError e)
                     | Inr u \<Rightarrow> Ok ())))
      | Udp \<Rightarrow>
          (case call (Udp_Bind virtual_addr) of
             Inl e \<Rightarrow> Err (Host_IoError e)
           | Inr u \<Rightarrow>
               (case call (Udp_Connect virtual_addr tunnel_addr) of
                  Inl e \<Rightarrow> Err (Host_IoError e)
                | Inr u \<Rightarrow> Ok ())))"

definition host_open_session ::
    "connection \<Rightarrow> local_client_connection \<Rightarrow> connected_client \<Rightarrow> sock_env \<Rightarrow> time \<Rightarrow> host_run \<Rightarrow> host_run" where
  "host_open_session conn lcc client env t r =
     (case host_connect_service (hr_protocol r) (hr_local_addr r) (client_virtual_addr lcc) (sys env) of
        Inl e \<Rightarrow> host_fail e r
      | Inr u \<Rightarrow>
          (case (case hr_protocol r of
                   Tcp \<Rightarrow> bi_start lcc t
                 | Udp \<Rightarrow> bi_udp_host_start (peer_addr_ok env) lcc t) of
             Panic \<Rightarrow> r\<lparr>hr_pc := H_Panicked\<rparr>
           | Returned (b, now) \<Rightarrow>
               r\<lparr>cells := (cells r)(last_active lcc := now), hr_pc := H_Forward conn client b\<rparr>))"

text \<open>A step of the session; when it returns \<open>Ok\<close>, the next stream of the connection is awaited.\<close>

definition host_session_step ::
    "connection \<Rightarrow> connected_client \<Rightarrow> stream_bi \<Rightarrow> stream_event \<Rightarrow> host_run \<Rightarrow> host_run" where
  "host_session_step conn client b e r =
     (let cell = last_active (bi_conn b); ref = local_connections client;
          (b', active, tbl) =
            (case hr_protocol r of Tcp \<Rightarrow> bi_tcp_stream_host | Udp \<Rightarrow> bi_udp_host)
              e (b, cells r cell, tables r ref)
      in r\<lparr>cells := (cells r)(cell := active), tables := (tables r)(ref := tbl),
           hr_pc := (if bi_returned b' then H_Accept_Bi conn else H_Forward conn client b')\<rparr>)"

text \<open>
  The accept loop and \<open>handle_connection\<close>. An error of \<open>handle_connection\<close> is logged by the loop,
  which goes on to the next connection. An event that the task does not await is ignored.
\<close>

fun host_step :: "host_event \<Rightarrow> host_run \<Rightarrow> host_run" where
  "host_step (Ev_Accept some) r =
     (case hr_pc r of
        H_Accept \<Rightarrow> if some then r\<lparr>hr_pc := H_Connecting\<rparr> else r\<lparr>hr_pc := H_Accept\<rparr>
      | _ \<Rightarrow> r)"
| "host_step (Ev_Connected res) r =
     (case hr_pc r of
        H_Connecting \<Rightarrow>
          (case res of Inl e \<Rightarrow> r\<lparr>hr_pc := H_Accept\<rparr> | Inr conn \<Rightarrow> host_connected conn r)
      | _ \<Rightarrow> r)"
| "host_step (Ev_Accept_Bi res) r =
     (case hr_pc r of
        H_Accept_Bi conn \<Rightarrow>
          (case res of
             Inl e \<Rightarrow> host_fail (Host_ConnectionError e) r
           | Inr u \<Rightarrow> r\<lparr>hr_pc := H_Receive conn\<rparr>)
      | _ \<Rightarrow> r)"
| "host_step (Ev_Packet res) r =
     (case hr_pc r of
        H_Receive conn \<Rightarrow>
          (case res of
             Inl e \<Rightarrow> host_fail (Host_ReceivePacketError e) r
           | Inr msg \<Rightarrow> host_register conn msg r)
      | _ \<Rightarrow> r)"
| "host_step (Ev_Sockets env t) r =
     (case hr_pc r of
        H_Connect conn lcc client \<Rightarrow> host_open_session conn lcc client env t r
      | _ \<Rightarrow> r)"
| "host_step (Ev_Session e) r =
     (case hr_pc r of
        H_Forward conn client b \<Rightarrow> host_session_step conn client b e r
      | _ \<Rightarrow> r)"

declare
  host_fail_def [run_defs]
  host_connected_def [run_defs]
  host_register_def [run_defs]
  host_open_session_def [run_defs]
  host_session_step_def [run_defs]

end
