(* ===== verification/Host_Invariant.thy ===== *)
theory Host_Invariant
  imports Host
begin

section \<open>Invariant of the host task\<close>

text \<open>
  The state of a freshly started task and the invariant that every step of the task keeps: the
  maps are well formed, a connected client is filed under the key of its connection and owns its
  table of local connections, every local connection is filed under its virtual address, which is
  one of the two unspecified addresses, and the client and the local connection that the program
  counter works on are registered.
\<close>

definition new_host_run :: "socket_addr \<Rightarrow> tunnel_protocol \<Rightarrow> host_run" where
  "new_host_run addr proto =
     \<lparr>hr_local_addr = addr, hr_protocol = proto, tunnel_clients = hm_empty,
      tables = (\<lambda>_. hm_empty), next_table = 0, cells = (\<lambda>_. 0), next_cell = 0,
      hr_pc = H_Accept, hr_log = [], stop_value = False, endpoint_closed = False\<rparr>"

definition client_known :: "host_run \<Rightarrow> connection \<Rightarrow> connected_client \<Rightarrow> bool" where
  "client_known r conn client \<longleftrightarrow>
     (\<exists>key. remote_node_id conn = Some key \<and> hm_get (tunnel_clients r) key = Some client)"

definition conn_filed :: "host_run \<Rightarrow> connected_client \<Rightarrow> local_client_connection \<Rightarrow> bool" where
  "conn_filed r client lcc \<longleftrightarrow>
     hm_get (tables r (local_connections client)) (client_virtual_addr lcc) = Some lcc"

fun pc_ok :: "host_run \<Rightarrow> host_pc \<Rightarrow> bool" where
  "pc_ok r (H_Accept_Bi conn) \<longleftrightarrow> (\<exists>client. client_known r conn client)"
| "pc_ok r (H_Receive conn) \<longleftrightarrow> (\<exists>client. client_known r conn client)"
| "pc_ok r (H_Connect conn lcc client) \<longleftrightarrow> client_known r conn client \<and> conn_filed r client lcc"
| "pc_ok r (H_Forward conn client b) \<longleftrightarrow>
     client_known r conn client \<and> conn_filed r client (bi_conn b) \<and> \<not> bi_returned b"
| "pc_ok r _ \<longleftrightarrow> True"

definition tables_ok :: "(table_ref \<Rightarrow> conn_table) \<Rightarrow> bool" where
  "tables_ok tbls \<longleftrightarrow>
     (\<forall>ref. hm_wf (tbls ref)) \<and>
     (\<forall>ref k c. hm_get (tbls ref) k = Some c \<longrightarrow>
        k = client_virtual_addr c \<and> (\<exists>v4. k = get_unspecified v4))"

definition clients_ok :: "host_run \<Rightarrow> bool" where
  "clients_ok r \<longleftrightarrow>
     hm_wf (tunnel_clients r) \<and>
     (\<forall>k c. hm_get (tunnel_clients r) k = Some c \<longrightarrow>
        remote_node_id (client_connection c) = Some k \<and> local_connections c < next_table r) \<and>
     (\<forall>k k' c c'. hm_get (tunnel_clients r) k = Some c \<and> hm_get (tunnel_clients r) k' = Some c' \<and>
        local_connections c = local_connections c' \<longrightarrow> k = k')"

definition host_inv :: "host_run \<Rightarrow> bool" where
  "host_inv r \<longleftrightarrow> tables_ok (tables r) \<and> clients_ok r \<and> pc_ok r (hr_pc r)"

subsection \<open>Every step keeps it\<close>

lemma host_inv_new: "host_inv (new_host_run addr proto)"
  by (simp add: host_inv_def new_host_run_def tables_ok_def clients_ok_def hm_simps)

text \<open>A change of the program counter, the log or the atomics keeps the parts about the maps.\<close>

lemma maps_ok_frame [simp]:
  "clients_ok (r\<lparr>hr_pc := pc\<rparr>) = clients_ok r"
  "clients_ok (r\<lparr>hr_log := l\<rparr>) = clients_ok r"
  "clients_ok (r\<lparr>tables := tbls\<rparr>) = clients_ok r"
  "clients_ok (r\<lparr>cells := c\<rparr>) = clients_ok r"
  "clients_ok (r\<lparr>next_cell := n\<rparr>) = clients_ok r"
  by (simp_all add: clients_ok_def)

lemma known_frame [simp]:
  "client_known (r\<lparr>hr_pc := pc\<rparr>) = client_known r"
  "client_known (r\<lparr>tables := tbls\<rparr>) = client_known r"
  "client_known (r\<lparr>next_table := m\<rparr>) = client_known r"
  "client_known (r\<lparr>cells := c\<rparr>) = client_known r"
  "client_known (r\<lparr>next_cell := n\<rparr>) = client_known r"
  by (simp_all add: client_known_def fun_eq_iff)

lemma filed_frame [simp]:
  "conn_filed (r\<lparr>hr_pc := pc\<rparr>) = conn_filed r"
  "conn_filed (r\<lparr>cells := c\<rparr>) = conn_filed r"
  "conn_filed (r\<lparr>next_cell := n\<rparr>) = conn_filed r"
  by (simp_all add: conn_filed_def fun_eq_iff)

lemma tables_ok_insert:
  assumes "tables_ok tbls" and "client_virtual_addr lcc = get_unspecified v4"
  shows "tables_ok (tbls(ref := hm_insert (client_virtual_addr lcc) lcc (tbls ref)))"
  using assms by (auto simp: tables_ok_def hm_simps split: if_splits)

lemma tables_ok_remove: "tables_ok tbls \<Longrightarrow> tables_ok (tbls(ref := hm_remove k (tbls ref)))"
  by (auto simp: tables_ok_def hm_simps split: if_splits)

lemma tables_ok_empty: "tables_ok tbls \<Longrightarrow> tables_ok (tbls(ref := hm_empty))"
  by (auto simp: tables_ok_def hm_simps split: if_splits)

lemma host_fail_inv: "host_inv r \<Longrightarrow> host_inv (host_fail e r)"
  by (simp add: host_inv_def host_fail_def)

lemma host_connected_inv:
  assumes "host_inv r"
  shows "host_inv (host_connected conn r)"
proof (cases "remote_node_id conn")
  case None
  with assms show ?thesis by (simp add: host_inv_def host_connected_def)
next
  case (Some key)
  show ?thesis
  proof (cases "hm_contains (tunnel_clients r) key")
    case True
    with assms Some show ?thesis by (simp add: host_inv_def host_connected_def)
  next
    case False
    then have fresh: "hm_get (tunnel_clients r) key = None"
      by (simp add: hm_contains_def)
    let ?r = "host_connected conn r"
    have "tables_ok (tables ?r)"
      using assms Some False by (simp add: host_connected_def host_inv_def tables_ok_empty)
    moreover have "clients_ok ?r"
      using assms Some False fresh
      by (fastforce simp: host_connected_def host_inv_def clients_ok_def hm_simps less_Suc_eq
          split: if_splits)
    moreover have "pc_ok ?r (hr_pc ?r)"
      using Some False
      by (auto simp: host_connected_def client_known_def hm_simps
          intro!: exI[of _ "\<lparr>local_connections = next_table r, client_connection = conn\<rparr>"])
    ultimately show ?thesis by (simp add: host_inv_def)
  qed
qed

lemma host_register_inv:
  assumes "host_inv r"
  shows "host_inv (host_register conn msg r)"
proof (cases "remote_node_id conn")
  case None
  with assms show ?thesis by (simp add: host_inv_def host_register_def Let_def)
next
  case (Some key)
  show ?thesis
  proof (cases "hm_get (tunnel_clients r) key")
    case None
    with assms Some show ?thesis by (simp add: host_inv_def host_register_def Let_def)
  next
    case (Some client)
    let ?lcc = "\<lparr>client_local_addr = conn_req_addr msg,
      client_virtual_addr = get_unspecified (is_ipv4 (conn_req_addr msg)), last_active = next_cell r\<rparr>"
    have "tables_ok (tables (host_register conn msg r))"
      using assms Some \<open>remote_node_id conn = Some key\<close> tables_ok_insert[of "tables r" ?lcc]
      by (simp add: host_inv_def host_register_def Let_def)
    with assms Some \<open>remote_node_id conn = Some key\<close> show ?thesis
      by (simp add: host_inv_def host_register_def Let_def client_known_def conn_filed_def hm_simps)
  qed
qed

lemma bi_start_conn: "bi_start lcc t = Returned (b, now) \<Longrightarrow> bi_conn b = lcc \<and> \<not> bi_returned b"
  by (auto simp: bi_start_def split: option.splits)

lemma bi_udp_start_conn:
  "bi_udp_host_start ok lcc t = Returned (b, now) \<Longrightarrow> bi_conn b = lcc \<and> \<not> bi_returned b"
  by (auto simp: bi_udp_host_start_def bi_start_conn split: if_splits)

lemma host_open_session_inv:
  assumes "host_inv r" and "hr_pc r = H_Connect conn lcc client"
  shows "host_inv (host_open_session conn lcc client env t r)"
  using assms
  by (auto simp: host_open_session_def host_fail_inv host_inv_def bi_start_conn bi_udp_start_conn
      host_fail_def split: sum.splits outcome.splits tunnel_protocol.splits)

text \<open>What a step of the session does to the table, on either protocol.\<close>

lemma host_session_cases:
  assumes "(case proto of Tcp \<Rightarrow> bi_tcp_stream_host | Udp \<Rightarrow> bi_udp_host) e (b, s, tbl) = (b', s', tbl')"
    and "\<not> bi_returned b"
  shows "bi_conn b' = bi_conn b \<and>
    tbl' = (if bi_returned b' then hm_remove (client_virtual_addr (bi_conn b)) tbl else tbl)"
  using assms tcp_host.step_cases[of e b s tbl b' s' tbl'] udp_host.step_cases[of e b s tbl b' s' tbl']
  by (cases proto) (auto split: if_splits)

lemma host_session_inv:
  assumes "host_inv r" and pc: "hr_pc r = H_Forward conn client b"
  shows "host_inv (host_session_step conn client b e r)"
proof -
  let ?ref = "local_connections client" and ?cell = "last_active (bi_conn b)"
  obtain b' active tbl where st: "(case hr_protocol r of Tcp \<Rightarrow> bi_tcp_stream_host | Udp \<Rightarrow> bi_udp_host)
      e (b, cells r ?cell, tables r ?ref) = (b', active, tbl)"
    by (metis prod_cases3)
  have ok: "\<not> bi_returned b" "client_known r conn client" "conn_filed r client (bi_conn b)"
    using assms by (simp_all add: host_inv_def)
  have tbl: "bi_conn b' = bi_conn b"
    "tbl = (if bi_returned b' then hm_remove (client_virtual_addr (bi_conn b)) (tables r ?ref)
            else tables r ?ref)"
    using host_session_cases[OF st ok(1)] by simp_all
  have step: "host_session_step conn client b e r =
      r\<lparr>tables := (tables r)(?ref := tbl), cells := (cells r)(?cell := active),
        hr_pc := (if bi_returned b' then H_Accept_Bi conn else H_Forward conn client b')\<rparr>"
    by (simp add: host_session_step_def st)
  have "tables_ok ((tables r)(?ref := tbl))"
    using assms(1) tables_ok_remove[of "tables r"] unfolding tbl(2) host_inv_def by auto
  with assms ok tbl show ?thesis
    unfolding step by (auto simp: host_inv_def conn_filed_def)
qed

lemma host_step_inv: "host_inv r \<Longrightarrow> host_inv (host_step e r)"
proof (cases e)
  case (Ev_Accept some)
  then show "host_inv r \<Longrightarrow> host_inv (host_step e r)"
    by (cases "hr_pc r") (auto simp: host_inv_def)
next
  case (Ev_Connected res)
  then show "host_inv r \<Longrightarrow> host_inv (host_step e r)"
    by (cases "hr_pc r") (auto simp: host_connected_inv split: sum.splits, simp add: host_inv_def)
next
  case (Ev_Accept_Bi res)
  then show "host_inv r \<Longrightarrow> host_inv (host_step e r)"
    by (cases "hr_pc r") (auto simp: host_fail_inv split: sum.splits, simp add: host_inv_def)
next
  case (Ev_Packet res)
  then show "host_inv r \<Longrightarrow> host_inv (host_step e r)"
    by (cases "hr_pc r") (auto simp: host_fail_inv host_register_inv split: sum.splits)
next
  case (Ev_Sockets env t)
  then show "host_inv r \<Longrightarrow> host_inv (host_step e r)"
    by (cases "hr_pc r") (auto simp: host_open_session_inv)
next
  case (Ev_Session s)
  then show "host_inv r \<Longrightarrow> host_inv (host_step e r)"
    by (cases "hr_pc r") (auto simp: host_session_inv)
qed

lemma host_run_inv: "host_inv r \<Longrightarrow> host_inv (run_all host_step es r)"
  by (rule run_all_invariant[of host_inv]) (rule host_step_inv)

lemmas host_reachable_inv = host_run_inv[OF host_inv_new]

end
