(* ===== verification/Host_Behaviour.thy ===== *)
theory Host_Behaviour
  imports Host_Invariant
begin

section \<open>Behaviour of the host task\<close>

text \<open>
  What the accept loop and \<open>handle_connection\<close> do over whole runs: the calls of \<open>expect\<close> and
  \<open>unwrap\<close> never panic, what is registered and what is not taken out again, the bound on the
  tables, the end of a stopped task's sessions and its endless polling of the closed endpoint.
\<close>

subsection \<open>Connected clients are never forgotten\<close>

lemma host_step_clients:
  "hm_get (tunnel_clients r) k = Some c \<Longrightarrow> hm_get (tunnel_clients (host_step e r)) k = Some c"
  by (cases e; cases "hr_pc r")
    (auto simp: run_defs Let_def hm_simps hm_contains_def split: sum.splits option.splits
      outcome.splits prod.splits)

lemma host_run_clients:
  "hm_get (tunnel_clients r) k = Some c \<Longrightarrow>
   hm_get (tunnel_clients (run_all host_step es r)) k = Some c"
  by (induction es arbitrary: r) (auto simp: host_step_clients)

lemma host_step_params:
  "hr_protocol (host_step e r) = hr_protocol r \<and> hr_local_addr (host_step e r) = hr_local_addr r"
  by (cases e; cases "hr_pc r")
    (auto simp: run_defs Let_def split: sum.splits option.splits outcome.splits prod.splits)

lemma hm_len_mono:
  assumes "hm_wf m" and "hm_wf m'" and "\<And>k c. hm_get m k = Some c \<Longrightarrow> hm_get m' k = Some c"
  shows "hm_len m \<le> hm_len m'"
proof -
  have "{k. hm_get m k \<noteq> None} \<subseteq> {k. hm_get m' k \<noteq> None}"
    using assms(3) by auto
  then show ?thesis
    unfolding hm.len_card[OF assms(1)] hm.len_card[OF assms(2)]
    by (intro card_mono hm.finite_keys)
qed

subsection \<open>Tables have at most two entries\<close>

lemma tables_ok_len:
  assumes "tables_ok tbls"
  shows "hm_len (tbls ref) \<le> 2"
proof -
  have "{k. hm_get (tbls ref) k \<noteq> None} \<subseteq> {get_unspecified True, get_unspecified False}"
  proof
    fix k assume "k \<in> {k. hm_get (tbls ref) k \<noteq> None}"
    then obtain c where "hm_get (tbls ref) k = Some c" by auto
    then obtain v4 where "k = get_unspecified v4"
      using assms unfolding tables_ok_def by blast
    then show "k \<in> {get_unspecified True, get_unspecified False}" by (cases v4) auto
  qed
  then have "card {k. hm_get (tbls ref) k \<noteq> None} \<le> card {get_unspecified True, get_unspecified False}"
    by (rule card_mono[rotated]) simp
  then show ?thesis
    using assms by (simp add: hm.len_card tables_ok_def)
qed

subsection \<open>Panics\<close>

text \<open>
  What the task needs from the outside to go on: an established connection has a remote node id,
  the clock is after the epoch and a connected UDP socket has a peer.
\<close>

fun host_event_ok :: "host_event \<Rightarrow> bool" where
  "host_event_ok (Ev_Connected (Inr conn)) \<longleftrightarrow> remote_node_id conn \<noteq> None"
| "host_event_ok (Ev_Sockets env t) \<longleftrightarrow> 0 \<le> t \<and> peer_addr_ok env"
| "host_event_ok _ \<longleftrightarrow> True"

lemma bi_start_ok: "0 \<le> t \<Longrightarrow> bi_start lcc t \<noteq> Panic"
  by (simp add: bi_start_def now_secs_def)

lemma bi_udp_start_ok: "0 \<le> t \<Longrightarrow> bi_udp_host_start True lcc t \<noteq> Panic"
  by (simp add: bi_udp_host_start_def bi_start_ok)

lemma host_step_no_panic:
  assumes "host_inv r" and "host_event_ok e" and "hr_pc r \<noteq> H_Panicked"
  shows "hr_pc (host_step e r) \<noteq> H_Panicked"
proof (cases e)
  case (Ev_Packet res)
  show ?thesis
  proof (cases "hr_pc r")
    case (H_Receive conn)
    with assms(1) obtain key client where
      "remote_node_id conn = Some key" "hm_get (tunnel_clients r) key = Some client"
      by (auto simp: host_inv_def client_known_def)
    with Ev_Packet H_Receive show ?thesis
      by (simp add: host_fail_def host_register_def Let_def split: sum.splits)
  qed (use assms(3) Ev_Packet in auto)
next
  case (Ev_Sockets env t)
  with assms show ?thesis
    by (cases "hr_pc r")
      (auto simp: host_open_session_def host_fail_def bi_start_ok bi_udp_start_ok
        split: sum.splits outcome.splits tunnel_protocol.splits)
next
  case (Ev_Connected res)
  with assms show ?thesis
    by (cases "hr_pc r"; cases res) (auto simp: host_connected_def split: if_splits)
next
  case (Ev_Session s)
  with assms(3) show ?thesis
    by (cases "hr_pc r") (auto simp: host_session_step_def Let_def split: prod.splits)
next
  case (Ev_Accept some)
  with assms(3) show ?thesis by (cases "hr_pc r") auto
next
  case (Ev_Accept_Bi res)
  with assms(3) show ?thesis by (cases "hr_pc r") (auto simp: host_fail_def split: sum.splits)
qed

subsection \<open>Properties\<close>

text \<open>
  C11. In every run of the host's task its state stays consistent: the maps are well formed, each
  connected client is filed under the key of its connection and has a table of its own, each
  local connection is filed under its virtual address, and the client and the local connection
  that the task is working on are registered.
\<close>

theorem host_task_invariant: "host_inv (run_all host_step es (new_host_run addr proto))"
  by (rule host_reachable_inv)

text \<open>
  The calls of \<open>expect\<close> and \<open>unwrap\<close> in the accept loop and in \<open>handle_connection\<close> never
  panic: as long as established connections have a remote node id, UDP sockets a peer and the
  clock is after the epoch, the task never panics.
\<close>

lemma host_task_never_panics:
  assumes "\<forall>e \<in> set es. host_event_ok e"
  shows "hr_pc (run_all host_step es (new_host_run addr proto)) \<noteq> H_Panicked"
proof -
  have "hr_pc (run_all host_step es r) \<noteq> H_Panicked"
    if "host_inv r" "hr_pc r \<noteq> H_Panicked" for r
    using that assms
    by (induction es arbitrary: r) (auto simp: host_step_inv host_step_no_panic)
  then show ?thesis
    using host_inv_new[of addr proto] by (simp add: new_host_run_def)
qed

definition demo_client :: connection where
  "demo_client = \<lparr>remote_node_id = Some [7]\<rparr>"

definition sys_ok :: "sock_call \<Rightarrow> (io_error, unit) result" where
  "sys_ok call = Ok ()"

definition sys_refused :: "sock_call \<Rightarrow> (io_error, unit) result" where
  "sys_refused call = (case call of Tcp_Connect v4 a \<Rightarrow> Err (Os_Error ''connection refused'') | _ \<Rightarrow> Ok ())"

definition demo_service :: socket_addr where
  "demo_service = V4 2130706433 25565"

text \<open>The events that bring a client's first request to the point where sockets are opened.\<close>

definition demo_request :: "socket_addr \<Rightarrow> host_event list" where
  "demo_request a = [Ev_Accept True, Ev_Connected (Ok demo_client), Ev_Accept_Bi (Ok ()), Ev_Packet (Ok (ConnReq a))]"

text \<open>
  C31. A client that has been accepted stays registered for the rest of the task, so the number of
  clients never falls, and every later connection attempt under its key is dropped without an
  answer, whatever became of the first connection.
\<close>

theorem host_refuses_known_key:
  assumes "host_inv r" and "hm_get (tunnel_clients r) key = Some c"
  shows "hm_get (tunnel_clients (run_all host_step es r)) key = Some c \<and>
    hm_len (tunnel_clients r) \<le> hm_len (tunnel_clients (run_all host_step es r)) \<and>
    (hr_pc (run_all host_step es r) = H_Accept \<and> remote_node_id conn = Some key \<longrightarrow>
     run_all host_step (es @ [Ev_Accept True, Ev_Connected (Ok conn)]) r = run_all host_step es r)"
proof -
  let ?r = "run_all host_step es r"
  have c: "hm_get (tunnel_clients ?r) key = Some c"
    by (rule host_run_clients[OF assms(2)])
  have "host_inv ?r" by (rule host_run_inv[OF assms(1)])
  then have "hm_len (tunnel_clients r) \<le> hm_len (tunnel_clients ?r)"
    using assms(1) by (intro hm_len_mono) (auto simp: host_inv_def clients_ok_def host_run_clients)
  with c show ?thesis
    by (auto simp: host_connected_def hm_contains_def)
qed

text \<open>
  C30. When the service cannot be reached, the request of one local connection ends the whole
  connection of its client: the error is logged and the task goes back to accepting connections,
  while the local connection stays registered and is counted although no session exists.
\<close>

theorem host_service_error_leaks:
  assumes "host_inv r" and "hr_pc r = H_Connect conn lcc client"
    and "host_connect_service (hr_protocol r) (hr_local_addr r) (client_virtual_addr lcc) (sys env) = Err e"
  shows "host_step (Ev_Sockets env t) r = r\<lparr>hr_pc := H_Accept, hr_log := hr_log r @ [e]\<rparr> \<and>
    hm_get (tables (host_step (Ev_Sockets env t) r) (local_connections client)) (client_virtual_addr lcc) = Some lcc \<and>
    0 < hm_len (tables (host_step (Ev_Sockets env t) r) (local_connections client))"
proof -
  have filed: "hm_get (tables r (local_connections client)) (client_virtual_addr lcc) = Some lcc"
    and wf: "hm_wf (tables r (local_connections client))"
    using assms(1,2) by (auto simp: host_inv_def conn_filed_def tables_ok_def)
  then have "hm_len (tables r (local_connections client)) \<noteq> 0"
    by (auto simp: hm.len_zero_iff)
  with filed assms show ?thesis
    by (simp add: host_open_session_def host_fail_def)
qed

lemma new_host_run_simps [simp]:
  "hr_local_addr (new_host_run addr proto) = addr" "hr_protocol (new_host_run addr proto) = proto"
  "hr_pc (new_host_run addr proto) = H_Accept" "hr_log (new_host_run addr proto) = []"
  by (simp_all add: new_host_run_def)

lemma demo_request_run:
  "run_all host_step (demo_request a) (new_host_run addr proto) =
     (new_host_run addr proto)
       \<lparr>tunnel_clients := [([7], \<lparr>local_connections = 0, client_connection = demo_client\<rparr>)],
        tables := (\<lambda>_. hm_empty)(0 := [(get_unspecified (is_ipv4 a), \<lparr>client_local_addr = a,
          client_virtual_addr = get_unspecified (is_ipv4 a), last_active = 0\<rparr>)]),
        next_table := 1, cells := (\<lambda>_. 0)(0 := 0), next_cell := 1,
        hr_pc := H_Connect demo_client \<lparr>client_local_addr = a,
          client_virtual_addr = get_unspecified (is_ipv4 a), last_active = 0\<rparr>
          \<lparr>local_connections = 0, client_connection = demo_client\<rparr>\<rparr>"
  by (simp add: demo_request_def new_host_run_def host_connected_def host_register_def demo_client_def
      hm_contains_def hm_get_def hm_insert_def hm_empty_def Let_def)

theorem host_refuses_known_key_witness:
  "run_all host_step (demo_request (V4 1 5000) @ [Ev_Sockets \<lparr>sys = sys_refused, peer_addr_ok = True\<rparr> 0] @
     [Ev_Accept True, Ev_Connected (Ok demo_client)]) (new_host_run demo_service Tcp) =
   run_all host_step (demo_request (V4 1 5000) @ [Ev_Sockets \<lparr>sys = sys_refused, peer_addr_ok = True\<rparr> 0])
     (new_host_run demo_service Tcp)"
proof -
  let ?r = "run_all host_step (demo_request (V4 1 5000)) (new_host_run demo_service Tcp)"
  let ?es = "[Ev_Sockets \<lparr>sys = sys_refused, peer_addr_ok = True\<rparr> 0]"
  have known: "hm_get (tunnel_clients ?r) [7] = Some \<lparr>local_connections = 0, client_connection = demo_client\<rparr>"
    by (simp add: demo_request_run hm_get_def)
  have inv: "host_inv ?r" by (rule host_reachable_inv)
  have "hr_pc (run_all host_step ?es ?r) = H_Accept"
    by (simp add: demo_request_run host_open_session_def host_connect_service_def sys_refused_def
        host_fail_def)
  moreover have "remote_node_id demo_client = Some [7]" by (simp add: demo_client_def)
  ultimately show ?thesis
    using host_refuses_known_key[OF inv known, of ?es demo_client]
    by (simp only: run_all_append simp_thms)
qed

theorem host_service_error_leaks_witness:
  "0 < hm_len (tables (run_all host_step
     (demo_request (V4 1 5000) @ [Ev_Sockets \<lparr>sys = sys_refused, peer_addr_ok = True\<rparr> 0])
     (new_host_run demo_service Tcp)) 0)"
proof -
  let ?r = "run_all host_step (demo_request (V4 1 5000)) (new_host_run demo_service Tcp)"
  let ?lcc = "\<lparr>client_local_addr = V4 1 5000, client_virtual_addr = get_unspecified True, last_active = 0\<rparr>"
  let ?c = "\<lparr>local_connections = 0, client_connection = demo_client\<rparr>"
  let ?env = "\<lparr>sys = sys_refused, peer_addr_ok = True\<rparr>"
  have inv: "host_inv ?r" by (rule host_reachable_inv)
  have pc: "hr_pc ?r = H_Connect demo_client ?lcc ?c"
    by (simp add: demo_request_run)
  have refused: "host_connect_service (hr_protocol ?r) (hr_local_addr ?r) (client_virtual_addr ?lcc)
      (sys ?env) = Err (Host_IoError (Os_Error ''connection refused''))"
    by (simp add: demo_request_run host_connect_service_def sys_refused_def)
  show ?thesis
    using conjunct2[OF conjunct2[OF host_service_error_leaks[OF inv pc refused, of 0]]]
    by (simp only: run_all_append run_all.simps connected_client.simps)
qed

text \<open>
  What the operating system does with addresses of the wrong family: a socket of one family is not
  bound to an address of the other, and an IPv4 UDP socket is not connected to an IPv6 address.
  Nothing is said of an IPv6 UDP socket and an IPv4 address: systems with dual-stack sockets
  connect them.
\<close>

definition families_kept :: "(sock_call \<Rightarrow> (io_error, unit) result) \<Rightarrow> bool" where
  "families_kept call \<longleftrightarrow>
     (\<forall>v4 a. is_ipv4 a \<noteq> v4 \<longrightarrow> isl (call (Tcp_Bind v4 a))) \<and>
     (\<forall>a b. is_ipv4 a \<and> \<not> is_ipv4 b \<longrightarrow> isl (call (Udp_Connect a b)))"

text \<open>
  C32. The virtual address of a local connection has the family of the application's address on
  the client, the socket that of the service: a request from an application of the other family
  fails on every attempt when the tunnel is a TCP tunnel, and for an IPv4 application of an IPv6
  service also when it is a UDP tunnel, and it ends the connection of its client.
\<close>

theorem host_rejects_other_family:
  assumes "host_inv r" and "hr_pc r = H_Receive conn"
    and "is_ipv4 a \<noteq> is_ipv4 (hr_local_addr r)" and "hr_protocol r = Tcp \<or> is_ipv4 a"
    and "families_kept (sys env)"
  shows "\<exists>e. hr_pc (run_all host_step [Ev_Packet (Ok (ConnReq a)), Ev_Sockets env t] r) = H_Accept \<and>
    hr_log (run_all host_step [Ev_Packet (Ok (ConnReq a)), Ev_Sockets env t] r) = hr_log r @ [Host_IoError e]"
proof -
  obtain key client where "remote_node_id conn = Some key" "hm_get (tunnel_clients r) key = Some client"
    using assms(1,2) by (auto simp: host_inv_def client_known_def)
  moreover have "\<exists>e. host_connect_service (hr_protocol r) (hr_local_addr r) (get_unspecified (is_ipv4 a)) (sys env) =
      Err (Host_IoError e)"
  proof (cases "hr_protocol r")
    case Tcp
    have "isl (sys env (Tcp_Bind (is_ipv4 (hr_local_addr r)) (get_unspecified (is_ipv4 a))))"
      using assms(3,5) by (simp add: families_kept_def)
    with Tcp show ?thesis by (auto simp: host_connect_service_def Let_def isl_def split: sum.splits)
  next
    case Udp
    then have "isl (sys env (Udp_Connect (get_unspecified (is_ipv4 a)) (hr_local_addr r)))"
      using assms(3,4,5) by (auto simp: families_kept_def)
    with Udp show ?thesis by (auto simp: host_connect_service_def isl_def split: sum.splits)
  qed
  then obtain e where "host_connect_service (hr_protocol r) (hr_local_addr r)
      (get_unspecified (is_ipv4 a)) (sys env) = Err (Host_IoError e)"
    by blast
  ultimately show ?thesis
    using assms(2)
    by (intro exI[of _ e]) (simp add: host_register_def host_open_session_def host_fail_def Let_def)
qed

definition sys_families :: "sock_call \<Rightarrow> (io_error, unit) result" where
  "sys_families call =
     (case call of
        Tcp_Bind v4 a \<Rightarrow> if is_ipv4 a = v4 then Ok () else Err (Os_Error ''bad family'')
      | Udp_Connect a b \<Rightarrow> if is_ipv4 a \<and> \<not> is_ipv4 b then Err (Os_Error ''bad family'') else Ok ()
      | _ \<Rightarrow> Ok ())"

theorem host_rejects_other_family_witness:
  "hr_pc (run_all host_step (demo_request (V6 1 5000 0 0) @ [Ev_Sockets \<lparr>sys = sys_families, peer_addr_ok = True\<rparr> 0])
     (new_host_run demo_service Tcp)) = H_Accept"
proof -
  let ?pre = "[Ev_Accept True, Ev_Connected (Ok demo_client), Ev_Accept_Bi (Ok ())]"
  let ?r = "run_all host_step ?pre (new_host_run demo_service Tcp)"
  let ?env = "\<lparr>sys = sys_families, peer_addr_ok = True\<rparr>"
  have inv: "host_inv ?r" by (rule host_reachable_inv)
  have pc: "hr_pc ?r = H_Receive demo_client" and fam: "is_ipv4 (V6 1 5000 0 0) \<noteq> is_ipv4 (hr_local_addr ?r)"
    by (simp_all add: new_host_run_def host_connected_def demo_client_def hm_contains_def hm_simps demo_service_def)
  have tcp: "hr_protocol ?r = Tcp \<or> is_ipv4 (V6 1 5000 0 0)"
    by (simp add: new_host_run_def host_connected_def demo_client_def hm_contains_def hm_simps)
  have "families_kept (sys ?env)" by (simp add: families_kept_def sys_families_def)
  from host_rejects_other_family[OF inv pc fam tcp this, of 0] show ?thesis
    by (auto simp: demo_request_def)
qed

subsection \<open>Sessions inside the task\<close>

definition host_session :: "tunnel_protocol \<Rightarrow> stream_event \<Rightarrow>
    stream_bi \<times> u64 \<times> conn_table \<Rightarrow> stream_bi \<times> u64 \<times> conn_table" where
  "host_session proto = (case proto of Tcp \<Rightarrow> bi_tcp_stream_host | Udp \<Rightarrow> bi_udp_host)"

lemma host_session_run:
  assumes "hr_pc r = H_Forward conn client b" and "\<not> bi_returned b" and "Join \<notin> set es"
    and "run_all (host_session (hr_protocol r)) es
      (b, cells r (last_active (bi_conn b)), tables r (local_connections client)) = (b', a', tbl')"
  shows "run_all host_step (map Ev_Session es) r =
      r\<lparr>cells := (cells r)(last_active (bi_conn b) := a'),
        tables := (tables r)(local_connections client := tbl'), hr_pc := H_Forward conn client b'\<rparr> \<and>
    bi_conn b' = bi_conn b \<and> \<not> bi_returned b'"
  using assms
proof (induction es arbitrary: r b)
  case Nil
  then show ?case by (cases r) (auto simp: fun_eq_iff)
next
  case (Cons e es)
  let ?cell = "last_active (bi_conn b)" and ?ref = "local_connections client"
  obtain b1 a1 tbl1 where st: "host_session (hr_protocol r) e (b, cells r ?cell, tables r ?ref) = (b1, a1, tbl1)"
    by (metis prod_cases3)
  have "e \<noteq> Join" using Cons.prems(3) by auto
  then have b1: "bi_conn b1 = bi_conn b" "\<not> bi_returned b1"
    using st Cons.prems(2) tcp_host.step_cases[of e b _ _ b1 a1 tbl1]
      udp_host.step_cases[of e b _ _ b1 a1 tbl1]
    by (cases "hr_protocol r"; fastforce simp: host_session_def split: if_splits)+
  let ?r = "r\<lparr>cells := (cells r)(?cell := a1), tables := (tables r)(?ref := tbl1),
    hr_pc := H_Forward conn client b1\<rparr>"
  have step: "host_step (Ev_Session e) r = ?r"
    using Cons.prems(1) st b1(2) by (simp add: host_session_step_def host_session_def Let_def)
  have IH: "run_all host_step (map Ev_Session es) ?r =
      ?r\<lparr>cells := (cells ?r)(last_active (bi_conn b1) := a'),
        tables := (tables ?r)(?ref := tbl'), hr_pc := H_Forward conn client b'\<rparr> \<and>
      bi_conn b' = bi_conn b1 \<and> \<not> bi_returned b'"
  proof (rule Cons.IH)
    show "run_all (host_session (hr_protocol ?r)) es
        (b1, cells ?r (last_active (bi_conn b1)), tables ?r ?ref) = (b', a', tbl')"
      using Cons.prems(4) st b1 by simp
  qed (use b1 Cons.prems(3) in auto)
  have "?r\<lparr>cells := (cells ?r)(?cell := a'), tables := (tables ?r)(?ref := tbl'),
        hr_pc := H_Forward conn client b'\<rparr> =
      r\<lparr>cells := (cells r)(?cell := a'), tables := (tables r)(?ref := tbl'),
        hr_pc := H_Forward conn client b'\<rparr>"
    by (cases r) (simp add: fun_eq_iff)
  with IH b1 show ?case
    unfolding list.map run_all.simps step by metis
qed

lemma host_session_returns:
  assumes "hr_pc r = H_Forward conn client b" and "\<not> bi_returned b" and "Join \<notin> set es"
    and "run_all (host_session (hr_protocol r)) (es @ [Join])
      (b, cells r (last_active (bi_conn b)), tables r (local_connections client)) = (b', a', tbl')"
    and "bi_returned b'"
  shows "run_all host_step (map Ev_Session (es @ [Join])) r =
      r\<lparr>cells := (cells r)(last_active (bi_conn b) := a'),
        tables := (tables r)(local_connections client := tbl'), hr_pc := H_Accept_Bi conn\<rparr>"
proof -
  let ?s = "(b, cells r (last_active (bi_conn b)), tables r (local_connections client))"
  obtain b1 a1 tbl1 where run: "run_all (host_session (hr_protocol r)) es ?s = (b1, a1, tbl1)"
    by (metis prod_cases3)
  note part = host_session_run[OF assms(1-3) run]
  have "host_session (hr_protocol r) Join (b1, a1, tbl1) = (b', a', tbl')"
    using assms(4) run by simp
  with part assms(5) show ?thesis
    by (simp add: host_session_step_def host_session_def Let_def)
qed

text \<open>
  C33. Stopping ends the session the host is serving: once its loops have seen the signal, the
  function returns, the local connection is out of its table and the task awaits the next stream;
  the closed connection then ends \<open>handle_connection\<close> with an error, and the task is back in its
  accept loop, where the closed endpoint keeps answering \<open>None\<close>: the loop neither ends nor
  changes anything, however often it runs, and never yields the result its handle promises.
\<close>

theorem host_stop_drains_then_spins:
  assumes "host_inv r" and "hr_pc r = H_Forward conn client b"
    and "now_secs t \<noteq> None" and "stop_changed pd = Some True" and "stop_changed pu = Some True"
  shows "hr_pc (run_all host_step (map Ev_Session (stream_stop_events t pd pu)) r) = H_Accept_Bi conn \<and>
    tables (run_all host_step (map Ev_Session (stream_stop_events t pd pu)) r) (local_connections client) =
      hm_remove (client_virtual_addr (bi_conn b)) (tables r (local_connections client)) \<and>
    run_all host_step (map Ev_Session (stream_stop_events t pd pu) @ [Ev_Accept_Bi (Err e)] @
        replicate n (Ev_Accept False)) r =
      host_fail (Host_ConnectionError e) (run_all host_step (map Ev_Session (stream_stop_events t pd pu)) r)"
proof -
  let ?es = "map Down_Ev [Ev_Wrote W_Ok, Ev_Top t, Ev_Poll pd t] @
    map Up_Ev [Ev_Wrote W_Ok, Ev_Top t, Ev_Poll pu t] :: stream_event list"
  let ?a = "cells r (last_active (bi_conn b))" and ?tbl = "tables r (local_connections client)"
  have nr: "\<not> bi_returned b" using assms(1,2) by (simp add: host_inv_def)
  note ends = bi_stream_ends[OF refl refl nr run_all_fwd_stop[OF assms(3,4)] run_all_fwd_stop[OF assms(3,5)]]
  have "\<exists>b'. bi_returned b' \<and> run_all (host_session (hr_protocol r)) (?es @ [Join]) (b, ?a, ?tbl) =
      (b', ?a, hm_remove (client_virtual_addr (bi_conn b)) ?tbl)"
    unfolding host_session_def bi_tcp_stream_host_def bi_udp_host_def fwd_defs
    using ends by (cases "hr_protocol r") (simp_all add: host_disc.removes)
  then obtain b' where b': "bi_returned b'" "run_all (host_session (hr_protocol r)) (?es @ [Join])
      (b, ?a, ?tbl) = (b', ?a, hm_remove (client_virtual_addr (bi_conn b)) ?tbl)"
    by blast
  have "Join \<notin> set ?es" by simp
  note run = host_session_returns[OF assms(2) nr this b'(2,1)]
  have "host_step (Ev_Accept False) (host_fail err r') = host_fail err r'" for err r'
    by (cases r') (simp add: host_fail_def)
  then have spin: "run_all host_step (replicate n (Ev_Accept False)) (host_fail err r') = host_fail err r'" for err r'
    by (induction n) simp_all
  have ev: "stream_stop_events t pd pu = ?es @ [Join]"
    by (simp add: stream_stop_events_def)
  let ?R = "run_all host_step (map Ev_Session (stream_stop_events t pd pu)) r"
  have R: "hr_pc ?R = H_Accept_Bi conn"
    "tables ?R (local_connections client) = hm_remove (client_virtual_addr (bi_conn b)) ?tbl"
    unfolding ev run by simp_all
  then have "host_step (Ev_Accept_Bi (Err e)) ?R = host_fail (Host_ConnectionError e) ?R"
    by simp
  with R spin show ?thesis
    by (simp only: run_all_append run_all.simps simp_thms)
qed

definition demo_stream_session :: stream_bi where
  "demo_stream_session =
     \<lparr>bi_conn = \<lparr>client_local_addr = V4 1 5000, client_virtual_addr = get_unspecified True, last_active = 0\<rparr>,
      bi_down = fwd_init, bi_up = fwd_init, bi_returned = False\<rparr>"

theorem host_stop_drains_then_spins_witness:
  "hr_pc (run_all host_step (demo_request (V4 1 5000) @ [Ev_Sockets \<lparr>sys = sys_ok, peer_addr_ok = True\<rparr> 0] @
      map Ev_Session (stream_stop_events 0 stop_poll stop_poll) @ [Ev_Accept_Bi (Err ''closed'')] @
      replicate 1000 (Ev_Accept False)) (new_host_run demo_service Tcp)) = H_Accept"
proof -
  let ?es = "demo_request (V4 1 5000) @ [Ev_Sockets \<lparr>sys = sys_ok, peer_addr_ok = True\<rparr> 0]"
  let ?r = "run_all host_step ?es (new_host_run demo_service Tcp)"
  have inv: "host_inv ?r" by (rule host_reachable_inv)
  have pc: "hr_pc ?r = H_Forward demo_client \<lparr>local_connections = 0, client_connection = demo_client\<rparr>
      demo_stream_session"
    by (simp add: demo_request_run host_open_session_def host_connect_service_def sys_ok_def
        bi_start_def now_secs_def demo_stream_session_def)
  have stop: "now_secs 0 \<noteq> None" "stop_changed stop_poll = Some True"
    by (simp_all add: now_secs_def stop_poll_def)
  from host_stop_drains_then_spins[OF inv pc stop stop(2), of "''closed''" 1000]
  show ?thesis
    by (simp only: append_assoc[symmetric] run_all_append) (simp add: host_fail_def)
qed

text \<open>
  C12. In every run of the task a client has at most two registered local connections, one per
  address family, whatever the number of applications it connects.
\<close>

theorem host_tables_bounded:
  "hm_len (tables (run_all host_step es (new_host_run addr proto)) ref) \<le> 2"
  using host_reachable_inv[of es addr proto] by (simp add: host_inv_def tables_ok_len)

end
