(* ===== verification/Pipe.thy ===== *)
theory Pipe
  imports Bi_Forward
begin

section \<open>The tunnel as a pipe\<close>

text \<open>
  The abstract specification of one direction of a session is a pipe: bytes are taken in at one
  end and given out, in order, at the other. Every loop over a \<open>forwarder\<close> refines it, and two
  sessions connected by a QUIC stream, the client's and the host's, compose to an end-to-end
  pipe between the application on the client and the service on the host. What is assumed of the
  stream is \<open>quic_delivers\<close>: the bytes read from it are a prefix of the bytes written to it.
\<close>

subsection \<open>Specification\<close>

record pipe =
  p_taken :: bytes
  p_given :: bytes

definition empty_pipe :: pipe where
  "empty_pipe = \<lparr>p_taken = [], p_given = []\<rparr>"

inductive pipe_step :: "pipe \<Rightarrow> pipe \<Rightarrow> bool" where
  take_in: "pipe_step p (p\<lparr>p_taken := p_taken p @ bs\<rparr>)"
| give_out: "prefix (p_given p @ bs) (p_taken p) \<Longrightarrow> pipe_step p (p\<lparr>p_given := p_given p @ bs\<rparr>)"

inductive_cases pipe_stepE: "pipe_step p p'"

definition pipe_wf :: "pipe \<Rightarrow> bool" where
  "pipe_wf p \<longleftrightarrow> prefix (p_given p) (p_taken p)"

lemma pipe_step_wf: "pipe_step p p' \<Longrightarrow> pipe_wf p \<Longrightarrow> pipe_wf p'"
  by (erule pipe_stepE) (auto simp: pipe_wf_def prefix_prefix)

lemma pipe_steps_wf: "pipe_step\<^sup>*\<^sup>* p p' \<Longrightarrow> pipe_wf p \<Longrightarrow> pipe_wf p'"
  by (induction rule: rtranclp_induct) (auto intro: pipe_step_wf)

lemma empty_pipe_wf: "pipe_wf empty_pipe"
  by (simp add: pipe_wf_def empty_pipe_def)

lemma take_then_give:
  assumes "prefix (g @ bs) (t @ ts)"
  shows "pipe_step\<^sup>*\<^sup>* \<lparr>p_taken = t, p_given = g\<rparr> \<lparr>p_taken = t @ ts, p_given = g @ bs\<rparr>"
proof -
  have "pipe_step \<lparr>p_taken = t, p_given = g\<rparr> \<lparr>p_taken = t @ ts, p_given = g\<rparr>"
    using take_in[of "\<lparr>p_taken = t, p_given = g\<rparr>" ts] by simp
  moreover have "pipe_step \<lparr>p_taken = t @ ts, p_given = g\<rparr> \<lparr>p_taken = t @ ts, p_given = g @ bs\<rparr>"
    using give_out[of "\<lparr>p_taken = t @ ts, p_given = g\<rparr>" bs] assms by simp
  ultimately show ?thesis by (meson converse_rtranclp_into_rtranclp r_into_rtranclp)
qed

subsection \<open>Refinement\<close>

context forwarder
begin

lemma sink_grows:
  obtains bs where "delivered (fst (fwd_step verdict writer e (f, a))) = delivered f @ bs"
proof (cases e)
  case (Ev_Poll p t)
  then show ?thesis
    using that[of "[]"] by (cases "fw_pc f") (auto split: prod.splits)
next
  case (Ev_Top t)
  then show ?thesis
    using that[of "[]"] by (cases "fw_pc f") auto
next
  case (Ev_Wrote w)
  show ?thesis
  proof (cases "fw_pc f")
    case (Writing bs)
    with Ev_Wrote show ?thesis using that[of "concat (map content (writer w bs))"] by simp
  qed (use Ev_Wrote that[of "[]"] in auto)
qed

lemma run_refines:
  "pipe_step\<^sup>*\<^sup>* empty_pipe
     \<lparr>p_taken = taken (run_offers verdict writer es fwd_init),
      p_given = delivered (fwd_run verdict writer es fwd_init)\<rparr>"
proof (induction es rule: rev_induct)
  case Nil
  then show ?case by (simp add: empty_pipe_def fwd_init_def)
next
  case (snoc ae es)
  obtain a e where ae: "ae = (a, e)" by fastforce
  let ?f = "fwd_run verdict writer es fwd_init"
  obtain bs where bs: "delivered (fst (fwd_step verdict writer e (?f, a))) = delivered ?f @ bs"
    by (rule sink_grows)
  have "prefix (delivered ?f @ bs) (taken (run_offers verdict writer (es @ [ae]) fwd_init))"
    using init_transfer[of "es @ [ae]"] bs ae by (simp add: fwd_run_append)
  then show ?case
    using take_then_give[of "delivered ?f" bs "taken (run_offers verdict writer es fwd_init)"
        "taken (step_offers e ?f)"] snoc bs ae
    by (auto simp: fwd_run_append run_offers_append intro: rtranclp_trans)
qed

end

subsection \<open>From sessions to their loops\<close>

fun down_offers ::
    "(('r fwd_event, 'u) bi_event \<Rightarrow> ('o, 'p) bi \<times> 's \<times> conn_table \<Rightarrow> ('o, 'p) bi \<times> 's \<times> conn_table) \<Rightarrow>
     ('r fwd_event, 'u) bi_event list \<Rightarrow> ('o, 'p) bi \<times> 's \<times> conn_table \<Rightarrow> 'r list" where
  "down_offers step [] x = []"
| "down_offers step (e # es) x =
     (case e of Down_Ev d \<Rightarrow> step_offers d (bi_down (fst x)) | _ \<Rightarrow> []) @ down_offers step es (step e x)"

fun up_offers ::
    "(('d, 'r fwd_event) bi_event \<Rightarrow> ('o, 'p) bi \<times> 's \<times> conn_table \<Rightarrow> ('o, 'p) bi \<times> 's \<times> conn_table) \<Rightarrow>
     ('d, 'r fwd_event) bi_event list \<Rightarrow> ('o, 'p) bi \<times> 's \<times> conn_table \<Rightarrow> 'r list" where
  "up_offers step [] x = []"
| "up_offers step (e # es) x =
     (case e of Up_Ev u \<Rightarrow> step_offers u (bi_up (fst x)) | _ \<Rightarrow> []) @ up_offers step es (step e x)"

text \<open>What the reads of a session took: at most a buffer of what there was.\<close>

definition down_reads ::
    "((bytes option fwd_event, 'u) bi_event \<Rightarrow> ('o, 'p) bi \<times> 's \<times> conn_table \<Rightarrow> ('o, 'p) bi \<times> 's \<times> conn_table) \<Rightarrow>
     (bytes option fwd_event, 'u) bi_event list \<Rightarrow> ('o, 'p) bi \<times> 's \<times> conn_table \<Rightarrow> bytes option list" where
  "down_reads step es x = map (map_option read_into_buf) (down_offers step es x)"

definition up_reads ::
    "(('d, bytes fwd_event) bi_event \<Rightarrow> ('o, 'p) bi \<times> 's \<times> conn_table \<Rightarrow> ('o, 'p) bi \<times> 's \<times> conn_table) \<Rightarrow>
     ('d, bytes fwd_event) bi_event list \<Rightarrow> ('o, 'p) bi \<times> 's \<times> conn_table \<Rightarrow> bytes list" where
  "up_reads step es x = map read_into_buf (up_offers step es x)"

lemma down_reads_taken: "concat (map tunnel_payload (down_reads step es x)) = concat (map tunnel_taken (down_offers step es x))"
  by (simp add: down_reads_def tunnel_taken_def[abs_def] comp_def)

lemma down_trace:
  assumes "\<And>e f s. \<exists>a. fst (down e (f, s)) = fst (fwd_step v w e (f, a))"
  shows "\<exists>tr. bi_down (fst (run_all (bi_step down up disc) es x)) = fwd_run v w tr (bi_down (fst x)) \<and>
    down_offers (bi_step down up disc) es x = run_offers v w tr (bi_down (fst x))"
proof (induction es arbitrary: x)
  case Nil
  then show ?case by (intro exI[of _ "[]"]) simp
next
  case (Cons e es)
  obtain b s tbl where x: "x = (b, s, tbl)" by (cases x)
  obtain tr where tr:
    "bi_down (fst (run_all (bi_step down up disc) es (bi_step down up disc e x))) =
       fwd_run v w tr (bi_down (fst (bi_step down up disc e x)))"
    "down_offers (bi_step down up disc) es (bi_step down up disc e x) =
       run_offers v w tr (bi_down (fst (bi_step down up disc e x)))"
    using Cons.IH by blast
  show ?case
  proof (cases e)
    case (Down_Ev d)
    obtain a where "fst (down d (bi_down b, s)) = fst (fwd_step v w d (bi_down b, a))"
      using assms by blast
    with tr Down_Ev x show ?thesis
      by (intro exI[of _ "(a, d) # tr"]) (simp add: Let_def split: prod.splits)
  next
    case (Up_Ev u)
    with tr x show ?thesis by (intro exI[of _ tr]) (simp add: Let_def split: prod.splits)
  next
    case Join
    with tr x show ?thesis by (intro exI[of _ tr]) auto
  qed
qed

lemma up_trace:
  assumes "\<And>e f s. \<exists>a. fst (up e (f, s)) = fst (fwd_step v w e (f, a))"
  shows "\<exists>tr. bi_up (fst (run_all (bi_step down up disc) es x)) = fwd_run v w tr (bi_up (fst x)) \<and>
    up_offers (bi_step down up disc) es x = run_offers v w tr (bi_up (fst x))"
proof (induction es arbitrary: x)
  case Nil
  then show ?case by (intro exI[of _ "[]"]) simp
next
  case (Cons e es)
  obtain b s tbl where x: "x = (b, s, tbl)" by (cases x)
  obtain tr where tr:
    "bi_up (fst (run_all (bi_step down up disc) es (bi_step down up disc e x))) =
       fwd_run v w tr (bi_up (fst (bi_step down up disc e x)))"
    "up_offers (bi_step down up disc) es (bi_step down up disc e x) =
       run_offers v w tr (bi_up (fst (bi_step down up disc e x)))"
    using Cons.IH by blast
  show ?case
  proof (cases e)
    case (Up_Ev u)
    obtain a where "fst (up u (bi_up b, s)) = fst (fwd_step v w u (bi_up b, a))"
      using assms by blast
    with tr Up_Ev x show ?thesis
      by (intro exI[of _ "(a, u) # tr"]) (simp add: Let_def split: prod.splits)
  next
    case (Down_Ev d)
    with tr x show ?thesis by (intro exI[of _ tr]) (simp add: Let_def split: prod.splits)
  next
    case Join
    with tr x show ?thesis by (intro exI[of _ tr]) auto
  qed
qed

subsection \<open>The directions of the four functions\<close>

text \<open>A task that is neither writing nor has panicked has passed on everything it read.\<close>

fun settled :: "fwd_pc \<Rightarrow> bool" where
  "settled (Writing bs) = False"
| "settled Panicked = False"
| "settled _ = True"

lemma settled_iff: "settled pc \<longleftrightarrow> (\<forall>bs. pc \<noteq> Writing bs) \<and> pc \<noteq> Panicked"
  by (cases pc) auto

definition quic_delivers :: "bytes list \<Rightarrow> bytes option list \<Rightarrow> bool" where
  "quic_delivers sent received \<longleftrightarrow> prefix (concat (map tunnel_payload received)) (concat sent)"

definition quic_delivers_all :: "bytes list \<Rightarrow> bytes option list \<Rightarrow> bool" where
  "quic_delivers_all sent received \<longleftrightarrow> concat (map tunnel_payload received) = concat sent"

lemma bi_start_init:
  "bi_start c t = Returned (b, a) \<Longrightarrow>
     bi_conn b = c \<and> bi_down b = fwd_init \<and> bi_up b = fwd_init \<and> \<not> bi_returned b \<and> now_secs t = Some a"
  by (auto simp: bi_start_def split: option.splits)

lemma stream_up_direction:
  fixes step :: "stream_event \<Rightarrow> stream_bi \<times> u64 \<times> conn_table \<Rightarrow> stream_bi \<times> u64 \<times> conn_table"
  assumes "step = bi_step down (fwd_step socket_verdict stream_writer) disc"
    and "bi_up (fst x) = fwd_init"
  shows "prefix (concat (fw_sink (bi_up (fst (run_all step es x))))) (concat (up_reads step es x))"
    and "settled (fw_pc (bi_up (fst (run_all step es x)))) \<Longrightarrow>
      concat (fw_sink (bi_up (fst (run_all step es x)))) = concat (up_reads step es x)"
proof -
  obtain tr where tr: "bi_up (fst (run_all step es x)) = fwd_run socket_verdict stream_writer tr fwd_init"
    "up_offers step es x = run_offers socket_verdict stream_writer tr fwd_init"
    using up_trace[of "fwd_step socket_verdict stream_writer" socket_verdict stream_writer down disc es x]
      assms by auto
  show "prefix (concat (fw_sink (bi_up (fst (run_all step es x))))) (concat (up_reads step es x))"
    using socket_to_stream.init_transfer[of tr] unfolding up_reads_def tr by simp
  show "settled (fw_pc (bi_up (fst (run_all step es x)))) \<Longrightarrow>
      concat (fw_sink (bi_up (fst (run_all step es x)))) = concat (up_reads step es x)"
    using socket_to_stream.init_transfer_eq[of tr] unfolding up_reads_def tr by (simp add: settled_iff)
qed

lemma stream_down_direction:
  fixes step :: "stream_event \<Rightarrow> stream_bi \<times> u64 \<times> conn_table \<Rightarrow> stream_bi \<times> u64 \<times> conn_table"
  assumes "step = bi_step (fwd_step tunnel_verdict writer) up disc"
    and "forwarder tunnel_verdict tunnel_taken writer id"
    and "bi_down (fst x) = fwd_init"
  shows "prefix (concat (fw_sink (bi_down (fst (run_all step es x)))))
      (concat (map tunnel_payload (down_reads step es x)))"
    and "settled (fw_pc (bi_down (fst (run_all step es x)))) \<Longrightarrow>
      concat (fw_sink (bi_down (fst (run_all step es x)))) = concat (map tunnel_payload (down_reads step es x))"
proof -
  obtain tr where tr: "bi_down (fst (run_all step es x)) = fwd_run tunnel_verdict writer tr fwd_init"
    "down_offers step es x = run_offers tunnel_verdict writer tr fwd_init"
    using down_trace[of "fwd_step tunnel_verdict writer" tunnel_verdict writer up disc es x] assms by auto
  show "prefix (concat (fw_sink (bi_down (fst (run_all step es x)))))
      (concat (map tunnel_payload (down_reads step es x)))"
    using forwarder.init_transfer[OF assms(2), of tr] unfolding down_reads_taken tr by simp
  show "settled (fw_pc (bi_down (fst (run_all step es x)))) \<Longrightarrow>
      concat (fw_sink (bi_down (fst (run_all step es x)))) = concat (map tunnel_payload (down_reads step es x))"
    using forwarder.init_transfer_eq[OF assms(2), of tr] unfolding down_reads_taken tr by (simp add: settled_iff)
qed

lemmas tcp_client_up_direction =
  stream_up_direction[OF bi_tcp_stream_client_def[unfolded fwd_defs]]
lemmas tcp_host_up_direction =
  stream_up_direction[OF bi_tcp_stream_host_def[unfolded fwd_defs]]
lemmas udp_host_up_direction =
  stream_up_direction[OF bi_udp_host_def[unfolded fwd_defs]]
lemmas tcp_client_down_direction =
  stream_down_direction[OF bi_tcp_stream_client_def[unfolded fwd_defs] tunnel_to_stream.forwarder_axioms]
lemmas tcp_host_down_direction =
  stream_down_direction[OF bi_tcp_stream_host_def[unfolded fwd_defs] tunnel_to_stream.forwarder_axioms]
lemmas udp_host_down_direction =
  stream_down_direction[OF bi_udp_host_def[unfolded fwd_defs] tunnel_to_dgram.forwarder_axioms]

subsection \<open>End to end\<close>

text \<open>
  C2. TCP, from the application to the service: over every interleaving in the client's and the
  host's session, the bytes the host has written to the service are a prefix of the bytes the
  client has read from the application, provided the QUIC stream delivers a prefix of what was
  written to it. When both loops have settled and the stream has delivered everything, they are
  all of them.
\<close>

theorem tcp_uplink_end_to_end:
  assumes "bi_start cc tc = Returned (bc, ac)" and "bi_start ch th = Returned (bh, ah)"
    and "run_all bi_tcp_stream_client ec (bc, ac, tblc) = (bc', xc)"
    and "run_all bi_tcp_stream_host eh (bh, ah, tblh) = (bh', xh)"
    and "quic_delivers (fw_sink (bi_up bc')) (down_reads bi_tcp_stream_host eh (bh, ah, tblh))"
  shows "prefix (concat (fw_sink (bi_down bh')))
      (concat (up_reads bi_tcp_stream_client ec (bc, ac, tblc))) \<and>
    (settled (fw_pc (bi_up bc')) \<and> settled (fw_pc (bi_down bh')) \<and>
     quic_delivers_all (fw_sink (bi_up bc')) (down_reads bi_tcp_stream_host eh (bh, ah, tblh)) \<longrightarrow>
     concat (fw_sink (bi_down bh')) = concat (up_reads bi_tcp_stream_client ec (bc, ac, tblc)))"
  using assms bi_start_init[OF assms(1)] bi_start_init[OF assms(2)]
    tcp_client_up_direction[of "(bc, ac, tblc)" ec] tcp_host_down_direction[of "(bh, ah, tblh)" eh]
  by (auto simp: quic_delivers_def quic_delivers_all_def intro: prefix_order.trans)

text \<open>C3. TCP, from the service to the application: the same in the other direction.\<close>

theorem tcp_downlink_end_to_end:
  assumes "bi_start cc tc = Returned (bc, ac)" and "bi_start ch th = Returned (bh, ah)"
    and "run_all bi_tcp_stream_client ec (bc, ac, tblc) = (bc', xc)"
    and "run_all bi_tcp_stream_host eh (bh, ah, tblh) = (bh', xh)"
    and "quic_delivers (fw_sink (bi_up bh')) (down_reads bi_tcp_stream_client ec (bc, ac, tblc))"
  shows "prefix (concat (fw_sink (bi_down bc')))
      (concat (up_reads bi_tcp_stream_host eh (bh, ah, tblh))) \<and>
    (settled (fw_pc (bi_up bh')) \<and> settled (fw_pc (bi_down bc')) \<and>
     quic_delivers_all (fw_sink (bi_up bh')) (down_reads bi_tcp_stream_client ec (bc, ac, tblc)) \<longrightarrow>
     concat (fw_sink (bi_down bc')) = concat (up_reads bi_tcp_stream_host eh (bh, ah, tblh)))"
  using assms bi_start_init[OF assms(1)] bi_start_init[OF assms(2)]
    tcp_host_up_direction[of "(bh, ah, tblh)" eh] tcp_client_down_direction[of "(bc, ac, tblc)" ec]
  by (auto simp: quic_delivers_def quic_delivers_all_def intro: prefix_order.trans)

text \<open>A concrete pair of sessions that carries the bytes 1, 2, 3.\<close>

definition data_poll :: "'r \<Rightarrow> 'r poll" where
  "data_poll r = \<lparr>stop_changed = None, read_ready = Some (Ok r), slept = False\<rparr>"

definition up_once :: "bytes \<Rightarrow> stream_event list" where
  "up_once bs = map Up_Ev [Ev_Top 0, Ev_Poll (data_poll bs) 0, Ev_Wrote W_Ok]"

definition down_once :: "bytes \<Rightarrow> stream_event list" where
  "down_once bs = map Down_Ev [Ev_Top 0, Ev_Poll (data_poll (Some bs)) 0, Ev_Wrote W_Ok]"

definition fresh_session :: "('o, 'p) bi" where
  "fresh_session = \<lparr>bi_conn = demo_conn, bi_down = fwd_init, bi_up = fwd_init, bi_returned = False\<rparr>"

lemmas demo_defs = up_reads_def down_reads_def data_poll_def up_once_def down_once_def fresh_session_def fwd_init_def

lemma fresh_session_start: "bi_start demo_conn 0 = Returned (fresh_session, 0)"
  by (simp add: bi_start_def now_secs_def fresh_session_def)

lemma demo_up_run:
  "run_all bi_tcp_stream_client (up_once [1, 2] @ up_once [3]) (fresh_session, 0, []) =
     (fresh_session\<lparr>bi_up := \<lparr>fw_pc = At_Top, fw_sink = [[1, 2], [3]]\<rparr>\<rparr>, 0, [])"
  "run_all bi_tcp_stream_host (up_once [1, 2] @ up_once [3]) (fresh_session, 0, []) =
     (fresh_session\<lparr>bi_up := \<lparr>fw_pc = At_Top, fw_sink = [[1, 2], [3]]\<rparr>\<rparr>, 0, [])"
  by (simp_all add: bi_tcp_stream_client_def bi_tcp_stream_host_def fwd_defs demo_defs fwd_handlers
      now_secs_def select_biased_def socket_verdict_def)

lemma demo_down_run:
  "run_all bi_tcp_stream_host (down_once [1] @ down_once [2, 3]) (fresh_session, 0, []) =
     (fresh_session\<lparr>bi_down := \<lparr>fw_pc = At_Top, fw_sink = [[1], [2, 3]]\<rparr>\<rparr>, 0, [])"
  "run_all bi_tcp_stream_client (down_once [1] @ down_once [2, 3]) (fresh_session, 0, []) =
     (fresh_session\<lparr>bi_down := \<lparr>fw_pc = At_Top, fw_sink = [[1], [2, 3]]\<rparr>\<rparr>, 0, [])"
  "down_reads bi_tcp_stream_host (down_once [1] @ down_once [2, 3]) (fresh_session, 0, []) =
     [Some [1], Some [2, 3]]"
  "down_reads bi_tcp_stream_client (down_once [1] @ down_once [2, 3]) (fresh_session, 0, []) =
     [Some [1], Some [2, 3]]"
  by (simp_all add: bi_tcp_stream_client_def bi_tcp_stream_host_def fwd_defs demo_defs fwd_handlers
      now_secs_def select_biased_def)

theorem tcp_uplink_end_to_end_witness:
  "concat (fw_sink (bi_down (fst (run_all bi_tcp_stream_host (down_once [1] @ down_once [2, 3])
     (fresh_session, 0, []))))) =
   concat (up_reads bi_tcp_stream_client (up_once [1, 2] @ up_once [3]) (fresh_session, 0, []))"
  using tcp_uplink_end_to_end[OF fresh_session_start fresh_session_start demo_up_run(1) demo_down_run(1)]
  unfolding demo_down_run
  by (simp add: quic_delivers_def quic_delivers_all_def tunnel_payload_def)

theorem tcp_downlink_end_to_end_witness:
  "concat (fw_sink (bi_down (fst (run_all bi_tcp_stream_client (down_once [1] @ down_once [2, 3])
     (fresh_session, 0, []))))) =
   concat (up_reads bi_tcp_stream_host (up_once [1, 2] @ up_once [3]) (fresh_session, 0, []))"
  using tcp_downlink_end_to_end[OF fresh_session_start fresh_session_start demo_down_run(2) demo_up_run(2)]
  unfolding demo_down_run
  by (simp add: quic_delivers_def quic_delivers_all_def tunnel_payload_def)

text \<open>The client's UDP session: its loop to the tunnel, with the shared queue.\<close>

fun udp_arrivals :: "udp_event list \<Rightarrow> dgram_queue" where
  "udp_arrivals [] = []"
| "udp_arrivals (Up_Ev (Up_Arrive addr d) # es) = (addr, d) # udp_arrivals es"
| "udp_arrivals (_ # es) = udp_arrivals es"

lemma udp_up_trace:
  assumes "run_all bi_udp_client es (b, (a, q), tbl) = (b', (a', q'), tbl')"
  shows "\<exists>tr. arrivals tr = udp_arrivals es \<and>
    udp_up_run (client_local_addr (bi_conn b)) tr (bi_up b, q) = (bi_up b', q')"
  using assms
proof (induction es arbitrary: b a q tbl)
  case Nil
  then show ?case by (intro exI[of _ "[]"]) simp
next
  case (Cons e es)
  obtain b1 a1 q1 tbl1 where st: "bi_udp_client e (b, (a, q), tbl) = (b1, (a1, q1), tbl1)"
    by (metis prod_cases3 surj_pair)
  have conn: "bi_conn b1 = bi_conn b"
    using udp_client.step_cases[OF st] by simp
  obtain tr where tr: "arrivals tr = udp_arrivals es"
    "udp_up_run (client_local_addr (bi_conn b)) tr (bi_up b1, q1) = (bi_up b', q')"
    using Cons.IH[of b1 a1 q1 tbl1] Cons.prems st conn by auto
  show ?case
  proof (cases e)
    case (Down_Ev d)
    with st have "bi_up b1 = bi_up b \<and> q1 = q"
      by (auto simp: bi_udp_client_def Let_def udp_client_down_def split: prod.splits)
    with tr Down_Ev show ?thesis by (intro exI[of _ tr]) simp
  next
    case Join
    with st have "bi_up b1 = bi_up b \<and> q1 = q"
      by (auto simp: bi_udp_client_def Let_def split: if_splits)
    with tr Join show ?thesis by (intro exI[of _ tr]) simp
  next
    case (Up_Ev u)
    with st have "udp_client_up (client_local_addr (bi_conn b)) u (bi_up b, a, q) = (bi_up b1, a1, q1)"
      by (auto simp: bi_udp_client_def Let_def split: prod.splits)
    moreover have "arrivals ((a, u) # tr) = udp_arrivals (e # es)"
      using tr(1) Up_Ev by (cases u) auto
    ultimately show ?thesis
      using tr(2) by (intro exI[of _ "(a, u) # tr"]) simp
  qed
qed

text \<open>What a client's session takes from the shared socket and writes to the stream.\<close>

lemma udp_client_up_direction:
  assumes "bi_up b = fwd_init" and "run_all bi_udp_client es (b, (a, q), tbl) = (b', (a', q'), tbl')"
  shows "\<exists>taken. taken @ q' = q @ udp_arrivals es \<and> (\<forall>x \<in> set taken. fst x = client_local_addr (bi_conn b)) \<and>
    (fw_pc (bi_up b') \<noteq> Panicked \<longrightarrow> fw_sink (bi_up b') @ pending (fw_pc (bi_up b')) = dgram_chunks taken)"
proof -
  obtain tr where tr: "arrivals tr = udp_arrivals es"
    "udp_up_run (client_local_addr (bi_conn b)) tr (fwd_init, q) = (bi_up b', q')"
    using udp_up_trace[OF assms(2)] assms(1) by auto
  from udp_up_run_takes[OF tr(2)] show ?thesis by (auto simp: tr(1) fwd_init_def)
qed

text \<open>
  C4. UDP, from the applications to the service: a client's session takes from the shared socket
  only datagrams of its own application, in order from the head of the queue, and the bytes of
  the datagrams the host has sent to the service are a prefix of the concatenated first 1024
  bytes of those, unless the client's loop panicked.
\<close>

theorem udp_uplink_end_to_end:
  assumes "bi_start cc tc = Returned (bc, ac)" and "bi_udp_host_start True ch th = Returned (bh, ah)"
    and "run_all bi_udp_client ec (bc, (ac, q), tblc) = (bc', (ac', q'), tblc')"
    and "run_all bi_udp_host eh (bh, ah, tblh) = (bh', xh)"
    and "quic_delivers (fw_sink (bi_up bc')) (down_reads bi_udp_host eh (bh, ah, tblh))"
  shows "\<exists>taken. taken @ q' = q @ udp_arrivals ec \<and> (\<forall>x \<in> set taken. fst x = client_local_addr cc) \<and>
    (fw_pc (bi_up bc') = Panicked \<or>
     prefix (concat (fw_sink (bi_down bh'))) (concat (dgram_chunks taken)))"
proof -
  have start: "bi_start ch th = Returned (bh, ah)"
    using assms(2) by (simp add: bi_udp_host_start_def)
  note init = bi_start_init[OF assms(1)] bi_start_init[OF start]
  from udp_client_up_direction[OF _ assms(3)] init(1) obtain taken where taken:
    "taken @ q' = q @ udp_arrivals ec" "\<forall>x \<in> set taken. fst x = client_local_addr cc"
    "fw_pc (bi_up bc') \<noteq> Panicked \<longrightarrow> fw_sink (bi_up bc') @ pending (fw_pc (bi_up bc')) = dgram_chunks taken"
    by auto
  have "prefix (concat (fw_sink (bi_down bh'))) (concat (fw_sink (bi_up bc')))"
    using udp_host_down_direction(1)[of "(bh, ah, tblh)" eh] init(2) assms(4,5)
    by (auto simp: quic_delivers_def intro: prefix_order.trans)
  then have "fw_pc (bi_up bc') \<noteq> Panicked \<longrightarrow>
      prefix (concat (fw_sink (bi_down bh'))) (concat (dgram_chunks taken))"
    using taken(3) by (metis concat_append prefix_prefix)
  with taken show ?thesis by blast
qed

definition udp_up_once :: "udp_event list" where
  "udp_up_once =
     map Up_Ev [Up_Top 0,
       Up_Poll \<lparr>up_stop = None, up_peek_err = False, up_slept = False, up_recv_ok = True\<rparr> 0, Up_Wrote W_Ok]"

lemma demo_udp_up:
  "run_all bi_udp_client udp_up_once
     (fresh_session, (0, [(V4 2130706433 5000, [1]), (V4 1 1, [9]), (V4 2130706433 5000, [2])]), []) =
   (fresh_session\<lparr>bi_up := \<lparr>fw_pc = At_Top, fw_sink = [[1]]\<rparr>\<rparr>,
     (0, [(V4 1 1, [9]), (V4 2130706433 5000, [2])]), [])"
  by (simp add: bi_udp_client_def udp_up_once_def fresh_session_def fwd_init_def demo_conn_def
      loop_top_def now_secs_def udp_up_select_def peek_from_def select_biased_def on_verdict_def
      socket_verdict_def TUNNEL_FORWARDER_BUFFER_SIZE_def)

lemma udp_down_once_run:
  assumes "bs \<noteq> []" and "length bs \<le> 1024"
  shows "run_all bi_udp_host (down_once bs) (fresh_session, 0, []) =
      (fresh_session\<lparr>bi_down := \<lparr>fw_pc = At_Top, fw_sink = [bs]\<rparr>\<rparr>, 0, [])"
    and "down_reads bi_udp_host (down_once bs) (fresh_session, 0, []) = [Some bs]"
  using assms
  by (simp_all add: bi_udp_host_def fwd_defs demo_defs fwd_handlers now_secs_def select_biased_def)

lemma fresh_udp_host_start: "bi_udp_host_start True demo_conn 0 = Returned (fresh_session, 0)"
  by (simp add: bi_udp_host_start_def fresh_session_start)

theorem udp_uplink_end_to_end_witness:
  "\<exists>taken. taken @ [(V4 1 1, [9]), (V4 2130706433 5000, [2])] =
       [(V4 2130706433 5000, [1]), (V4 1 1, [9]), (V4 2130706433 5000, [2])] \<and>
     prefix (concat (fw_sink (bi_down (fst (run_all bi_udp_host (down_once [1]) (fresh_session, 0, []))))))
       (concat (dgram_chunks taken))"
proof -
  have ne: "[1 :: byte] \<noteq> []" "length [1 :: byte] \<le> 1024" by simp_all
  have no: "udp_arrivals udp_up_once = []" by (simp add: udp_up_once_def)
  have conn: "client_local_addr demo_conn = V4 2130706433 5000" by (simp add: demo_conn_def)
  show ?thesis
    using udp_uplink_end_to_end[OF fresh_session_start fresh_udp_host_start demo_udp_up
        udp_down_once_run(1)[OF ne]]
    unfolding udp_down_once_run(2)[OF ne] udp_down_once_run(1)[OF ne] no
    by (auto simp: quic_delivers_def tunnel_payload_def)
qed

lemma addressed_sink:
  "\<forall>x \<in> set (fw_sink f). fst x = addr \<Longrightarrow>
   \<forall>x \<in> set (fw_sink (fwd_run verdict (dgram_writer_to addr) es f)). fst x = addr"
proof (induction es arbitrary: f)
  case (Cons ae es)
  obtain a e where ae: "ae = (a, e)" by fastforce
  have "\<forall>x \<in> set (fw_sink (fst (fwd_step verdict (dgram_writer_to addr) e (f, a)))). fst x = addr"
  proof (cases e)
    case (Ev_Wrote w)
    with Cons.prems show ?thesis by (cases "fw_pc f"; cases w) auto
  next
    case (Ev_Top t)
    with Cons.prems show ?thesis by (cases "fw_pc f") auto
  next
    case (Ev_Poll p t)
    with Cons.prems show ?thesis by (cases "fw_pc f") (auto split: prod.splits)
  qed
  with Cons.IH ae show ?case by simp
qed simp

lemma udp_client_down_direction:
  assumes "bi_down b = fwd_init" and "run_all bi_udp_client es (b, s, tbl) = (b', s', tbl')"
  shows "\<forall>x \<in> set (fw_sink (bi_down b')). fst x = client_local_addr (bi_conn b)"
    and "prefix (concat (map snd (fw_sink (bi_down b'))))
      (concat (map tunnel_payload (down_reads (bi_step (udp_client_down (client_local_addr (bi_conn b)))
        (udp_client_up (client_local_addr (bi_conn b))) disconnect_local_connection) es (b, s, tbl))))"
proof -
  let ?addr = "client_local_addr (bi_conn b)"
  have "\<exists>a. fst (udp_client_down ?addr e (f, s)) = fst (fwd_step tunnel_verdict (dgram_writer_to ?addr) e (f, a))"
    for e f s
    by (cases s) (auto simp: udp_client_down_def split: prod.splits intro: exI[of _ "fst s"])
  from down_trace[OF this, of "udp_client_up ?addr" disconnect_local_connection es "(b, s, tbl)"]
  obtain tr where tr: "bi_down b' = fwd_run tunnel_verdict (dgram_writer_to ?addr) tr fwd_init"
    "down_offers (bi_step (udp_client_down ?addr) (udp_client_up ?addr) disconnect_local_connection)
       es (b, s, tbl) = run_offers tunnel_verdict (dgram_writer_to ?addr) tr fwd_init"
    using assms by (auto simp: run_all_bi_udp_client)
  show "\<forall>x \<in> set (fw_sink (bi_down b')). fst x = ?addr"
    unfolding tr by (rule addressed_sink) (simp add: fwd_init_def)
  show "prefix (concat (map snd (fw_sink (bi_down b'))))
      (concat (map tunnel_payload (down_reads (bi_step (udp_client_down ?addr)
        (udp_client_up ?addr) disconnect_local_connection) es (b, s, tbl))))"
    unfolding down_reads_taken tr by (rule tunnel_to_addressed.init_transfer)
qed

lemma udp_client_down_offers:
  "down_offers bi_udp_client es (b, s, tbl) =
     down_offers (bi_step (udp_client_down (client_local_addr (bi_conn b)))
       (udp_client_up (client_local_addr (bi_conn b))) disconnect_local_connection) es (b, s, tbl)"
proof (induction es arbitrary: b s tbl)
  case (Cons e es)
  obtain b' s' tbl' where st: "bi_udp_client e (b, s, tbl) = (b', s', tbl')"
    by (cases "bi_udp_client e (b, s, tbl)")
  with udp_client.step_cases[OF st] Cons.IH[of b' s' tbl'] show ?case
    by (simp add: bi_udp_client_def Let_def)
qed simp

lemma udp_client_down_reads:
  "down_reads bi_udp_client es (b, s, tbl) =
     down_reads (bi_step (udp_client_down (client_local_addr (bi_conn b)))
       (udp_client_up (client_local_addr (bi_conn b))) disconnect_local_connection) es (b, s, tbl)"
  by (simp add: down_reads_def udp_client_down_offers)

text \<open>
  C5. UDP, from the service to the application: every datagram the client sends goes to the
  application its session belongs to, and the bytes sent are a prefix of the bytes of the
  datagrams that the service has sent to the host's socket, each cut at the 1024 bytes of the
  host's buffer, provided the QUIC stream delivers a prefix.
\<close>

theorem udp_downlink_end_to_end:
  assumes "bi_start cc tc = Returned (bc, ac)" and "bi_udp_host_start True ch th = Returned (bh, ah)"
    and "run_all bi_udp_client ec (bc, s, tblc) = (bc', xc)"
    and "run_all bi_udp_host eh (bh, ah, tblh) = (bh', xh)"
    and "quic_delivers (fw_sink (bi_up bh')) (down_reads bi_udp_client ec (bc, s, tblc))"
  shows "(\<forall>x \<in> set (fw_sink (bi_down bc')). fst x = client_local_addr cc) \<and>
    prefix (concat (map snd (fw_sink (bi_down bc'))))
      (concat (map (take TUNNEL_FORWARDER_BUFFER_SIZE) (up_offers bi_udp_host eh (bh, ah, tblh))))"
proof -
  have start: "bi_start ch th = Returned (bh, ah)"
    using assms(2) by (simp add: bi_udp_host_start_def)
  note init = bi_start_init[OF assms(1)] bi_start_init[OF start]
  obtain s' tbl' where run: "run_all bi_udp_client ec (bc, s, tblc) = (bc', s', tbl')"
    using assms(3) by (cases xc) auto
  have "prefix (concat (fw_sink (bi_up bh'))) (concat (up_reads bi_udp_host eh (bh, ah, tblh)))"
    using udp_host_up_direction(1)[of "(bh, ah, tblh)" eh] init(2) assms(4) by simp
  then show ?thesis
    using udp_client_down_direction[OF _ run] init(1) assms(5)
    by (auto simp: quic_delivers_def udp_client_down_reads up_reads_def read_into_buf_def[abs_def]
        intro: prefix_order.trans)
qed

theorem udp_downlink_end_to_end_witness:
  "list_all (\<lambda>x. fst x = V4 2130706433 5000) (fw_sink (bi_down (fst (run_all bi_udp_client
      (map Down_Ev [Ev_Top 0, Ev_Poll (data_poll (Some [4, 5])) 0, Ev_Wrote W_Ok])
      (fresh_session, (0, []), [])))))"
proof -
  have up: "run_all bi_udp_host (up_once [4, 5]) (fresh_session, 0, []) =
      (fresh_session\<lparr>bi_up := \<lparr>fw_pc = At_Top, fw_sink = [[4, 5]]\<rparr>\<rparr>, 0, [])"
    by (simp add: bi_udp_host_def fwd_defs demo_defs fwd_handlers now_secs_def select_biased_def
        socket_verdict_def)
  let ?es = "map Down_Ev [Ev_Top 0, Ev_Poll (data_poll (Some [4, 5])) 0, Ev_Wrote W_Ok] :: udp_event list"
  have down: "run_all bi_udp_client ?es (fresh_session, (0, []), []) =
      (fresh_session\<lparr>bi_down := \<lparr>fw_pc = At_Top, fw_sink = [(V4 2130706433 5000, [4, 5])]\<rparr>\<rparr>, (0, []), [])"
    and reads: "down_reads bi_udp_client ?es (fresh_session, (0, []), []) = [Some [4, 5]]"
    by (simp_all add: bi_udp_client_def udp_client_down_def demo_defs demo_conn_def fwd_handlers
        now_secs_def select_biased_def)
  show ?thesis
    using udp_downlink_end_to_end[OF fresh_session_start fresh_udp_host_start down up]
    unfolding reads down
    by (simp add: quic_delivers_def tunnel_payload_def demo_conn_def)
qed

lemma down_offers_append:
  "down_offers step (es @ es') x = down_offers step es x @ down_offers step es' (run_all step es x)"
  by (induction es arbitrary: x) auto

lemma udp_down_pieces:
  assumes "\<forall>bs \<in> set pieces. bs \<noteq> [] \<and> length bs \<le> TUNNEL_FORWARDER_BUFFER_SIZE"
  shows "run_all bi_udp_host (concat (map down_once pieces)) (fresh_session\<lparr>bi_down := \<lparr>fw_pc = At_Top, fw_sink = xs\<rparr>\<rparr>, 0, []) =
      (fresh_session\<lparr>bi_down := \<lparr>fw_pc = At_Top, fw_sink = xs @ pieces\<rparr>\<rparr>, 0, []) \<and>
    down_reads bi_udp_host (concat (map down_once pieces)) (fresh_session\<lparr>bi_down := \<lparr>fw_pc = At_Top, fw_sink = xs\<rparr>\<rparr>, 0, []) =
      map Some pieces"
  using assms
proof (induction pieces arbitrary: xs)
  case (Cons bs pieces)
  have fits: "bs \<noteq> []" "length bs \<le> 1024" using Cons.prems by (simp_all add: TUNNEL_FORWARDER_BUFFER_SIZE_def)
  then have "run_all bi_udp_host (down_once bs) (fresh_session\<lparr>bi_down := \<lparr>fw_pc = At_Top, fw_sink = xs\<rparr>\<rparr>, 0, []) =
      (fresh_session\<lparr>bi_down := \<lparr>fw_pc = At_Top, fw_sink = xs @ [bs]\<rparr>\<rparr>, 0, [])"
    "down_offers bi_udp_host (down_once bs) (fresh_session\<lparr>bi_down := \<lparr>fw_pc = At_Top, fw_sink = xs\<rparr>\<rparr>, 0, []) = [Some bs]"
    by (simp_all add: bi_udp_host_def fwd_defs demo_defs fwd_handlers now_secs_def select_biased_def)
  with Cons.IH[of "xs @ [bs]"] Cons.prems fits show ?case
    by (simp add: down_reads_def down_offers_append)
qed (simp add: down_reads_def)

text \<open>
  C35. The tunnel does not keep the boundaries of datagrams: whatever the client's loop has written
  to the stream and however its bytes are cut into pieces of 1 to 1024 bytes, the stream may
  deliver one piece to each read, and the host then sends these pieces to the service as the
  datagrams. So datagrams may be joined and may be split.
\<close>

theorem udp_boundaries_not_kept:
  assumes "concat pieces = concat dgrams"
    and "\<forall>bs \<in> set pieces. bs \<noteq> [] \<and> length bs \<le> TUNNEL_FORWARDER_BUFFER_SIZE"
  shows "\<exists>eh. quic_delivers_all dgrams (down_reads bi_udp_host eh (fresh_session, 0, [])) \<and>
    fw_sink (bi_down (fst (run_all bi_udp_host eh (fresh_session, 0, [])))) = pieces"
proof -
  have start: "fresh_session\<lparr>bi_down := \<lparr>fw_pc = At_Top, fw_sink = []\<rparr>\<rparr> = (fresh_session :: stream_bi)"
    by (simp add: fresh_session_def fwd_init_def)
  from udp_down_pieces[OF assms(2), of "[]", unfolded start] assms(1) show ?thesis
    by (intro exI[of _ "concat (map down_once pieces)"])
      (simp add: quic_delivers_all_def tunnel_payload_def comp_def)
qed

theorem udp_boundaries_not_kept_witness:
  "(\<exists>eh. quic_delivers_all [[1], [2]] (down_reads bi_udp_host eh (fresh_session, 0, [])) \<and>
     fw_sink (bi_down (fst (run_all bi_udp_host eh (fresh_session, 0, [])))) = [[1, 2]]) \<and>
   (\<exists>eh. quic_delivers_all [[1, 2]] (down_reads bi_udp_host eh (fresh_session, 0, [])) \<and>
     fw_sink (bi_down (fst (run_all bi_udp_host eh (fresh_session, 0, [])))) = [[1], [2]])"
  using udp_boundaries_not_kept[of "[[1, 2]]" "[[1], [2]]"] udp_boundaries_not_kept[of "[[1], [2]]" "[[1, 2]]"]
  by (simp add: TUNNEL_FORWARDER_BUFFER_SIZE_def)

subsection \<open>Sessions refine the pipe\<close>

text \<open>
  C1. Each direction of a TCP session, and each direction of the host's UDP session, implements
  the pipe: from the start of the session, every interleaving of events takes the empty pipe
  through pipe steps to the pipe that has taken in what the loop read and given out what it wrote.
\<close>

theorem sessions_refine_pipe:
  assumes "bi_start c t = Returned (b, a)"
  shows "pipe_step\<^sup>*\<^sup>* empty_pipe
      \<lparr>p_taken = concat (up_reads bi_tcp_stream_client es (b, a, tbl)),
       p_given = concat (fw_sink (bi_up (fst (run_all bi_tcp_stream_client es (b, a, tbl)))))\<rparr> \<and>
    pipe_step\<^sup>*\<^sup>* empty_pipe
      \<lparr>p_taken = concat (map tunnel_payload (down_reads bi_tcp_stream_client es (b, a, tbl))),
       p_given = concat (fw_sink (bi_down (fst (run_all bi_tcp_stream_client es (b, a, tbl)))))\<rparr> \<and>
    pipe_step\<^sup>*\<^sup>* empty_pipe
      \<lparr>p_taken = concat (up_reads bi_tcp_stream_host es (b, a, tbl)),
       p_given = concat (fw_sink (bi_up (fst (run_all bi_tcp_stream_host es (b, a, tbl)))))\<rparr> \<and>
    pipe_step\<^sup>*\<^sup>* empty_pipe
      \<lparr>p_taken = concat (map tunnel_payload (down_reads bi_tcp_stream_host es (b, a, tbl))),
       p_given = concat (fw_sink (bi_down (fst (run_all bi_tcp_stream_host es (b, a, tbl)))))\<rparr> \<and>
    pipe_step\<^sup>*\<^sup>* empty_pipe
      \<lparr>p_taken = concat (up_reads bi_udp_host es (b, a, tbl)),
       p_given = concat (fw_sink (bi_up (fst (run_all bi_udp_host es (b, a, tbl)))))\<rparr> \<and>
    pipe_step\<^sup>*\<^sup>* empty_pipe
      \<lparr>p_taken = concat (map tunnel_payload (down_reads bi_udp_host es (b, a, tbl))),
       p_given = concat (fw_sink (bi_down (fst (run_all bi_udp_host es (b, a, tbl)))))\<rparr>"
proof -
  have init: "bi_down (fst (b, a, tbl)) = fwd_init" "bi_up (fst (b, a, tbl)) = fwd_init"
    using bi_start_init[OF assms] by simp_all
  have ex: "\<exists>a. fst (fwd_step v w e (f, s)) = fst (fwd_step v w e (f, a))" for v :: "'x \<Rightarrow> verdict" and w :: "write_result \<Rightarrow> bytes \<Rightarrow> bytes list" and e f s
    by blast
  note ups = up_trace[where x = "(b, a, tbl)" and es = es, unfolded init,
      of "fwd_step socket_verdict stream_writer" socket_verdict stream_writer, OF ex]
  note downs = down_trace[where x = "(b, a, tbl)" and es = es, unfolded init,
      of "fwd_step tunnel_verdict w" tunnel_verdict w for w, OF ex]
  show ?thesis
    unfolding bi_tcp_stream_client_def bi_tcp_stream_host_def bi_udp_host_def fwd_defs down_reads_taken up_reads_def
    using ups[of "fwd_step tunnel_verdict stream_writer" disconnect_local_connection]
      ups[of "fwd_step tunnel_verdict stream_writer" disconnect_local_client_connection]
      ups[of "fwd_step tunnel_verdict dgram_writer" disconnect_local_client_connection]
      downs[of stream_writer "fwd_step socket_verdict stream_writer" disconnect_local_connection]
      downs[of stream_writer "fwd_step socket_verdict stream_writer" disconnect_local_client_connection]
      downs[of dgram_writer "fwd_step socket_verdict stream_writer" disconnect_local_client_connection]
      socket_to_stream.run_refines tunnel_to_stream.run_refines tunnel_to_dgram.run_refines
    by (intro conjI) auto
qed

theorem sessions_refine_pipe_witness:
  "pipe_step\<^sup>*\<^sup>* empty_pipe
      \<lparr>p_taken = concat (up_reads bi_tcp_stream_client (up_once [1, 2] @ up_once [3]) (fresh_session, 0, [])),
       p_given = [1, 2, 3]\<rparr> \<and>
   concat (up_reads bi_tcp_stream_client (up_once [1, 2] @ up_once [3]) (fresh_session, 0, [])) = [1, 2, 3]"
proof
  show "pipe_step\<^sup>*\<^sup>* empty_pipe
      \<lparr>p_taken = concat (up_reads bi_tcp_stream_client (up_once [1, 2] @ up_once [3]) (fresh_session, 0, [])),
       p_given = [1, 2, 3]\<rparr>"
    using sessions_refine_pipe[OF fresh_session_start, of "up_once [1, 2] @ up_once [3]" "[]"]
    unfolding demo_up_run by simp
  show "concat (up_reads bi_tcp_stream_client (up_once [1, 2] @ up_once [3]) (fresh_session, 0, [])) = [1, 2, 3]"
    by (simp add: bi_tcp_stream_client_def fwd_defs demo_defs fwd_handlers
        now_secs_def select_biased_def socket_verdict_def)
qed

end
