(* ===== verification/Request.thy ===== *)
theory Request
  imports Client_Behaviour Host_Behaviour Pipe
begin

section \<open>A request across both machines\<close>

text \<open>
  The client's listener and the host's task together: an application that the listener accepts
  makes it open a stream and send a connection request, which \<open>receive_packet\<close> decodes on the host
  from the bytes of a stream, and which makes the host register the connection and open its
  socket. Both tasks then forward between the same two streams. The theory composes the steps of
  both tasks, the control packets and the sessions of \<open>Pipe\<close>.
\<close>

subsection \<open>The two ends of a new session\<close>

definition client_lcc :: "client_run \<Rightarrow> socket_addr \<Rightarrow> local_client_connection" where
  "client_lcc r addr =
     \<lparr>client_local_addr = addr, client_virtual_addr = V4 ipv4_unspecified 0, last_active = cr_next_cell r\<rparr>"

definition host_lcc :: "host_run \<Rightarrow> socket_addr \<Rightarrow> local_client_connection" where
  "host_lcc h addr =
     \<lparr>client_local_addr = addr, client_virtual_addr = get_unspecified (is_ipv4 addr), last_active = next_cell h\<rparr>"

definition session_of :: "local_client_connection \<Rightarrow> ('o, 'p) bi" where
  "session_of lcc = \<lparr>bi_conn = lcc, bi_down = fwd_init, bi_up = fwd_init, bi_returned = False\<rparr>"

definition client_request_events :: "listen_poll \<Rightarrow> time \<Rightarrow> client_event list" where
  "client_request_events p t = [Cev_Poll p, Cev_Open (Ok ()), Cev_Sent (Ok ()), Cev_Start t]"

definition host_request_events ::
    "(receive_packet_error, client2host_control_msg) result \<Rightarrow> sock_env \<Rightarrow> time \<Rightarrow> host_event list" where
  "host_request_events pkt senv t = [Ev_Accept_Bi (Ok ()), Ev_Packet pkt, Ev_Sockets senv t]"

lemma bi_start_session:
  "now_secs t = Some now \<Longrightarrow> bi_start lcc t = Returned (session_of lcc, now)"
  by (simp add: bi_start_def session_of_def)

lemma session_of_simps [simp]:
  "bi_conn (session_of lcc) = lcc" "bi_down (session_of lcc) = fwd_init"
  "bi_up (session_of lcc) = fwd_init" "\<not> bi_returned (session_of lcc)"
  by (simp_all add: session_of_def)

text \<open>The listener after the request: registered, started and about to forward.\<close>

lemma client_request_run:
  assumes "client_inv r" and "cr_pc r = C_Select True" and "lp_stop p = None"
    and "client_ready r p = Some (Ok addr)" and "now_secs t = Some now"
  shows "run_all client_step (client_request_events p t) r =
    r\<lparr>cr_requests := cr_requests r @ [ConnReq addr],
      cr_cells := (cr_cells r)(cr_next_cell r := now), cr_next_cell := Suc (cr_next_cell r),
      cr_table := [(addr, client_lcc r addr)],
      cr_pc := (case cr_protocol r of
         Tcp \<Rightarrow> C_Tcp (session_of (client_lcc r addr)) | Udp \<Rightarrow> C_Udp (session_of (client_lcc r addr)))\<rparr>"
proof -
  have tbl: "cr_table r = []"
    using assms(1,2) by (simp add: client_inv_def)
  have sel: "client_select True r p = C_Open addr"
    using assms(3,4) tbl by (simp add: client_select_def hm_contains_def hm_get_def)
  show ?thesis
    using assms(2,5) tbl sel
    by (cases "cr_protocol r")
      (simp_all add: client_request_events_def run_defs Let_def bi_start_session client_lcc_def hm_insert_def)
qed

text \<open>The host's task after the request, which came from a client that is registered.\<close>

lemma host_request_run:
  assumes "hr_pc h = H_Accept_Bi conn" and "remote_node_id conn = Some key"
    and "hm_get (tunnel_clients h) key = Some client"
    and "host_connect_service (hr_protocol h) (hr_local_addr h) (get_unspecified (is_ipv4 addr)) (sys senv) = Ok ()"
    and "peer_addr_ok senv" and "now_secs t = Some now"
  shows "run_all host_step (host_request_events (Ok (ConnReq addr)) senv t) h =
    h\<lparr>cells := (cells h)(next_cell h := now), next_cell := Suc (next_cell h),
      tables := (tables h)(local_connections client :=
        hm_insert (get_unspecified (is_ipv4 addr)) (host_lcc h addr) (tables h (local_connections client))),
      hr_pc := H_Forward conn client (session_of (host_lcc h addr))\<rparr>"
  using assms
  by (cases "hr_protocol h")
    (simp_all add: host_request_events_def run_defs Let_def bi_udp_host_start_def bi_start_session host_lcc_def)

text \<open>The request as it crosses the network: sent, delivered in chunks, received.\<close>

lemma request_crosses:
  assumes "codec_ok encode decode (ConnReq addr)"
    and "send_packet encode env (ConnReq addr) = (Ok (), Some u)"
    and "concat chunks = us_data u"
    and "receive_packet decode (Ok ()) (map (\<lambda>c. Ok (Some c)) chunks @ [Ok None]) = Some pkt"
  shows "pkt = Ok (ConnReq addr)"
  using packet_roundtrip[OF assms(1) _ _ assms(3), of env "[]"] assms(2,4) by simp

subsection \<open>The sessions of both tasks\<close>

text \<open>The state each session starts from, and the tasks after the request and some of its events.\<close>

definition client_start :: "client_run \<Rightarrow> socket_addr \<Rightarrow> 's \<Rightarrow> ('o, 'p) bi \<times> 's \<times> conn_table" where
  "client_start r addr s = (session_of (client_lcc r addr), s, [(addr, client_lcc r addr)])"

definition host_begin :: "host_run \<Rightarrow> connected_client \<Rightarrow> socket_addr \<Rightarrow> u64 \<Rightarrow> stream_bi \<times> u64 \<times> conn_table" where
  "host_begin h client addr now =
     (session_of (host_lcc h addr), now, hm_insert (get_unspecified (is_ipv4 addr)) (host_lcc h addr)
        (tables h (local_connections client)))"

lemma start_tuples:
  "(session_of (client_lcc r addr), s, [(addr, client_lcc r addr)]) = client_start r addr s"
  "(session_of (host_lcc h addr), now, hm_insert (get_unspecified (is_ipv4 addr)) (host_lcc h addr)
      (tables h (local_connections client))) = host_begin h client addr now"
  by (simp_all add: client_start_def host_begin_def)

lemma start_simps [simp]:
  "fst (client_start r addr s) = session_of (client_lcc r addr)"
  "fst (host_begin h client addr now) = session_of (host_lcc h addr)"
  by (simp_all add: client_start_def host_begin_def)

lemma client_tcp_session:
  assumes "client_inv r" and "cr_pc r = C_Select True" and "lp_stop p = None"
    and "client_ready r p = Some (Ok addr)" and "now_secs t = Some now" and "cr_protocol r = Tcp"
    and "Join \<notin> set es" and "run_all bi_tcp_stream_client es (client_start r addr now) = (b, y)"
  shows "cr_pc (run_all client_step (client_request_events p t @ map Cev_Tcp es) r) = C_Tcp b"
proof -
  let ?r1 = "run_all client_step (client_request_events p t) r"
  note r1 = client_request_run[OF assms(1-5)]
  have pc: "cr_pc ?r1 = C_Tcp (session_of (client_lcc r addr))"
    and x: "(session_of (client_lcc r addr),
        cr_cells ?r1 (last_active (bi_conn (session_of (client_lcc r addr) :: stream_bi))), cr_table ?r1) =
      client_start r addr now"
    unfolding r1 client_start_def by (simp_all add: assms(6) client_lcc_def)
  show ?thesis
    using client_tcp_runs[OF pc session_of_simps(4) assms(7) x] assms(8) by (simp add: put_tcp_def)
qed

lemma client_udp_session:
  assumes "client_inv r" and "cr_pc r = C_Select True" and "lp_stop p = None"
    and "client_ready r p = Some (Ok addr)" and "now_secs t = Some now" and "cr_protocol r = Udp"
    and "Join \<notin> set es" and "run_all bi_udp_client es (client_start r addr (now, cr_queue r)) = (b, (a, q), tbl)"
    and "run_all client_step (client_request_events p t @ map Cev_Udp es) r = r'"
  shows "cr_pc r' = C_Udp b \<and> cr_queue r' = q"
proof -
  let ?r1 = "run_all client_step (client_request_events p t) r"
  note r1 = client_request_run[OF assms(1-5)]
  have pc: "cr_pc ?r1 = C_Udp (session_of (client_lcc r addr))"
    and x: "(session_of (client_lcc r addr),
        (cr_cells ?r1 (last_active (bi_conn (session_of (client_lcc r addr) :: udp_bi))), cr_queue ?r1), cr_table ?r1) =
      client_start r addr (now, cr_queue r)"
    unfolding r1 client_start_def by (simp_all add: assms(6) client_lcc_def)
  show ?thesis
    using client_udp_runs[OF pc session_of_simps(4) assms(7) x] assms(8,9) by (auto simp: put_udp_def)
qed

lemma host_request_session:
  assumes "hr_pc h = H_Accept_Bi conn" and "remote_node_id conn = Some key"
    and "hm_get (tunnel_clients h) key = Some client"
    and "host_connect_service (hr_protocol h) (hr_local_addr h) (get_unspecified (is_ipv4 addr)) (sys senv) = Ok ()"
    and "peer_addr_ok senv" and "now_secs t = Some now" and "Join \<notin> set es"
    and "run_all (host_session (hr_protocol h)) es (host_begin h client addr now) = (b, y)"
  shows "hr_pc (run_all host_step (host_request_events (Ok (ConnReq addr)) senv t @ map Ev_Session es) h) =
    H_Forward conn client b"
proof -
  let ?h1 = "run_all host_step (host_request_events (Ok (ConnReq addr)) senv t) h"
  note h1 = host_request_run[OF assms(1-6)]
  have pc: "hr_pc ?h1 = H_Forward conn client (session_of (host_lcc h addr))"
    and proto: "hr_protocol ?h1 = hr_protocol h"
    and x: "(session_of (host_lcc h addr), cells ?h1 (last_active (host_lcc h addr)),
        tables ?h1 (local_connections client)) = host_begin h client addr now"
    unfolding h1 host_begin_def by (simp_all add: host_lcc_def)
  show ?thesis
    using host_session_run[OF pc session_of_simps(4) assms(7), unfolded proto session_of_simps x] assms(8)
    by (cases y) auto
qed

subsection \<open>A concrete request\<close>

definition demo_accept :: listen_poll where
  "demo_accept = \<lparr>lp_stop = None, lp_accept = Some (Ok (V4 1 5000)), lp_peek_err = False\<rparr>"

definition demo_accepted_host :: "tunnel_protocol \<Rightarrow> host_run" where
  "demo_accepted_host proto =
     run_all host_step [Ev_Accept True, Ev_Connected (Ok demo_client)] (new_host_run demo_service proto)"

definition demo_sockets :: sock_env where
  "demo_sockets = \<lparr>sys = sys_ok, peer_addr_ok = True\<rparr>"

lemma demo_request_client:
  "client_inv (demo_listening Tcp [])" "cr_pc (demo_listening Tcp []) = C_Select True"
  "cr_protocol (demo_listening Tcp []) = Tcp" "lp_stop demo_accept = None"
  "client_ready (demo_listening Tcp []) demo_accept = Some (Ok (V4 1 5000))" "now_secs 0 = Some 0"
  using demo_listening_inv
  by (simp_all add: demo_listening_def new_client_run_def demo_accept_def client_ready_def now_secs_def)

lemma demo_request_host:
  "host_inv (demo_accepted_host proto)" "hr_pc (demo_accepted_host proto) = H_Accept_Bi demo_client"
  "hr_protocol (demo_accepted_host proto) = proto"
  "host_connect_service q a b (sys demo_sockets) = Ok ()" "peer_addr_ok demo_sockets"
proof -
  show "host_inv (demo_accepted_host proto)"
    unfolding demo_accepted_host_def by (rule host_reachable_inv)
qed (simp_all add: demo_accepted_host_def new_host_run_def host_connected_def demo_client_def
      hm_contains_def hm_simps demo_sockets_def sys_ok_def host_connect_service_def split: tunnel_protocol.split)

lemma demo_request_client_entry:
  "remote_node_id demo_client = Some [7]"
  "hm_get (tunnel_clients (demo_accepted_host proto)) [7] = Some \<lparr>local_connections = 0, client_connection = demo_client\<rparr>"
  by (simp_all add: demo_accepted_host_def new_host_run_def host_connected_def demo_client_def
      hm_contains_def hm_simps)

subsection \<open>Properties\<close>

text \<open>
  C8. An accepted application ends in two sessions for the same application: when the listener
  sees it, the request is sent whole and the stream delivers its bytes in any chunks, the host
  decodes the same request, and when its sockets open, the client holds exactly this connection
  and starts to forward it, while the host has registered it under the unspecified address of the
  application's family and starts to forward it too, each with a fresh activity time. Neither
  side checks that the two tunnels have the same protocol.
\<close>

theorem request_opens_both_ends:
  assumes "client_inv r" and "cr_pc r = C_Select True" and "lp_stop p = None"
    and "client_ready r p = Some (Ok addr)" and "now_secs tc = Some nowc"
    and "codec_ok encode decode (ConnReq addr)"
    and "send_packet encode env (ConnReq addr) = (Ok (), Some u)" and "concat chunks = us_data u"
    and "receive_packet decode (Ok ()) (map (\<lambda>c. Ok (Some c)) chunks @ [Ok None]) = Some pkt"
    and "host_inv h" and "hr_pc h = H_Accept_Bi conn"
    and "host_connect_service (hr_protocol h) (hr_local_addr h) (get_unspecified (is_ipv4 addr)) (sys senv) = Ok ()"
    and "peer_addr_ok senv" and "now_secs th = Some nowh"
    and "run_all client_step (client_request_events p tc) r = r'"
    and "run_all host_step (host_request_events pkt senv th) h = h'"
  shows "cr_requests r' = cr_requests r @ [ConnReq addr] \<and> cr_table r' = [(addr, client_lcc r addr)] \<and>
    cr_pc r' = (case cr_protocol r of
      Tcp \<Rightarrow> C_Tcp (session_of (client_lcc r addr)) | Udp \<Rightarrow> C_Udp (session_of (client_lcc r addr))) \<and>
    cr_cells r' (cr_next_cell r) = nowc \<and>
    (\<exists>client. hr_pc h' = H_Forward conn client (session_of (host_lcc h addr)) \<and>
       hm_get (tables h' (local_connections client)) (get_unspecified (is_ipv4 addr)) = Some (host_lcc h addr) \<and>
       cells h' (next_cell h) = nowh)"
proof -
  obtain key client where known: "remote_node_id conn = Some key" "hm_get (tunnel_clients h) key = Some client"
    using assms(10,11) by (auto simp: host_inv_def client_known_def)
  have pkt: "pkt = Ok (ConnReq addr)" by (rule request_crosses[OF assms(6-9)])
  note r' = client_request_run[OF assms(1-5), unfolded assms(15)]
  note h' = host_request_run[OF assms(11) known assms(12-14), folded pkt, unfolded assms(16)]
  show ?thesis unfolding r' h' by (simp add: hm_simps)
qed

theorem request_opens_both_ends_witness:
  "cr_table (run_all client_step (client_request_events demo_accept 0) (demo_listening Tcp [])) =
     [(V4 1 5000, client_lcc (demo_listening Tcp []) (V4 1 5000))] \<and>
   cells (run_all host_step (host_request_events (Ok (ConnReq (V4 1 5000))) demo_sockets 0) (demo_accepted_host Tcp))
     (next_cell (demo_accepted_host Tcp)) = 0"
proof -
  let ?env = "\<lparr>open_uni = Ok (), write_all = Wrote_All, flush_res = Ok (), finish_res = Ok ()\<rparr>"
  let ?m = "ConnReq (V4 1 5000)"
  have enc: "demo_encode ?m = [0, 0, 0, 0, 1, 19, 136]"
    by (simp add: demo_encode_def ipv4_octets_def)
  have codec: "codec_ok demo_encode demo_decode ?m"
    by (simp add: codec_ok_def enc demo_decode_def)
  have sent: "send_packet demo_encode ?env ?m = (Ok (), Some \<lparr>us_data = [0, 0, 0, 0, 1, 19, 136], us_finished = True\<rparr>)"
    by (simp add: send_packet_def enc)
  have received: "receive_packet demo_decode (Ok ()) (map (\<lambda>c. Ok (Some c)) [[0, 0, 0], [0, 1, 19, 136]] @ [Ok None]) =
      Some (Ok ?m)"
    by (simp add: receive_packet_def demo_decode_def)
  show ?thesis
    using request_opens_both_ends[OF demo_request_client(1,2,4,5,6) codec sent _ received
        demo_request_host(1,2,4,5) demo_request_client(6) refl refl]
    by auto
qed

text \<open>
  C6. A TCP application talks to the service through both tasks. From a waiting listener and a host
  that awaits the client's next stream, over the request and every later interleaving of events
  of the two sessions that has not ended them: both tasks are forwarding, the host has written to
  the service a prefix of the bytes the client has read from the application, and the client has
  written to the application a prefix of the bytes the host has read from the service, provided
  each QUIC stream has delivered a prefix of what was written to it.
\<close>

theorem application_reaches_service:
  assumes "client_inv r" and "cr_pc r = C_Select True" and "cr_protocol r = Tcp" and "lp_stop p = None"
    and "client_ready r p = Some (Ok addr)" and "now_secs tc = Some nowc"
    and "hr_pc h = H_Accept_Bi conn" and "hr_protocol h = Tcp" and "remote_node_id conn = Some key"
    and "hm_get (tunnel_clients h) key = Some client"
    and "host_connect_service Tcp (hr_local_addr h) (get_unspecified (is_ipv4 addr)) (sys senv) = Ok ()"
    and "peer_addr_ok senv" and "now_secs th = Some nowh"
    and "Join \<notin> set ec" and "Join \<notin> set eh"
    and "xc = client_start r addr nowc" and "xh = host_begin h client addr nowh"
    and "run_all bi_tcp_stream_client ec xc = (bc, yc)" and "run_all bi_tcp_stream_host eh xh = (bh, yh)"
    and "quic_delivers (fw_sink (bi_up bc)) (down_reads bi_tcp_stream_host eh xh)"
    and "quic_delivers (fw_sink (bi_up bh)) (down_reads bi_tcp_stream_client ec xc)"
  shows "cr_pc (run_all client_step (client_request_events p tc @ map Cev_Tcp ec) r) = C_Tcp bc \<and>
    hr_pc (run_all host_step (host_request_events (Ok (ConnReq addr)) senv th @ map Ev_Session eh) h) =
      H_Forward conn client bh \<and>
    prefix (concat (fw_sink (bi_down bh))) (concat (up_reads bi_tcp_stream_client ec xc)) \<and>
    prefix (concat (fw_sink (bi_down bc))) (concat (up_reads bi_tcp_stream_host eh xh))"
proof -
  have client: "cr_pc (run_all client_step (client_request_events p tc @ map Cev_Tcp ec) r) = C_Tcp bc"
    by (rule client_tcp_session[OF assms(1,2,4-6,3,14) assms(18)[unfolded assms(16)]])
  have host: "hr_pc (run_all host_step (host_request_events (Ok (ConnReq addr)) senv th @ map Ev_Session eh) h) =
      H_Forward conn client bh"
    by (rule host_request_session[OF assms(7,9,10) _ assms(12,13,15)])
      (use assms(8,11,17,19) in \<open>simp_all add: host_session_def\<close>)
  have up: "prefix (concat (fw_sink (bi_up bc))) (concat (up_reads bi_tcp_stream_client ec xc))"
    "prefix (concat (fw_sink (bi_down bc))) (concat (map tunnel_payload (down_reads bi_tcp_stream_client ec xc)))"
    using tcp_client_up_direction(1)[of xc ec] tcp_client_down_direction(1)[of xc ec] assms(18)
    by (simp_all add: assms(16))
  have down: "prefix (concat (fw_sink (bi_up bh))) (concat (up_reads bi_tcp_stream_host eh xh))"
    "prefix (concat (fw_sink (bi_down bh))) (concat (map tunnel_payload (down_reads bi_tcp_stream_host eh xh)))"
    using tcp_host_up_direction(1)[of xh eh] tcp_host_down_direction(1)[of xh eh] assms(19)
    by (simp_all add: assms(17))
  have "prefix (concat (fw_sink (bi_down bh))) (concat (up_reads bi_tcp_stream_client ec xc))"
    "prefix (concat (fw_sink (bi_down bc))) (concat (up_reads bi_tcp_stream_host eh xh))"
    using assms(20,21) up down unfolding quic_delivers_def by (blast intro: prefix_order.trans)+
  with client host show ?thesis by simp
qed

text \<open>The client carries the bytes 1 and 2 up, and the host hands them to the service.\<close>

lemma session_up_run:
  fixes lcc :: local_client_connection
  shows "run_all bi_tcp_stream_client (up_once [1, 2]) (session_of lcc, 0, tbl) =
     ((session_of lcc)\<lparr>bi_up := \<lparr>fw_pc = At_Top, fw_sink = [[1, 2]]\<rparr>\<rparr>, 0, tbl)"
    and "run_all bi_tcp_stream_host (down_once [1, 2]) (session_of lcc, 0, tbl) =
     ((session_of lcc)\<lparr>bi_down := \<lparr>fw_pc = At_Top, fw_sink = [[1, 2]]\<rparr>\<rparr>, 0, tbl)"
    and "down_reads bi_tcp_stream_host (down_once [1, 2]) (session_of lcc, 0, tbl) = [Some [1, 2]]"
    and "down_reads bi_tcp_stream_client (up_once [1, 2]) (session_of lcc, 0, tbl) = []"
  by (simp_all add: bi_tcp_stream_client_def bi_tcp_stream_host_def fwd_defs demo_defs fwd_handlers session_of_def
      now_secs_def select_biased_def socket_verdict_def)

theorem application_reaches_service_witness:
  "\<exists>bc bh client. cr_pc (run_all client_step (client_request_events demo_accept 0 @ map Cev_Tcp (up_once [1, 2]))
      (demo_listening Tcp [])) = C_Tcp bc \<and> fw_sink (bi_up bc) = [[1, 2]] \<and>
    hr_pc (run_all host_step (host_request_events (Ok (ConnReq (V4 1 5000))) demo_sockets 0 @
      map Ev_Session (down_once [1, 2])) (demo_accepted_host Tcp)) = H_Forward demo_client client bh \<and>
    fw_sink (bi_down bh) = [[1, 2]]"
proof -
  have "Join \<notin> set (up_once [1, 2])" "Join \<notin> set (down_once [1, 2])"
    by (simp_all add: up_once_def down_once_def)
  note run = application_reaches_service[OF demo_request_client(1-6) demo_request_host(2,3)
      demo_request_client_entry demo_request_host(4,5) demo_request_client(6) this start_tuples
      session_up_run(1,2), unfolded session_up_run]
  have "quic_delivers [[1, 2]] [Some [1, 2]]" "quic_delivers [] []"
    by (simp_all add: quic_delivers_def tunnel_payload_def)
  with run show ?thesis by (force simp: fwd_init_def)
qed

text \<open>
  C7. A UDP application talks to the service through both tasks: from the same situation, over the
  request and every later interleaving of events of the two sessions that has not ended them, the
  client has taken only datagrams of this application off the socket, from the head of its queue
  (the listener has only peeked at the first one), and the host has sent to the service a prefix
  of their bytes, each cut at 1024, unless the client's loop has panicked; and the client has sent
  only to this application, a prefix of the bytes the host has received from the service.
\<close>

theorem udp_application_reaches_service:
  assumes "client_inv r" and "cr_pc r = C_Select True" and "cr_protocol r = Udp" and "lp_stop p = None"
    and "client_ready r p = Some (Ok addr)" and "now_secs tc = Some nowc"
    and "hr_pc h = H_Accept_Bi conn" and "hr_protocol h = Udp" and "remote_node_id conn = Some key"
    and "hm_get (tunnel_clients h) key = Some client"
    and "host_connect_service Udp (hr_local_addr h) (get_unspecified (is_ipv4 addr)) (sys senv) = Ok ()"
    and "peer_addr_ok senv" and "now_secs th = Some nowh"
    and "Join \<notin> set ec" and "Join \<notin> set eh"
    and "xc = client_start r addr (nowc, cr_queue r)" and "xh = host_begin h client addr nowh"
    and "run_all bi_udp_client ec xc = (bc, (ac, q), tbl)" and "run_all bi_udp_host eh xh = (bh, yh)"
    and "quic_delivers (fw_sink (bi_up bc)) (down_reads bi_udp_host eh xh)"
    and "quic_delivers (fw_sink (bi_up bh)) (down_reads bi_udp_client ec xc)"
    and "run_all client_step (client_request_events p tc @ map Cev_Udp ec) r = r'"
    and "run_all host_step (host_request_events (Ok (ConnReq addr)) senv th @ map Ev_Session eh) h = h'"
  shows "cr_pc r' = C_Udp bc \<and> hr_pc h' = H_Forward conn client bh \<and>
    (\<exists>taken. taken @ cr_queue r' = cr_queue r @ udp_arrivals ec \<and> (\<forall>x \<in> set taken. fst x = addr) \<and>
       (fw_pc (bi_up bc) = Panicked \<or>
        prefix (concat (fw_sink (bi_down bh))) (concat (dgram_chunks taken)))) \<and>
    (\<forall>x \<in> set (fw_sink (bi_down bc)). fst x = addr) \<and>
    prefix (concat (map snd (fw_sink (bi_down bc)))) (concat (up_reads bi_udp_host eh xh))"
proof -
  have client: "cr_pc r' = C_Udp bc \<and> cr_queue r' = q"
    by (rule client_udp_session[OF assms(1,2,4-6,3,14) assms(18)[unfolded assms(16)] assms(22)])
  have host: "hr_pc h' = H_Forward conn client bh"
    unfolding assms(23)[symmetric] by (rule host_request_session[OF assms(7,9,10) _ assms(12,13,15)])
      (use assms(8,11,17,19) in \<open>simp_all add: host_session_def\<close>)
  note run = assms(18)[unfolded assms(16) client_start_def]
  have addr: "client_local_addr (bi_conn (session_of (client_lcc r addr) :: udp_bi)) = addr"
    by (simp add: client_lcc_def)
  from udp_client_up_direction[OF session_of_simps(3) run] obtain taken where taken:
    "taken @ q = cr_queue r @ udp_arrivals ec" "\<forall>x \<in> set taken. fst x = addr"
    "fw_pc (bi_up bc) \<noteq> Panicked \<longrightarrow> fw_sink (bi_up bc) @ pending (fw_pc (bi_up bc)) = dgram_chunks taken"
    unfolding addr by blast
  note down = udp_client_down_direction[OF session_of_simps(2) run, folded udp_client_down_reads, unfolded addr,
      folded client_start_def assms(16)]
  have host_up: "prefix (concat (fw_sink (bi_up bh))) (concat (up_reads bi_udp_host eh xh))"
    and host_down: "prefix (concat (fw_sink (bi_down bh))) (concat (map tunnel_payload (down_reads bi_udp_host eh xh)))"
    using udp_host_up_direction(1)[of xh eh] udp_host_down_direction(1)[of xh eh] assms(19)
    by (simp_all add: assms(17))
  have "prefix (concat (fw_sink (bi_down bh))) (concat (fw_sink (bi_up bc)))"
    "prefix (concat (map snd (fw_sink (bi_down bc)))) (concat (up_reads bi_udp_host eh xh))"
    using assms(20,21) host_up host_down down(2) unfolding quic_delivers_def by (blast intro: prefix_order.trans)+
  moreover from this(1) taken(3) have "fw_pc (bi_up bc) = Panicked \<or>
      prefix (concat (fw_sink (bi_down bh))) (concat (dgram_chunks taken))"
    by (metis concat_append prefix_prefix)
  ultimately show ?thesis using client host taken(1,2) down(1) by blast
qed

lemma session_udp_run:
  fixes lcc :: local_client_connection
  assumes "client_local_addr lcc = addr"
  shows "run_all bi_udp_client udp_up_once (session_of lcc, (0, [(addr, [1, 2])]), tbl) =
     ((session_of lcc)\<lparr>bi_up := \<lparr>fw_pc = At_Top, fw_sink = [[1, 2]]\<rparr>\<rparr>, (0, []), tbl)"
    and "run_all bi_udp_host (down_once [1, 2]) (session_of lcc, 0, tbl) =
     ((session_of lcc)\<lparr>bi_down := \<lparr>fw_pc = At_Top, fw_sink = [[1, 2]]\<rparr>\<rparr>, 0, tbl)"
    and "down_reads bi_udp_host (down_once [1, 2]) (session_of lcc, 0, tbl) = [Some [1, 2]]"
    and "down_reads bi_udp_client udp_up_once (session_of lcc, s, tbl) = []"
  using assms
  by (simp_all add: bi_udp_client_def bi_udp_host_def udp_up_once_def fwd_defs demo_defs fwd_handlers session_of_def
      now_secs_def select_biased_def socket_verdict_def udp_up_select_def peek_from_def
      TUNNEL_FORWARDER_BUFFER_SIZE_def)

theorem udp_application_reaches_service_witness:
  "cr_queue (run_all client_step (client_request_events quiet_poll 0 @ map Cev_Udp udp_up_once)
      (demo_listening Udp [(V4 1 5000, [1, 2])])) = [] \<and>
   (\<exists>bh client. hr_pc (run_all host_step (host_request_events (Ok (ConnReq (V4 1 5000))) demo_sockets 0 @
      map Ev_Session (down_once [1, 2])) (demo_accepted_host Udp)) = H_Forward demo_client client bh \<and>
    fw_sink (bi_down bh) = [[1, 2]])"
proof -
  let ?r = "demo_listening Udp [(V4 1 5000, [1, 2])]"
  have r: "cr_pc ?r = C_Select True" "cr_protocol ?r = Udp" "lp_stop quiet_poll = None"
    "client_ready ?r quiet_poll = Some (Ok (V4 1 5000))" "now_secs 0 = Some 0" "cr_queue ?r = [(V4 1 5000, [1, 2])]"
    by (simp_all add: demo_listening_def new_client_run_def quiet_poll_def client_ready_def peek_from_def now_secs_def)
  have lcc: "client_local_addr (client_lcc ?r (V4 1 5000)) = V4 1 5000"
    "client_local_addr (host_lcc (demo_accepted_host Udp) (V4 1 5000)) = V4 1 5000"
    by (simp_all add: client_lcc_def host_lcc_def)
  have joins: "Join \<notin> set udp_up_once" "Join \<notin> set (down_once [1, 2])"
    by (auto simp: udp_up_once_def down_once_def)
  define sc :: "udp_bi \<times> (u64 \<times> dgram_queue) \<times> conn_table"
    where "sc = client_start ?r (V4 1 5000) (0, cr_queue ?r)"
  have up: "run_all bi_udp_client udp_up_once sc =
      ((session_of (client_lcc ?r (V4 1 5000)))\<lparr>bi_up := \<lparr>fw_pc = At_Top, fw_sink = [[1, 2]]\<rparr>\<rparr>, (0, []),
        [(V4 1 5000, client_lcc ?r (V4 1 5000))])"
    and idle: "down_reads bi_udp_client udp_up_once sc = []"
    unfolding sc_def client_start_def r(6)
    by (rule session_udp_run(1)[OF lcc(1)], rule session_udp_run(4)[OF lcc(1)])
  note down = session_udp_run(2,3)[OF lcc(2)]
  note run = udp_application_reaches_service[OF demo_listening_inv r(1-5) demo_request_host(2,3)
      demo_request_client_entry demo_request_host(4,5) r(5) joins sc_def start_tuples(2) up down(1),
      unfolded down(2), OF _ _ refl refl]
  have delivered: "quic_delivers (fw_sink (bi_up (b\<lparr>bi_up := \<lparr>fw_pc = At_Top, fw_sink = [[1, 2]]\<rparr>\<rparr>))) [Some [1, 2]]"
    "quic_delivers (fw_sink (bi_up ((session_of l)\<lparr>bi_down := f\<rparr>))) (down_reads bi_udp_client udp_up_once sc)" for b :: udp_bi and l and f :: "bytes fwd"
    by (simp_all add: quic_delivers_def tunnel_payload_def fwd_init_def idle)
  note ended = run[OF delivered]
  then obtain taken where taken:
    "taken @ cr_queue (run_all client_step (client_request_events quiet_poll 0 @ map Cev_Udp udp_up_once) ?r) =
       cr_queue ?r @ udp_arrivals udp_up_once"
    "prefix [1, 2] (concat (dgram_chunks taken))"
    by auto
  have "udp_arrivals udp_up_once = []" by (simp add: udp_up_once_def)
  moreover from taken(2) have "taken \<noteq> []" by (auto simp: dgram_chunks_def)
  ultimately have "cr_queue (run_all client_step (client_request_events quiet_poll 0 @ map Cev_Udp udp_up_once) ?r) = []"
    using taken(1) unfolding r(6) by (cases taken) simp_all
  moreover have "fw_sink (bi_down ((session_of l :: stream_bi)\<lparr>bi_down := \<lparr>fw_pc = At_Top, fw_sink = [[1, 2]]\<rparr>\<rparr>)) = [[1, 2]]" for l
    by simp
  ultimately show ?thesis using conjunct1[OF conjunct2[OF ended]] by blast
qed

end
