(* ===== verification/Session_Life.thy ===== *)
theory Session_Life
  imports Bi_Forward
begin

section \<open>How traffic keeps a session alive\<close>

text \<open>
  The two loops of a session share the time of the last activity. The locale \<open>timed_session\<close> says
  what each loop does to it, with the system time of its events: a loop that reads data stores
  the time, nothing else changes it, and a loop that times out has compared it with the time of
  its wake-up. From this follows, for all four sessions at once, that data read in one
  direction keeps both directions from timing out.
\<close>

subsection \<open>Clocks\<close>

fun writing :: "fwd_pc \<Rightarrow> bool" where
  "writing (Writing bs) = True"
| "writing _ = False"

text \<open>The system time an event reads, if it reads any.\<close>

fun fwd_clock :: "'r fwd_event \<Rightarrow> time option" where
  "fwd_clock (Ev_Top t) = Some t"
| "fwd_clock (Ev_Poll p t) = Some t"
| "fwd_clock (Ev_Wrote w) = None"

fun udp_up_clock :: "udp_up_event \<Rightarrow> time option" where
  "udp_up_clock (Up_Top t) = Some t"
| "udp_up_clock (Up_Poll p t) = Some t"
| "udp_up_clock (Up_Wrote w) = None"
| "udp_up_clock (Up_Arrive addr d) = None"

fun bi_clock :: "('d \<Rightarrow> time option) \<Rightarrow> ('u \<Rightarrow> time option) \<Rightarrow> ('d, 'u) bi_event \<Rightarrow> time option" where
  "bi_clock down up (Down_Ev d) = down d"
| "bi_clock down up (Up_Ev u) = up u"
| "bi_clock down up Join = None"

text \<open>The time of an event in whole seconds, at its width.\<close>

definition event_secs :: "('e \<Rightarrow> time option) \<Rightarrow> 'e \<Rightarrow> u64 option" where
  "event_secs clock e = Option.bind (clock e) now_secs"

text \<open>Every time that the events read is in the 20 seconds from a given one.\<close>

definition within_timeout :: "('e \<Rightarrow> time option) \<Rightarrow> u64 \<Rightarrow> 'e list \<Rightarrow> bool" where
  "within_timeout clock now es \<longleftrightarrow>
     list_all (\<lambda>e. case event_secs clock e of
       None \<Rightarrow> True
     | Some n \<Rightarrow> unat now \<le> unat n \<and> unat n < unat now + unat CONNECTION_TIMEOUT_SECONDS) es"

lemma within_timeout_simps [simp]:
  "within_timeout clock now []"
  "within_timeout clock now (e # es) \<longleftrightarrow>
     (\<forall>n. event_secs clock e = Some n \<longrightarrow>
       unat now \<le> unat n \<and> unat n < unat now + unat CONNECTION_TIMEOUT_SECONDS) \<and>
     within_timeout clock now es"
  by (auto simp: within_timeout_def split: option.splits)

definition alive :: "('o, 'p) bi \<Rightarrow> bool" where
  "alive b \<longleftrightarrow> fw_pc (bi_down b) \<noteq> Stopped By_Timeout \<and> fw_pc (bi_up b) \<noteq> Stopped By_Timeout"

text \<open>A loop of the session has read data: it has come to a write.\<close>

definition read_data :: "('o, 'p) bi \<Rightarrow> ('o, 'p) bi \<Rightarrow> bool" where
  "read_data b b' \<longleftrightarrow>
     \<not> writing (fw_pc (bi_down b)) \<and> writing (fw_pc (bi_down b')) \<or>
     \<not> writing (fw_pc (bi_up b)) \<and> writing (fw_pc (bi_up b'))"

subsection \<open>The contract of a loop\<close>

locale timed_loop =
  fixes loop :: "'e \<Rightarrow> 'o fwd \<times> 's \<Rightarrow> 'o fwd \<times> 's"
    and clock :: "'e \<Rightarrow> time option"
    and active :: "'s \<Rightarrow> u64"
  assumes stores: "loop e (f, s) = (f', s') \<Longrightarrow>
      active s' = (if \<not> writing (fw_pc f) \<and> writing (fw_pc f') then the (event_secs clock e) else active s)"
    and reads_clock: "loop e (f, s) = (f', s') \<Longrightarrow> \<not> writing (fw_pc f) \<Longrightarrow> writing (fw_pc f') \<Longrightarrow>
      event_secs clock e \<noteq> None"
    and times_out: "loop e (f, s) = (f', s') \<Longrightarrow> fw_pc f \<noteq> Stopped By_Timeout \<Longrightarrow>
      fw_pc f' = Stopped By_Timeout \<Longrightarrow> \<exists>n. event_secs clock e = Some n \<and> timed_out n (active s)"
begin

lemma loop_alive:
  assumes "loop e (f, s) = (f', s')" and "fw_pc f \<noteq> Stopped By_Timeout" and "unat now \<le> unat (active s)"
    and "within_timeout clock now [e]"
  shows "fw_pc f' \<noteq> Stopped By_Timeout \<and> unat now \<le> unat (active s')"
proof
  show "fw_pc f' \<noteq> Stopped By_Timeout"
  proof
    assume "fw_pc f' = Stopped By_Timeout"
    from times_out[OF assms(1,2) this] assms(3,4) show False
      by (auto simp: timed_out_iff CONNECTION_TIMEOUT_SECONDS_def)
  qed
  show "unat now \<le> unat (active s')"
    using stores[OF assms(1)] reads_clock[OF assms(1)] assms(3,4) by auto
qed

end

lemma fwd_timed_loop: "timed_loop (fwd_step verdict writer) fwd_clock id"
proof (unfold_locales, goal_cases)
  case (1 e f s f' s')
  then show ?case
  proof (cases e)
    case (Ev_Poll p t)
    with 1 show ?thesis
      by (cases "fw_pc f"; cases "select_biased (case fw_pc f of Selecting _ en \<Rightarrow> en | _ \<Rightarrow> True) p")
        (auto simp: fwd_handlers event_secs_def split: option.splits verdict.splits if_splits)
  next
    case (Ev_Top t)
    with 1 show ?thesis by (cases "fw_pc f") (auto simp: fwd_handlers split: option.splits)
  next
    case (Ev_Wrote w)
    with 1 show ?thesis by (cases "fw_pc f"; cases w) auto
  qed
next
  case (2 e f s f' s')
  then show ?case
  proof (cases e)
    case (Ev_Poll p t)
    with 2 show ?thesis
      by (cases "fw_pc f"; cases "select_biased (case fw_pc f of Selecting _ en \<Rightarrow> en | _ \<Rightarrow> True) p")
        (auto simp: fwd_handlers event_secs_def split: option.splits verdict.splits if_splits)
  next
    case (Ev_Top t)
    with 2 show ?thesis by (cases "fw_pc f") (auto simp: fwd_handlers split: option.splits)
  next
    case (Ev_Wrote w)
    with 2 show ?thesis by (cases "fw_pc f"; cases w) auto
  qed
next
  case (3 e f s f' s')
  then have "fw_pc (fst (fwd_step verdict writer e (f, s))) = Stopped By_Timeout" by simp
  with 3(2) obtain p t now where "e = Ev_Poll p t" "now_secs t = Some now" "timed_out now s"
    by (rule timeout_step)
  then show ?case by (simp add: event_secs_def)
qed

lemma udp_up_timed_loop: "timed_loop (udp_client_up addr) udp_up_clock fst"
proof -
  have poll: "fst s' = (if \<not> writing (fw_pc f) \<and> writing (fw_pc f') then the (event_secs udp_up_clock e) else fst s) \<and>
      (\<not> writing (fw_pc f) \<longrightarrow> writing (fw_pc f') \<longrightarrow> event_secs udp_up_clock e \<noteq> None) \<and>
      (fw_pc f \<noteq> Stopped By_Timeout \<longrightarrow> fw_pc f' = Stopped By_Timeout \<longrightarrow>
        (\<exists>n. event_secs udp_up_clock e = Some n \<and> timed_out n (fst s)))"
    if "udp_client_up addr e (f, s) = (f', s')" for e f s f' s'
  proof (cases e)
    case (Up_Poll p t)
    obtain a q where s: "s = (a, q)" by (cases s)
    with that Up_Poll show ?thesis
      by (cases "fw_pc f"; cases "udp_up_select (case fw_pc f of Selecting _ en \<Rightarrow> en | _ \<Rightarrow> True) p q")
        (auto simp: fwd_handlers event_secs_def socket_verdict_def Let_def
          split: option.splits verdict.splits if_splits prod.splits)
  next
    case (Up_Top t)
    with that show ?thesis by (cases s; cases "fw_pc f") (auto simp: fwd_handlers split: option.splits)
  next
    case (Up_Wrote w)
    with that show ?thesis by (cases s; cases "fw_pc f"; cases w) auto
  next
    case (Up_Arrive a d)
    with that show ?thesis by (cases s) auto
  qed
  show ?thesis
    by unfold_locales (blast dest: poll)+
qed

text \<open>The client's loop from the tunnel leaves the queue of the socket alone.\<close>

lemma udp_client_down_timed_loop: "timed_loop (udp_client_down addr) fwd_clock fst"
proof -
  have step: "fwd_step tunnel_verdict (dgram_writer_to addr) e (f, fst s) = (f', fst s')"
    if "udp_client_down addr e (f, s) = (f', s')" for e f s f' s'
    using that by (cases s) (auto simp: udp_client_down_def split: prod.splits)
  note loop = fwd_timed_loop[of tunnel_verdict "dgram_writer_to addr"]
  show ?thesis
    by unfold_locales
      (use timed_loop.stores[OF loop step] timed_loop.reads_clock[OF loop step] timed_loop.times_out[OF loop step]
        in \<open>simp_all\<close>)
qed

subsection \<open>The contract of a session\<close>

locale timed_session = session key disconnect step down up
  for key and disconnect
    and step :: "('d, 'u) bi_event \<Rightarrow> ('o, 'p) bi \<times> 's \<times> conn_table \<Rightarrow> ('o, 'p) bi \<times> 's \<times> conn_table"
    and down and up +
  fixes down_clock :: "'d \<Rightarrow> time option"
    and up_clock :: "'u \<Rightarrow> time option"
    and active :: "'s \<Rightarrow> u64"
  assumes down_timed: "timed_loop (down c) down_clock active"
    and up_timed: "timed_loop (up c) up_clock active"
begin

lemma step_alive:
  assumes "step e (b, s, tbl) = (b', s', tbl')" and "alive b" and "unat now \<le> unat (active s)"
    and "within_timeout (bi_clock down_clock up_clock) now [e]"
  shows "alive b' \<and> unat now \<le> unat (active s')"
proof (cases e)
  case (Down_Ev d)
  then have "down (bi_conn b) d (bi_down b, s) = (bi_down b', s')" "bi_up b' = bi_up b"
    using assms(1) by (auto simp: step_bi split: prod.splits)
  with timed_loop.loop_alive[OF down_timed this(1), of now] assms(2-4) Down_Ev show ?thesis
    by (simp add: alive_def event_secs_def)
next
  case (Up_Ev u)
  then have "up (bi_conn b) u (bi_up b, s) = (bi_up b', s')" "bi_down b' = bi_down b"
    using assms(1) by (auto simp: step_bi split: prod.splits)
  with timed_loop.loop_alive[OF up_timed this(1), of now] assms(2-4) Up_Ev show ?thesis
    by (simp add: alive_def event_secs_def)
next
  case Join
  with assms show ?thesis by (auto simp: step_bi alive_def split: if_splits)
qed

lemma run_alive:
  assumes "alive b" and "unat now \<le> unat (active s)"
    and "within_timeout (bi_clock down_clock up_clock) now es"
  shows "alive (fst (run_all step es (b, s, tbl)))"
  using assms
proof (induction es arbitrary: b s tbl)
  case (Cons e es)
  obtain b' s' tbl' where st: "step e (b, s, tbl) = (b', s', tbl')" by (cases "step e (b, s, tbl)")
  with step_alive[OF st Cons.prems(1,2)] Cons.IH[of b' s' tbl'] Cons.prems(3) show ?case by simp
qed simp

text \<open>An event in which a loop reads data leaves its time as the last activity.\<close>

lemma read_stores:
  assumes "step e (b, s, tbl) = (b', s', tbl')" and "read_data b b'"
    and "event_secs (bi_clock down_clock up_clock) e = Some now"
  shows "active s' = now \<and> (alive b \<longrightarrow> alive b')"
proof (cases e)
  case (Down_Ev d)
  then have st: "down (bi_conn b) d (bi_down b, s) = (bi_down b', s')" "bi_up b' = bi_up b"
    using assms(1) by (auto simp: step_bi split: prod.splits)
  with assms(2) have w: "\<not> writing (fw_pc (bi_down b))" "writing (fw_pc (bi_down b'))"
    by (auto simp: read_data_def)
  with timed_loop.stores[OF down_timed st(1)] assms(3) Down_Ev st(2) show ?thesis
    by (cases "fw_pc (bi_down b')") (auto simp: alive_def event_secs_def)
next
  case (Up_Ev u)
  then have st: "up (bi_conn b) u (bi_up b, s) = (bi_up b', s')" "bi_down b' = bi_down b"
    using assms(1) by (auto simp: step_bi split: prod.splits)
  with assms(2) have w: "\<not> writing (fw_pc (bi_up b))" "writing (fw_pc (bi_up b'))"
    by (auto simp: read_data_def)
  with timed_loop.stores[OF up_timed st(1)] assms(3) Up_Ev st(2) show ?thesis
    by (cases "fw_pc (bi_up b')") (auto simp: alive_def event_secs_def)
next
  case Join
  with assms(3) show ?thesis by (simp add: event_secs_def)
qed

lemma traffic_keeps_alive:
  assumes "step e (b, s, tbl) = (b', s', tbl')" and "alive b" and "read_data b b'"
    and "event_secs (bi_clock down_clock up_clock) e = Some now"
    and "within_timeout (bi_clock down_clock up_clock) now es"
  shows "alive (fst (run_all step es (b', s', tbl')))"
  using run_alive[of b' now s' es tbl'] read_stores[OF assms(1,3,4)] assms(2,5) by simp

end

interpretation timed_tcp_host: timed_session client_virtual_addr disconnect_local_client_connection
    bi_tcp_stream_host "\<lambda>_. tcp_host_down" "\<lambda>_. tcp_host_up" fwd_clock fwd_clock id
  by (rule timed_session.intro[OF tcp_host.session_axioms timed_session_axioms.intro])
    (simp_all only: fwd_defs fwd_timed_loop)

interpretation timed_tcp_client: timed_session client_local_addr disconnect_local_connection
    bi_tcp_stream_client "\<lambda>_. tcp_client_down" "\<lambda>_. tcp_client_up" fwd_clock fwd_clock id
  by (rule timed_session.intro[OF tcp_client.session_axioms timed_session_axioms.intro])
    (simp_all only: fwd_defs fwd_timed_loop)

interpretation timed_udp_host: timed_session client_virtual_addr disconnect_local_client_connection
    bi_udp_host "\<lambda>_. udp_host_down" "\<lambda>_. udp_host_up" fwd_clock fwd_clock id
  by (rule timed_session.intro[OF udp_host.session_axioms timed_session_axioms.intro])
    (simp_all only: fwd_defs fwd_timed_loop)

interpretation timed_udp_client: timed_session client_local_addr disconnect_local_connection
    bi_udp_client "\<lambda>c. udp_client_down (client_local_addr c)" "\<lambda>c. udp_client_up (client_local_addr c)"
    fwd_clock udp_up_clock fst
  by (rule timed_session.intro[OF udp_client.session_axioms timed_session_axioms.intro])
    (rule udp_client_down_timed_loop udp_up_timed_loop)+

subsection \<open>Properties\<close>

definition kept_alive ::
    "('e \<Rightarrow> time option) \<Rightarrow>
     ('e \<Rightarrow> ('o, 'p) bi \<times> 's \<times> conn_table \<Rightarrow> ('o, 'p) bi \<times> 's \<times> conn_table) \<Rightarrow> bool" where
  "kept_alive clock step \<longleftrightarrow>
     (\<forall>e es b s tbl b' s' tbl' now.
        step e (b, s, tbl) = (b', s', tbl') \<and> alive b \<and> read_data b b' \<and>
        event_secs clock e = Some now \<and> within_timeout clock now es \<longrightarrow>
        alive (fst (run_all step es (b', s', tbl'))))"

text \<open>
  C18. Traffic in either direction keeps both directions of a session alive, for each of the four
  forwarding functions: when a loop reads data in an event at some second, then after every later
  sequence of events of both loops whose clock readings are from that second on and less than 20
  seconds after it, neither loop has timed out, whatever sleeps are over and whatever else happens.
\<close>

theorem traffic_keeps_session_alive:
  "kept_alive (bi_clock fwd_clock fwd_clock) bi_tcp_stream_host \<and>
   kept_alive (bi_clock fwd_clock fwd_clock) bi_tcp_stream_client \<and>
   kept_alive (bi_clock fwd_clock fwd_clock) bi_udp_host \<and>
   kept_alive (bi_clock fwd_clock udp_up_clock) bi_udp_client"
  unfolding kept_alive_def
  using timed_tcp_host.traffic_keeps_alive timed_tcp_client.traffic_keeps_alive
    timed_udp_host.traffic_keeps_alive timed_udp_client.traffic_keeps_alive
  by (intro conjI allI impI) (metis (lifting))+

text \<open>Data from the tunnel at second 15 of a session that was idle before, and a wake-up at second 30.\<close>

theorem traffic_keeps_session_alive_witness:
  "alive (fst (run_all bi_tcp_stream_host
     [Down_Ev (Ev_Poll \<lparr>stop_changed = None, read_ready = Some (Ok (Some [9])), slept = True\<rparr> 15000000000),
      Up_Ev (Ev_Poll idle_poll 30000000000)]
     (demo_session\<lparr>bi_down := \<lparr>fw_pc = Selecting 20 True, fw_sink = []\<rparr>\<rparr>, 0, [])))"
proof -
  let ?b = "demo_session\<lparr>bi_down := \<lparr>fw_pc = Selecting 20 True, fw_sink = []\<rparr>\<rparr>"
  let ?e = "Down_Ev (Ev_Poll \<lparr>stop_changed = None, read_ready = Some (Ok (Some [9])), slept = True\<rparr> 15000000000)"
  obtain b' s' tbl' where st: "bi_tcp_stream_host ?e (?b, 0, []) = (b', s', tbl')"
    by (cases "bi_tcp_stream_host ?e (?b, 0, [])")
  then have "read_data ?b b'"
    by (auto simp: bi_tcp_stream_host_def fwd_defs fwd_handlers select_biased_def now_secs_def demo_session_def
        read_data_def)
  moreover have "alive ?b" by (simp add: alive_def demo_session_def)
  moreover have "event_secs (bi_clock fwd_clock fwd_clock) ?e = Some 15"
    "within_timeout (bi_clock fwd_clock fwd_clock) 15 [Up_Ev (Ev_Poll idle_poll 30000000000)]"
    by (simp_all add: event_secs_def now_secs_def CONNECTION_TIMEOUT_SECONDS_def)
  ultimately have "alive (fst (run_all bi_tcp_stream_host [Up_Ev (Ev_Poll idle_poll 30000000000)] (b', s', tbl')))"
    using st traffic_keeps_session_alive[unfolded kept_alive_def, THEN conjunct1, rule_format,
        of ?e ?b 0 "[]" b' s' tbl' 15 "[Up_Ev (Ev_Poll idle_poll 30000000000)]"] by blast
  with st show ?thesis by simp
qed

end
