(* ===== verification/Host_Tunnel.thy ===== *)
theory Host_Tunnel
  imports Host_Behaviour
begin

section \<open>Host tunnels and the host state\<close>

text \<open>
  The rest of \<open>lantun-core/src/host.rs\<close>: \<open>HostTunnel\<close> with \<open>start\<close>, \<open>stop\<close>, the counters and its
  \<open>TunnelCommon\<close> instance, and \<open>HostState\<close>, the table of tunnels by secret. The world holds the
  state of every task that a \<open>start\<close> has spawned; the running properties refer to the task whose
  clients, endpoint and stop channel they share. The channel's \<open>send\<close> fails when the task, which
  holds the receiver, is gone; an accept loop is gone only after a panic.
\<close>

subsection \<open>The tunnel\<close>

record running_host_tunnel_props =
  hp_connections :: nat
  hp_endpoint :: nat
  hp_stop_tx :: nat

record host_tunnel =
  ht_name :: string
  ht_secret :: bytes
  ht_host_addr :: socket_addr
  ht_protocol :: tunnel_protocol
  ht_is_open :: bool
  ht_running_props :: "running_host_tunnel_props option"

record host_world =
  host_runs :: "nat \<Rightarrow> host_run"
  next_run :: nat

definition host_start ::
    "(string, unit) result \<Rightarrow> host_tunnel \<times> host_world \<Rightarrow>
     (host_error, nat) result \<times> host_tunnel \<times> host_world" where
  "host_start endpoint s =
     (case s of (t, w) \<Rightarrow>
        if ht_is_open t then (Err Host_TunnelAlreadyOpen, t, w)
        else case endpoint of
          Inl e \<Rightarrow> (Err (Host_FailedToCreateEndpoint e), t, w)
        | Inr u \<Rightarrow>
            let id = next_run w in
            (Ok id,
             t\<lparr>ht_running_props := Some \<lparr>hp_connections = id, hp_endpoint = id, hp_stop_tx = id\<rparr>,
               ht_is_open := True\<rparr>,
             w\<lparr>host_runs := (host_runs w)(id := new_host_run (ht_host_addr t) (ht_protocol t)),
               next_run := Suc id\<rparr>))"

definition host_stop ::
    "host_tunnel \<times> host_world \<Rightarrow> (host_error, unit) result outcome \<times> host_tunnel \<times> host_world" where
  "host_stop s =
     (case s of (t, w) \<Rightarrow>
        if \<not> ht_is_open t then (Returned (Ok ()), t, w)
        else case ht_running_props t of
          None \<Rightarrow> (Returned (Ok ()), t\<lparr>ht_is_open := False\<rparr>, w)
        | Some props \<Rightarrow>
            let t1 = t\<lparr>ht_running_props := None\<rparr>; run = host_runs w (hp_stop_tx props) in
            if hr_pc run = H_Panicked then (Panic, t1, w)
            else
              let w1 = w\<lparr>host_runs := (host_runs w)(hp_stop_tx props := run\<lparr>stop_value := True\<rparr>)\<rparr>;
                  w2 = w1\<lparr>host_runs := (host_runs w1)(hp_endpoint props :=
                         (host_runs w1 (hp_endpoint props))\<lparr>endpoint_closed := True\<rparr>)\<rparr>
              in (Returned (Ok ()), t1\<lparr>ht_is_open := False\<rparr>, w2))"

definition num_clients :: "host_world \<Rightarrow> host_tunnel \<Rightarrow> nat" where
  "num_clients w t =
     (case ht_running_props t of
        None \<Rightarrow> 0
      | Some props \<Rightarrow> hm_len (tunnel_clients (host_runs w (hp_connections props))))"

definition host_num_active_connections :: "host_world \<Rightarrow> host_tunnel \<Rightarrow> nat" where
  "host_num_active_connections w t =
     (case ht_running_props t of
        None \<Rightarrow> 0
      | Some props \<Rightarrow>
          (let run = host_runs w (hp_connections props) in
           sum_list (map (\<lambda>c. hm_len (tables run (local_connections c))) (hm_values (tunnel_clients run)))))"

definition host_is_running :: "host_tunnel \<Rightarrow> bool" where
  "host_is_running t = ht_is_open t"

definition host_ident :: "host_tunnel \<Rightarrow> string \<times> bytes \<times> socket_addr \<times> tunnel_protocol" where
  "host_ident t = (ht_name t, ht_secret t, ht_host_addr t, ht_protocol t)"

subsection \<open>The life cycle\<close>

interpretation host_life: tunnel_lifecycle host_is_running "\<lambda>t. ht_running_props t \<noteq> None"
    host_ident host_start host_stop
proof (unfold_locales, goal_cases)
  case (1 t env w)
  then show ?case by (simp add: host_start_def host_is_running_def)
next
  case (2 env t w e t' w')
  then show ?case by (auto simp: host_start_def Let_def split: if_splits sum.splits)
next
  case (3 env t w h t' w')
  then show ?case
    by (auto simp: host_start_def host_is_running_def host_ident_def Let_def split: if_splits sum.splits)
next
  case (4 t w)
  then show ?case by (simp add: host_stop_def host_is_running_def)
next
  case (5 t w q t' w')
  then show ?case
    by (auto simp: host_stop_def host_is_running_def host_ident_def Let_def
        split: if_splits option.splits)
qed

subsection \<open>The host state\<close>

type_synonym host_state = "(bytes, host_tunnel) hashmap"

definition host_state_new :: host_state where
  "host_state_new = hm_empty"

definition new_host_tunnel :: "socket_addr \<Rightarrow> string \<Rightarrow> bytes \<Rightarrow> tunnel_protocol \<Rightarrow> host_tunnel" where
  "new_host_tunnel local_addr name secret proto =
     \<lparr>ht_name = name, ht_secret = secret, ht_host_addr = local_addr, ht_protocol = proto,
      ht_is_open = False, ht_running_props = None\<rparr>"

definition host_create_tunnel ::
    "socket_addr \<Rightarrow> string \<Rightarrow> bytes \<Rightarrow> tunnel_protocol \<Rightarrow> host_state \<Rightarrow> host_state" where
  "host_create_tunnel local_addr name secret proto st =
     hm_insert secret (new_host_tunnel local_addr name secret proto) st"

definition host_get_tunnel :: "host_state \<Rightarrow> bytes \<Rightarrow> host_tunnel option" where
  "host_get_tunnel st secret = hm_get st secret"

text \<open>Every tunnel is filed under its secret.\<close>

definition host_state_ok :: "host_state \<Rightarrow> bool" where
  "host_state_ok st \<longleftrightarrow> hm_wf st \<and> (\<forall>k t. hm_get st k = Some t \<longrightarrow> ht_secret t = k)"

lemma host_state_ok_new: "host_state_ok host_state_new"
  by (simp add: host_state_ok_def host_state_new_def hm_simps)

lemma host_state_ok_create: "host_state_ok st \<Longrightarrow> host_state_ok (host_create_tunnel a n s p st)"
  by (auto simp: host_state_ok_def host_create_tunnel_def new_host_tunnel_def hm_simps split: if_splits)

subsection \<open>Properties\<close>

text \<open>
  Over every sequence of starts, stops and steps of the tasks, a host tunnel keeps its name,
  secret, address and protocol, and it is running exactly when it has running properties, as long
  as no stop panics.
\<close>

lemma host_lifecycle_coherent:
  assumes "\<not> life_panics host_start host_stop ops (new_host_tunnel addr name secret proto, w)"
    and "life_run host_start host_stop ops (new_host_tunnel addr name secret proto, w) = (t', w')"
  shows "host_ident t' = (name, secret, addr, proto) \<and>
    (host_is_running t' \<longleftrightarrow> ht_running_props t' \<noteq> None)"
  using host_life.life_run_coherent[OF _ assms] host_life.life_run_ident
    [of ops "new_host_tunnel addr name secret proto" w] assms(2)
  by (simp add: new_host_tunnel_def host_ident_def host_is_running_def)

definition empty_host_world :: host_world where
  "empty_host_world = \<lparr>host_runs = (\<lambda>_. new_host_run (V4 0 0) Tcp), next_run = 0\<rparr>"

definition demo_host_tunnel :: host_tunnel where
  "demo_host_tunnel = new_host_tunnel demo_service ''mc-server'' [7] Tcp"

text \<open>
  Starting a host tunnel: refused with \<open>TunnelAlreadyOpen\<close> and without effect when it runs,
  failed without effect when the endpoint cannot be bound, and else the tunnel runs a new task
  for its address and protocol, with no client and no connection; the tasks before it are kept.
\<close>

lemma host_start_outcomes:
  assumes "host_start endpoint (t, w) = (r, t', w')"
  shows "(case r of
      Inl e \<Rightarrow> t' = t \<and> w' = w \<and>
        (if host_is_running t then e = Host_TunnelAlreadyOpen
         else \<exists>msg. endpoint = Err msg \<and> e = Host_FailedToCreateEndpoint msg)
    | Inr rid \<Rightarrow> \<not> host_is_running t \<and> endpoint = Ok () \<and> rid = next_run w \<and>
        host_is_running t' \<and> host_ident t' = host_ident t \<and>
        num_clients w' t' = 0 \<and> host_num_active_connections w' t' = 0 \<and>
        host_runs w' = (host_runs w)(rid := new_host_run (ht_host_addr t) (ht_protocol t)))"
  using assms
  by (auto simp: host_start_def host_is_running_def host_ident_def num_clients_def
      host_num_active_connections_def new_host_run_def hm_values_def hm_empty_def hm_len_def Let_def
      split: if_splits sum.splits)

text \<open>
  Stopping a host tunnel never panics while its task has not, sends the stop signal to that
  task, closes its endpoint and leaves the tunnel stopped, without clients; stopping it again
  does nothing, and it can be started again.
\<close>

lemma host_stop_outcomes:
  assumes "host_is_running t" and "ht_running_props t = Some props"
    and "hp_endpoint props = hp_stop_tx props"
    and "hr_pc (host_runs w (hp_stop_tx props)) \<noteq> H_Panicked"
    and "host_stop (t, w) = (q, t', w')"
  shows "q = Returned (Ok ()) \<and> \<not> host_is_running t' \<and> host_ident t' = host_ident t \<and>
    num_clients w' t' = 0 \<and> host_num_active_connections w' t' = 0 \<and>
    stop_value (host_runs w' (hp_stop_tx props)) \<and> endpoint_closed (host_runs w' (hp_stop_tx props)) \<and>
    hr_pc (host_runs w' (hp_stop_tx props)) = hr_pc (host_runs w (hp_stop_tx props)) \<and>
    host_stop (t', w') = (Returned (Ok ()), t', w') \<and>
    (\<exists>id t'' w''. host_start (Ok ()) (t', w') = (Ok id, t'', w'') \<and> host_is_running t'')"
  using assms
  by (auto simp: host_stop_def host_start_def host_is_running_def host_ident_def num_clients_def
      host_num_active_connections_def Let_def)

text \<open>
  The number of connections a running host tunnel reports is at most twice the number of its
  clients, in every run of its task.
\<close>

lemma host_active_connections_bound:
  assumes "ht_running_props t = Some props"
    and "host_runs w (hp_connections props) = run_all host_step es (new_host_run addr proto)"
  shows "host_num_active_connections w t \<le> 2 * num_clients w t"
proof -
  let ?run = "host_runs w (hp_connections props)"
  have ok: "tables_ok (tables ?run)"
    using host_reachable_inv[of es addr proto] assms(2) by (simp add: host_inv_def)
  have "sum_list (map (\<lambda>c. hm_len (tables ?run (local_connections c))) cs) \<le> 2 * length cs" for cs
    by (induction cs) (use tables_ok_len[OF ok] in \<open>auto intro: add_mono[where a = "hm_len _" and b = 2, simplified]\<close>)
  from this[of "hm_values (tunnel_clients ?run)"] show ?thesis
    using assms(1) by (simp add: host_num_active_connections_def num_clients_def Let_def hm_values_def hm_len_def)
qed

text \<open>
  Creating a host tunnel always succeeds: the tunnel is found under its secret, stopped, with
  the given name, address and protocol; a tunnel that was registered under the secret is dropped,
  even a running one, and every other one is kept.
\<close>

lemma host_create_tunnel_replaces:
  assumes "host_state_ok st"
  shows "host_state_ok (host_create_tunnel addr name secret proto st) \<and>
    host_get_tunnel (host_create_tunnel addr name secret proto st) secret =
      Some (new_host_tunnel addr name secret proto) \<and>
    \<not> host_is_running (new_host_tunnel addr name secret proto) \<and>
    (\<forall>s. s \<noteq> secret \<longrightarrow>
       host_get_tunnel (host_create_tunnel addr name secret proto st) s = host_get_tunnel st s)"
  using host_state_ok_create[OF assms, of addr name secret proto]
  by (simp add: host_get_tunnel_def host_create_tunnel_def hm_simps host_is_running_def new_host_tunnel_def)

end
