(* ===== verification/Client_Tunnel.thy ===== *)
theory Client_Tunnel
  imports Client_Behaviour
begin

section \<open>Client tunnels and the client state\<close>

text \<open>
  The rest of \<open>lantun-core/src/client.rs\<close>: \<open>ClientTunnel\<close> with \<open>connect\<close>, \<open>disconnect\<close> and its
  \<open>TunnelCommon\<close> instance, and \<open>ClientState\<close>, the table of tunnels by local address and protocol.
  The world holds the state of every listener task that a \<open>connect\<close> has spawned. The stop
  channel's \<open>send\<close> fails when the listener, which holds the receiver, has returned or panicked.
  Which 32 bytes are a public key is a parameter: it is decided by the library of the endpoint.
\<close>

subsection \<open>The tunnel\<close>

record running_client_tunnel_props =
  cp_local_connections :: nat
  cp_endpoint :: nat
  cp_connection :: nat
  cp_stop_tx :: nat

record client_tunnel =
  ct_name :: string
  ct_secret :: bytes
  ct_tunnel_addr :: socket_addr
  ct_protocol :: tunnel_protocol
  ct_is_connected :: bool
  ct_running_props :: "running_client_tunnel_props option"

record client_world =
  client_runs :: "nat \<Rightarrow> client_run"
  next_listener :: nat

definition client_is_running :: "client_tunnel \<Rightarrow> bool" where
  "client_is_running t = ct_is_connected t"

text \<open>The environment of \<open>connect\<close>: whether the endpoint is bound and whether it reaches the host.\<close>

definition client_connect ::
    "(string, unit) result \<times> (string, unit) result \<Rightarrow> client_tunnel \<times> client_world \<Rightarrow>
     (client_error, nat) result \<times> client_tunnel \<times> client_world" where
  "client_connect env s =
     (case s of (t, w) \<Rightarrow>
        if client_is_running t then (Err Client_AlreadyConnected, t, w)
        else case fst env of
          Inl e \<Rightarrow> (Err (Client_FailedToCreateEndpoint e), t, w)
        | Inr u \<Rightarrow>
            (case snd env of
               Inl e \<Rightarrow> (Err (Client_FailedToConnect e), t, w)
             | Inr u \<Rightarrow>
                 let rid = next_listener w in
                 (Ok rid,
                  t\<lparr>ct_running_props := Some \<lparr>cp_local_connections = rid, cp_endpoint = rid,
                      cp_connection = rid, cp_stop_tx = rid\<rparr>,
                    ct_is_connected := True\<rparr>,
                  w\<lparr>client_runs := (client_runs w)(rid := new_client_run (ct_tunnel_addr t) (ct_protocol t)),
                    next_listener := Suc rid\<rparr>)))"

fun listener_gone :: "client_pc \<Rightarrow> bool" where
  "listener_gone (C_Done r) = True"
| "listener_gone C_Panicked = True"
| "listener_gone _ = False"

definition update_run :: "nat \<Rightarrow> (client_run \<Rightarrow> client_run) \<Rightarrow> client_world \<Rightarrow> client_world" where
  "update_run rid f w = w\<lparr>client_runs := (client_runs w)(rid := f (client_runs w rid))\<rparr>"

definition client_disconnect ::
    "client_tunnel \<times> client_world \<Rightarrow> (client_error, unit) result outcome \<times> client_tunnel \<times> client_world" where
  "client_disconnect s =
     (case s of (t, w) \<Rightarrow>
        if \<not> client_is_running t then (Returned (Err Client_NotConnected), t, w)
        else case ct_running_props t of
          None \<Rightarrow> (Returned (Ok ()), t\<lparr>ct_is_connected := False\<rparr>, w)
        | Some props \<Rightarrow>
            let t1 = t\<lparr>ct_running_props := None\<rparr> in
            if listener_gone (cr_pc (client_runs w (cp_stop_tx props))) then (Panic, t1, w)
            else
              (Returned (Ok ()), t1\<lparr>ct_is_connected := False\<rparr>,
               update_run (cp_endpoint props) (cr_endpoint_closed_update (\<lambda>_. True))
                 (update_run (cp_connection props) (cr_connection_closed_update (\<lambda>_. True))
                   (update_run (cp_stop_tx props) (cr_stop_value_update (\<lambda>_. True)) w))))"

definition client_num_active_connections :: "client_world \<Rightarrow> client_tunnel \<Rightarrow> nat" where
  "client_num_active_connections w t =
     (case ct_running_props t of
        None \<Rightarrow> 0
      | Some props \<Rightarrow> hm_len (cr_table (client_runs w (cp_local_connections props))))"

definition client_ident :: "client_tunnel \<Rightarrow> string \<times> bytes \<times> socket_addr \<times> tunnel_protocol" where
  "client_ident t = (ct_name t, ct_secret t, ct_tunnel_addr t, ct_protocol t)"

subsection \<open>The life cycle\<close>

interpretation client_life: tunnel_lifecycle client_is_running "\<lambda>t. ct_running_props t \<noteq> None"
    client_ident client_connect client_disconnect
proof (unfold_locales, goal_cases)
  case (1 t env w)
  then show ?case by (simp add: client_connect_def)
next
  case (2 env t w e t' w')
  then show ?case by (auto simp: client_connect_def Let_def split: if_splits sum.splits)
next
  case (3 env t w h t' w')
  then show ?case
    by (auto simp: client_connect_def client_is_running_def client_ident_def Let_def
        split: if_splits sum.splits)
next
  case (4 t w)
  then show ?case by (simp add: client_disconnect_def)
next
  case (5 t w q t' w')
  then show ?case
    by (auto simp: client_disconnect_def client_is_running_def client_ident_def Let_def
        split: if_splits option.splits)
qed

subsection \<open>The client state\<close>

type_synonym client_state = "(socket_addr \<times> tunnel_protocol, client_tunnel) hashmap"

definition client_state_new :: client_state where
  "client_state_new = hm_empty"

definition new_client_tunnel :: "socket_addr \<Rightarrow> string \<Rightarrow> bytes \<Rightarrow> tunnel_protocol \<Rightarrow> client_tunnel" where
  "new_client_tunnel local_addr name secret proto =
     \<lparr>ct_name = name, ct_secret = secret, ct_tunnel_addr = local_addr, ct_protocol = proto,
      ct_is_connected = False, ct_running_props = None\<rparr>"

definition client_create_tunnel ::
    "(bytes \<Rightarrow> bool) \<Rightarrow> socket_addr \<Rightarrow> string \<Rightarrow> bytes \<Rightarrow> tunnel_protocol \<Rightarrow> client_state \<Rightarrow>
     (client_error, client_tunnel) result outcome \<times> client_state" where
  "client_create_tunnel valid_key local_addr name secret proto st =
     (if hm_contains st (local_addr, proto)
      then (Returned (Err (Client_TunnelAlreadyExists local_addr proto)), st)
      else if \<not> valid_key secret then (Panic, st)
      else
        let tunnel = new_client_tunnel local_addr name secret proto
        in (Returned (Ok tunnel), hm_insert (local_addr, proto) tunnel st))"

definition client_get_tunnel :: "client_state \<Rightarrow> socket_addr \<Rightarrow> tunnel_protocol \<Rightarrow> client_tunnel option" where
  "client_get_tunnel st local_addr proto = hm_get st (local_addr, proto)"

text \<open>Every tunnel is filed under its address and protocol.\<close>

definition client_state_ok :: "client_state \<Rightarrow> bool" where
  "client_state_ok st \<longleftrightarrow>
     hm_wf st \<and> (\<forall>k t. hm_get st k = Some t \<longrightarrow> (ct_tunnel_addr t, ct_protocol t) = k)"

lemma client_state_ok_new: "client_state_ok client_state_new"
  by (simp add: client_state_ok_def client_state_new_def hm_simps)

lemma client_state_ok_create:
  "client_state_ok st \<Longrightarrow> client_state_ok (snd (client_create_tunnel v a n s p st))"
  by (auto simp: client_state_ok_def client_create_tunnel_def new_client_tunnel_def Let_def hm_simps
      split: if_splits)

text \<open>A local address can carry one tunnel for each protocol, and no more.\<close>

lemma client_tunnels_per_address: "card {p. client_get_tunnel st addr p \<noteq> None} \<le> 2"
  using card_mono[of UNIV "{p. client_get_tunnel st addr p \<noteq> None}"] card_tunnel_protocol by simp

subsection \<open>Properties\<close>

text \<open>
  Over every sequence of connects, disconnects and steps of the tasks, a client tunnel keeps its
  name, key, address and protocol, and it reports to run exactly when it has running properties, as
  long as no disconnect panics.
\<close>

lemma client_lifecycle_coherent:
  assumes "\<not> life_panics client_connect client_disconnect ops (new_client_tunnel addr name secret proto, w)"
    and "life_run client_connect client_disconnect ops (new_client_tunnel addr name secret proto, w) = (t', w')"
  shows "client_ident t' = (name, secret, addr, proto) \<and>
    (client_is_running t' \<longleftrightarrow> ct_running_props t' \<noteq> None)"
  using client_life.life_run_coherent[OF _ assms] client_life.life_run_ident
    [of ops "new_client_tunnel addr name secret proto" w] assms(2)
  by (simp add: new_client_tunnel_def client_ident_def client_is_running_def)

definition empty_client_world :: client_world where
  "empty_client_world = \<lparr>client_runs = (\<lambda>_. new_client_run (V4 0 0) Tcp), next_listener = 0\<rparr>"

definition demo_client_tunnel :: client_tunnel where
  "demo_client_tunnel = new_client_tunnel (V4 0 25565) ''mc'' [7] Tcp"

definition reached :: "(string, unit) result \<times> (string, unit) result" where
  "reached = (Ok (), Ok ())"

lemmas demo_client_defs = demo_client_tunnel_def new_client_tunnel_def empty_client_world_def reached_def

text \<open>
  Connecting a client tunnel: refused with \<open>AlreadyConnected\<close> and without effect when it runs;
  failed without effect when the endpoint cannot be bound or the host cannot be reached, in this
  order; and else the tunnel runs a new listener for its address and protocol, with no connection.
\<close>

lemma client_connect_outcomes:
  assumes "client_connect env (t, w) = (r, t', w')"
  shows "(case r of
      Inl e \<Rightarrow> t' = t \<and> w' = w \<and>
        (if client_is_running t then e = Client_AlreadyConnected
         else (\<exists>msg. fst env = Err msg \<and> e = Client_FailedToCreateEndpoint msg) \<or>
           (\<exists>msg. fst env = Ok () \<and> snd env = Err msg \<and> e = Client_FailedToConnect msg))
    | Inr rid \<Rightarrow> \<not> client_is_running t \<and> env = (Ok (), Ok ()) \<and> rid = next_listener w \<and>
        client_is_running t' \<and> client_ident t' = client_ident t \<and>
        client_num_active_connections w' t' = 0 \<and>
        client_runs w' = (client_runs w)(rid := new_client_run (ct_tunnel_addr t) (ct_protocol t)))"
  using assms
  by (cases env) (auto simp: client_connect_def client_is_running_def client_ident_def
      client_num_active_connections_def new_client_run_def hm_empty_def hm_len_def Let_def
      split: if_splits sum.splits)

text \<open>
  Disconnecting a client tunnel whose listener is alive sends the stop signal to the listener,
  closes its connection and endpoint and leaves the tunnel stopped; a second disconnect is refused
  with \<open>NotConnected\<close>, and the tunnel can connect again.
\<close>

lemma client_disconnect_outcomes:
  assumes "client_is_running t" and "ct_running_props t = Some props"
    and "cp_endpoint props = cp_stop_tx props" and "cp_connection props = cp_stop_tx props"
    and "\<not> listener_gone (cr_pc (client_runs w (cp_stop_tx props)))"
    and "client_disconnect (t, w) = (q, t', w')"
  shows "q = Returned (Ok ()) \<and> \<not> client_is_running t' \<and> client_ident t' = client_ident t \<and>
    client_num_active_connections w' t' = 0 \<and>
    client_runs w' (cp_stop_tx props) = (client_runs w (cp_stop_tx props))
      \<lparr>cr_stop_value := True, cr_connection_closed := True, cr_endpoint_closed := True\<rparr> \<and>
    client_disconnect (t', w') = (Returned (Err Client_NotConnected), t', w') \<and>
    (\<exists>rid t'' w''. client_connect reached (t', w') = (Ok rid, t'', w'') \<and> client_is_running t'')"
  using assms
  by (auto simp: client_disconnect_def client_connect_def client_is_running_def client_ident_def
      client_num_active_connections_def update_run_def reached_def Let_def)

lemma finished_run: "cr_pc r = C_Done res \<Longrightarrow> run_all client_step es r = r"
proof (induction es)
  case (Cons ev es)
  then have "client_step ev r = r" by (cases ev) auto
  with Cons show ?case by simp
qed simp

text \<open>
  C37. When the listener fails, nothing tells the tunnel: it still reports to run and refuses to
  connect, and the disconnect that should repair it panics. Only a disconnect after the panic
  resets the flag, after which the tunnel connects again. Here the tunnel's address is taken.
\<close>

theorem client_disconnect_panics_after_failure:
  assumes "\<not> client_is_running t" and "client_connect reached (t, w) = (Ok rid, t1, w1)"
    and "w2 = update_run rid (run_all client_step (Cev_Bind (Err e) # es)) w1"
    and "client_disconnect (t1, w2) = (q, t2, w3)" and "client_disconnect (t2, w3) = (q', t3, w4)"
  shows "cr_pc (client_runs w2 rid) = C_Done (Err (Client_IoError e)) \<and> client_is_running t1 \<and>
    client_connect reached (t1, w2) = (Err Client_AlreadyConnected, t1, w2) \<and>
    q = Panic \<and> client_is_running t2 \<and> q' = Returned (Ok ()) \<and> \<not> client_is_running t3 \<and>
    fst (client_connect reached (t3, w4)) = Ok (next_listener w4)"
proof -
  let ?failed = "(new_client_run (ct_tunnel_addr t) (ct_protocol t))\<lparr>cr_pc := C_Done (Err (Client_IoError e))\<rparr>"
  have run: "run_all client_step (Cev_Bind (Err e) # es)
      (new_client_run (ct_tunnel_addr t) (ct_protocol t)) = ?failed"
    using finished_run[of ?failed] by (simp add: new_client_run_def)
  have t1: "client_is_running t1" "ct_running_props t1 = Some
      \<lparr>cp_local_connections = rid, cp_endpoint = rid, cp_connection = rid, cp_stop_tx = rid\<rparr>"
    and w1: "client_runs w1 rid = new_client_run (ct_tunnel_addr t) (ct_protocol t)"
    using assms(1,2) by (auto simp: client_connect_def client_is_running_def reached_def Let_def)
  from w1 have w2: "client_runs w2 rid = ?failed"
    unfolding assms(3) update_run_def using run by (simp del: run_all.simps)
  have q: "q = Panic" "t2 = t1\<lparr>ct_running_props := None\<rparr>" "w3 = w2"
    using assms(4) t1 w2 by (simp_all add: client_disconnect_def client_is_running_def Let_def)
  have q': "q' = Returned (Ok ())" "t3 = t2\<lparr>ct_is_connected := False\<rparr>"
    using assms(5) t1 q(2) by (simp_all add: client_disconnect_def client_is_running_def)
  show ?thesis
    using t1 w2 q q'
    by (simp add: client_connect_def client_is_running_def reached_def Let_def)
qed

theorem client_disconnect_panics_after_failure_witness:
  "\<exists>t1 w1 w2. client_connect reached (demo_client_tunnel, empty_client_world) = (Ok 0, t1, w1) \<and>
     fst (client_disconnect (t1, w2)) = Panic"
proof -
  obtain t1 w1 where st: "client_connect reached (demo_client_tunnel, empty_client_world) = (Ok 0, t1, w1)"
    by (auto simp: client_connect_def demo_client_defs client_is_running_def Let_def)
  define w2 where "w2 = update_run 0 (run_all client_step [Cev_Bind (Err (Os_Error ''in use''))]) w1"
  obtain q t2 w3 where d: "client_disconnect (t1, w2) = (q, t2, w3)" by (cases "client_disconnect (t1, w2)")
  obtain q' t3 w4 where d': "client_disconnect (t2, w3) = (q', t3, w4)" by (cases "client_disconnect (t2, w3)")
  have "\<not> client_is_running demo_client_tunnel"
    by (simp add: demo_client_defs client_is_running_def)
  from client_disconnect_panics_after_failure[OF this st w2_def d d']
  have "fst (client_disconnect (t1, w2)) = Panic" unfolding d by simp
  with st show ?thesis by blast
qed

text \<open>
  A client tunnel reports at most one active connection, in every run of its listener.
\<close>

lemma client_active_connections_bound:
  assumes "ct_running_props t = Some props"
    and "client_runs w (cp_local_connections props) = run_all client_step es (new_client_run addr proto)"
  shows "client_num_active_connections w t \<le> 1"
  using assms client_inv_len[OF client_reachable_inv, of es addr proto]
  by (simp add: client_num_active_connections_def hm_len_def)

text \<open>
  C38. Creating a client tunnel: an address and protocol that are taken are refused and the state is
  kept, whatever the key; else the call panics on bytes that are not a public key; and else the new
  tunnel is stopped and found under its address and protocol, and every other tunnel is kept, so
  the same address can serve both protocols.
\<close>

theorem client_create_tunnel_outcomes:
  assumes "client_state_ok st" and "client_create_tunnel valid_key addr name secret proto st = (q, st')"
  shows "client_state_ok st' \<and>
    (case q of
       Panic \<Rightarrow> st' = st \<and> client_get_tunnel st addr proto = None \<and> \<not> valid_key secret
     | Returned (Inl e) \<Rightarrow> st' = st \<and> client_get_tunnel st addr proto \<noteq> None \<and>
         e = Client_TunnelAlreadyExists addr proto
     | Returned (Inr t) \<Rightarrow> client_get_tunnel st addr proto = None \<and> valid_key secret \<and>
         client_ident t = (name, secret, addr, proto) \<and> \<not> client_is_running t \<and>
         hm_len st' = Suc (hm_len st) \<and>
         (\<forall>a p. client_get_tunnel st' a p =
            (if (a, p) = (addr, proto) then Some t else client_get_tunnel st a p)))"
proof -
  have "client_state_ok st'"
    using client_state_ok_create[OF assms(1), of valid_key addr name secret proto] assms(2) by simp
  moreover have "hm_wf st" using assms(1) by (simp add: client_state_ok_def)
  ultimately show ?thesis
    using assms(2)
    by (auto simp: client_create_tunnel_def client_get_tunnel_def hm_contains_def client_ident_def
        client_is_running_def new_client_tunnel_def Let_def hm_simps hm.len_put split: if_splits)
qed

theorem client_create_tunnel_outcomes_witness:
  "fst (client_create_tunnel (\<lambda>k. k = [7]) (V4 0 25565) ''other'' [7] Tcp
     [((V4 0 25565, Tcp), demo_client_tunnel)]) =
   Returned (Err (Client_TunnelAlreadyExists (V4 0 25565) Tcp))"
proof -
  let ?st = "[((V4 0 25565, Tcp), demo_client_tunnel)]"
  have ok: "client_state_ok ?st"
    by (simp add: client_state_ok_def hm_wf_def hm_get_def demo_client_defs)
  obtain q st' where c: "client_create_tunnel (\<lambda>k. k = [7]) (V4 0 25565) ''other'' [7] Tcp ?st = (q, st')"
    by (cases "client_create_tunnel (\<lambda>k. k = [7]) (V4 0 25565) ''other'' [7] Tcp ?st")
  have "client_get_tunnel ?st (V4 0 25565) Tcp \<noteq> None"
    by (simp add: client_get_tunnel_def hm_get_def)
  with client_create_tunnel_outcomes[OF ok c] c show ?thesis
    by (auto split: outcome.splits sum.splits)
qed

end
