(* ===== verification/File_System.thy ===== *)
theory File_System
  imports Lantun_Prelude
begin

section \<open>Files\<close>

text \<open>
  The operations of \<open>std::fs\<close> and \<open>std::path\<close> that \<open>lantun-cli/src/config.rs\<close> uses, on a tree of
  directories and UTF-8 files without links: a path is the list of its components, so the root is
  the empty list. The faults of the operating system, a full disk or a missing permission, are
  arguments; \<open>std::fs::write\<close> truncates the file before it writes, so a fault in the middle leaves
  a part of the text.
\<close>

type_synonym path = "string list"

datatype fs_node = Dir | Text string | Other_Bytes

type_synonym file_system = "path \<Rightarrow> fs_node option"

datatype write_fault = No_Fault | Open_Fault io_error | Broken_Write nat io_error

definition path_exists :: "file_system \<Rightarrow> path \<Rightarrow> bool" where
  "path_exists fs p \<longleftrightarrow> fs p \<noteq> None"

definition path_parent :: "path \<Rightarrow> path option" where
  "path_parent p = (if p = [] then None else Some (butlast p))"

definition fs_read_to_string :: "path \<Rightarrow> file_system \<Rightarrow> (io_error, string) result" where
  "fs_read_to_string p fs =
     (case fs p of
        None \<Rightarrow> Err (Os_Error ''No such file or directory'')
      | Some Dir \<Rightarrow> Err (Os_Error ''Is a directory'')
      | Some Other_Bytes \<Rightarrow> Err (Os_Error ''stream did not contain valid UTF-8'')
      | Some (Text s) \<Rightarrow> Ok s)"

definition fs_write :: "write_fault \<Rightarrow> path \<Rightarrow> string \<Rightarrow> file_system \<Rightarrow> (io_error, unit) result \<times> file_system" where
  "fs_write fault p s fs =
     (if fs p = Some Dir then (Err (Os_Error ''Is a directory''), fs)
      else if fs p = None \<and> fs (butlast p) \<noteq> Some Dir
      then (Err (Os_Error ''No such file or directory''), fs)
      else case fault of
        No_Fault \<Rightarrow> (Ok (), fs(p \<mapsto> Text s))
      | Open_Fault e \<Rightarrow> (Err e, fs)
      | Broken_Write n e \<Rightarrow> (Err e, fs(p \<mapsto> Text (take n s))))"

text \<open>\<open>create_dir_all\<close> makes the missing directories from the root down to the path.\<close>

fun make_dirs :: "path \<Rightarrow> path \<Rightarrow> file_system \<Rightarrow> (io_error, unit) result \<times> file_system" where
  "make_dirs dn [] fs = (Ok (), fs)"
| "make_dirs dn (c # cs) fs =
     (case fs (dn @ [c]) of
        None \<Rightarrow> make_dirs (dn @ [c]) cs (fs(dn @ [c] \<mapsto> Dir))
      | Some Dir \<Rightarrow> make_dirs (dn @ [c]) cs fs
      | Some _ \<Rightarrow> (Err (Os_Error ''Not a directory''), fs))"

definition fs_create_dir_all ::
    "io_error option \<Rightarrow> path \<Rightarrow> file_system \<Rightarrow> (io_error, unit) result \<times> file_system" where
  "fs_create_dir_all fault p fs =
     (if fs p = Some Dir then (Ok (), fs)
      else case fault of Some e \<Rightarrow> (Err e, fs) | None \<Rightarrow> make_dirs [] p fs)"

lemma fs_write_frame: "q \<noteq> p \<Longrightarrow> snd (fs_write fault p s fs) q = fs q"
  by (simp add: fs_write_def split: write_fault.splits)

lemma fs_write_Ok: "fs_write fault p s fs = (Ok u, fs') \<Longrightarrow> fs' = fs(p \<mapsto> Text s)"
  by (auto simp: fs_write_def split: if_splits write_fault.splits)

lemma make_dirs_keeps: "fs q = Some n \<Longrightarrow> snd (make_dirs dn cs fs) q = Some n"
proof (induction dn cs fs rule: make_dirs.induct)
  case (2 dn c cs fs)
  then show ?case by (cases "q = dn @ [c]") (auto simp: fun_upd_def split: option.splits fs_node.splits)
qed simp

lemma make_dirs_new:
  "snd (make_dirs dn cs fs) q \<noteq> fs q \<Longrightarrow> \<exists>k > 0. k \<le> length cs \<and> q = dn @ take k cs"
proof (induction dn cs fs rule: make_dirs.induct)
  case (2 dn c cs fs)
  show ?case
  proof (cases "fs (dn @ [c])")
    case None
    show ?thesis
    proof (cases "q = dn @ [c]")
      case True
      then show ?thesis by (auto intro!: exI[of _ 1])
    next
      case False
      with 2 None have "snd (make_dirs (dn @ [c]) cs (fs(dn @ [c] \<mapsto> Dir))) q \<noteq> (fs(dn @ [c] \<mapsto> Dir)) q"
        by simp
      from "2.IH"(1)[OF None this] obtain k where "k \<le> length cs" "q = (dn @ [c]) @ take k cs" by blast
      then show ?thesis by (auto intro!: exI[of _ "Suc k"])
    qed
  next
    case (Some n)
    show ?thesis
    proof (cases n)
      case Dir
      with 2 Some have "snd (make_dirs (dn @ [c]) cs fs) q \<noteq> fs q" by simp
      with "2.IH"(2)[OF Some] Dir obtain k where "k \<le> length cs" "q = (dn @ [c]) @ take k cs" by blast
      then show ?thesis by (auto intro!: exI[of _ "Suc k"])
    qed (use 2 Some in auto)
  qed
qed simp

text \<open>Where no file is in the way, the directories are made.\<close>

lemma make_dirs_Ok:
  assumes "fs dn = Some Dir" and "\<forall>k \<le> length cs. fs (dn @ take k cs) \<in> {None, Some Dir}"
  shows "fst (make_dirs dn cs fs) = Ok () \<and> snd (make_dirs dn cs fs) (dn @ cs) = Some Dir"
  using assms
proof (induction dn cs fs rule: make_dirs.induct)
  case (2 dn c cs fs)
  have tails: "fs ((dn @ [c]) @ take k cs) \<in> {None, Some Dir}" if "k \<le> length cs" for k
    using "2.prems"(2)[rule_format, of "Suc k"] that by simp
  have "fs (dn @ [c]) \<in> {None, Some Dir}" using tails[of 0] by simp
  then consider "fs (dn @ [c]) = None" | "fs (dn @ [c]) = Some Dir" by auto
  then show ?case
  proof cases
    case 1
    have "fst (make_dirs (dn @ [c]) cs (fs(dn @ [c] \<mapsto> Dir))) = Ok () \<and>
        snd (make_dirs (dn @ [c]) cs (fs(dn @ [c] \<mapsto> Dir))) ((dn @ [c]) @ cs) = Some Dir"
      by (rule "2.IH"(1)[OF 1]) (use tails in auto)
    with 1 show ?thesis by simp
  next
    case 2
    have "fst (make_dirs (dn @ [c]) cs fs) = Ok () \<and> snd (make_dirs (dn @ [c]) cs fs) ((dn @ [c]) @ cs) = Some Dir"
      by (rule "2.IH"(2)[OF 2 refl]) (use tails 2 in auto)
    with 2 show ?thesis by simp
  qed
qed simp

lemma fs_create_dir_all_Ok:
  assumes "fs [] = Some Dir" and "\<forall>k \<le> length p. fs (take k p) \<in> {None, Some Dir}"
  shows "fst (fs_create_dir_all None p fs) = Ok () \<and> snd (fs_create_dir_all None p fs) p = Some Dir"
  using make_dirs_Ok[of fs "[]" p] assms by (simp add: fs_create_dir_all_def)

lemma fs_create_dir_all_new:
  assumes "snd (fs_create_dir_all fault p fs) q \<noteq> fs q"
  shows "prefix q p"
proof -
  have "snd (make_dirs [] p fs) q \<noteq> fs q"
    using assms by (auto simp: fs_create_dir_all_def split: if_splits option.splits)
  from make_dirs_new[OF this] show ?thesis by (auto intro: take_is_prefix)
qed

end
