(* ===== verification/Addr_Parse.thy ===== *)
theory Addr_Parse
  imports Net_Core
begin

section \<open>Reading addresses and command lines\<close>

text \<open>
  The standard library's \<open>FromStr\<close> of \<open>SocketAddrV4\<close>, with which the addresses of the command line
  are read: numbers with a limit on their value and digits, four octets without leading zeros, a
  port. The printing of \<open>Net_Core\<close> is read back as the same address. What is true of the
  numbers of every radix is stated in the locale \<open>radix\<close>.
\<close>

subsection \<open>Numbers\<close>

text \<open>\<open>char::to_digit\<close>, and a number of at most \<open>limit\<close> in the given radix.\<close>

definition to_digit :: "int \<Rightarrow> char \<Rightarrow> int option" where
  "to_digit r c =
     (let n = of_char c :: int;
          d = (if 48 \<le> n \<and> n \<le> 57 then n - 48 else if 97 \<le> n \<and> n \<le> 122 then n - 87
               else if 65 \<le> n \<and> n \<le> 90 then n - 55 else r)
      in if d < r then Some d else None)"

definition is_digit :: "int \<Rightarrow> char \<Rightarrow> bool" where
  "is_digit r c = (to_digit r c \<noteq> None)"

definition digits_value :: "int \<Rightarrow> string \<Rightarrow> int" where
  "digits_value r = foldl (\<lambda>n c. r * n + the (to_digit r c)) 0"

definition read_number :: "int \<Rightarrow> int \<Rightarrow> nat option \<Rightarrow> bool \<Rightarrow> string \<Rightarrow> (int \<times> string) option" where
  "read_number r limit max_digits allow_zero_prefix s =
     (let ds = takeWhile (is_digit r) s; n = digits_value r ds in
      if ds = [] \<or> limit < n \<or> (case max_digits of None \<Rightarrow> False | Some m \<Rightarrow> m < length ds) \<or>
         (\<not> allow_zero_prefix \<and> hd ds = CHR ''0'' \<and> 1 < length ds)
      then None
      else Some (n, dropWhile (is_digit r) s))"

lemma of_digit_char: "0 \<le> d \<Longrightarrow> d < 36 \<Longrightarrow> (of_char (digit_char d) :: int) = (if d < 10 then 48 + d else 87 + d)"
  by (simp add: digit_char_def of_char_of)

text \<open>What holds of the digits in every radix.\<close>

locale radix =
  fixes r :: int
  assumes two: "2 \<le> r" and letters: "r \<le> 36"
begin

lemma to_digit_char [simp]: "0 \<le> d \<Longrightarrow> d < r \<Longrightarrow> to_digit r (digit_char d) = Some d"
  using letters by (auto simp: to_digit_def of_digit_char Let_def)

lemma digit_char_zero: "0 \<le> d \<Longrightarrow> d < r \<Longrightarrow> digit_char d = CHR ''0'' \<longleftrightarrow> d = 0"
proof
  assume d: "0 \<le> d" "d < r" "digit_char d = CHR ''0''"
  have "to_digit r CHR ''0'' = Some 0" using two by (simp add: to_digit_def)
  with to_digit_char[OF d(1,2)] d(3) show "d = 0" by simp
qed (simp add: digit_char_def char_of_def)

lemma last_digit: "\<not> n < r \<Longrightarrow> show_num r n = show_num r (n div r) @ [digit_char (n mod r)]"
  using two by (subst show_num.simps) simp

lemma single_digit: "n < r \<Longrightarrow> show_num r n = [digit_char n]"
  by (simp add: show_num.simps)

text \<open>Facts about every number by its last digit.\<close>

lemma digits_induct [consumes 1, case_names single last]:
  assumes "0 \<le> n" and "\<And>n. 0 \<le> n \<Longrightarrow> n < r \<Longrightarrow> P n"
    and "\<And>n. r \<le> n \<Longrightarrow> 0 < n div r \<Longrightarrow> 0 \<le> n mod r \<Longrightarrow> n mod r < r \<Longrightarrow> P (n div r) \<Longrightarrow> P n"
  shows "P n"
  using assms(1)
proof (induction "nat n" arbitrary: n rule: less_induct)
  case less
  show ?case
  proof (cases "n < r")
    case False
    then have "n div r < n" "0 < n div r" "0 \<le> n mod r" "n mod r < r"
      using two by (simp_all add: int_div_less_self pos_imp_zdiv_pos_iff)
    with less(1)[of "n div r"] False show ?thesis by (intro assms(3)[of n]) simp_all
  qed (use less assms(2) in simp)
qed

lemma show_digits: "0 \<le> n \<Longrightarrow> list_all (is_digit r) (show_num r n) \<and> show_num r n \<noteq> []"
  by (induction n rule: digits_induct) (simp_all add: single_digit last_digit is_digit_def)

lemma digits_value_snoc: "digits_value r (s @ [c]) = r * digits_value r s + the (to_digit r c)"
  by (simp add: digits_value_def)

lemma show_value: "0 \<le> n \<Longrightarrow> digits_value r (show_num r n) = n"
proof (induction n rule: digits_induct)
  case (single n)
  then show ?case by (simp add: single_digit digits_value_def)
next
  case (last n)
  then show ?case by (simp add: last_digit digits_value_snoc)
qed

lemma no_leading_zero: "0 \<le> n \<Longrightarrow> hd (show_num r n) = CHR ''0'' \<longleftrightarrow> n = 0"
proof (induction n rule: digits_induct)
  case (single n)
  then show ?case by (simp add: single_digit digit_char_zero)
next
  case (last n)
  moreover have "n \<noteq> 0" using last(1) two by simp
  ultimately show ?case using show_digits[of "n div r"] by (simp add: last_digit)
qed

lemma show_length: "0 \<le> n \<Longrightarrow> n < r ^ k \<Longrightarrow> 0 < k \<Longrightarrow> length (show_num r n) \<le> k"
proof (induction n arbitrary: k rule: digits_induct)
  case (single n)
  then show ?case by (simp add: single_digit)
next
  case (last n)
  then obtain j where k: "k = Suc j" by (cases k) simp_all
  have "j \<noteq> 0" using last(1,6) k by (cases j) simp_all
  moreover have "r * (n div r) < r * r ^ j"
    using last(6) minus_mod_eq_mult_div[of n r] last(3) unfolding k power_Suc by linarith
  then have "n div r < r ^ j" using two by simp
  ultimately have "length (show_num r (n div r)) \<le> j" using last(5) by simp
  with last(1) k show ?case by (simp add: last_digit)
qed

text \<open>A printed number is read back, up to the first character that is not a digit.\<close>

lemma show_take:
  assumes "0 \<le> n" and "rest = [] \<or> \<not> is_digit r (hd rest)"
  shows "takeWhile (is_digit r) (show_num r n @ rest) = show_num r n" "dropWhile (is_digit r) (show_num r n @ rest) = rest"
proof -
  have "\<forall>c \<in> set (show_num r n). is_digit r c" using show_digits[OF assms(1)] by (simp add: list_all_iff)
  with assms(2) show "takeWhile (is_digit r) (show_num r n @ rest) = show_num r n"
    "dropWhile (is_digit r) (show_num r n @ rest) = rest"
    by (cases rest; simp add: takeWhile_append2 dropWhile_append2)+
qed

lemma read_show:
  assumes "0 \<le> n" and "n \<le> limit" and "rest = [] \<or> \<not> is_digit r (hd rest)"
    and "\<And>m. digits = Some m \<Longrightarrow> 0 < m \<and> n < r ^ m"
  shows "read_number r limit digits zero (show_num r n @ rest) = Some (n, rest)"
proof -
  have "\<not> (hd (show_num r n) = CHR ''0'' \<and> 1 < length (show_num r n))"
    using no_leading_zero[OF assms(1)] two by (auto simp: single_digit)
  moreover have "\<not> m < length (show_num r n)" if "digits = Some m" for m
    using show_length[OF assms(1)] assms(4)[OF that] by (simp add: not_less)
  ultimately show ?thesis
    using assms(2) show_digits[OF assms(1)]
    unfolding read_number_def show_take[OF assms(1,3)] show_value[OF assms(1)] Let_def
    by (auto split: option.splits)
qed

end

interpretation dec: radix 10
  by unfold_locales simp_all

interpretation hex: radix 16
  by unfold_locales simp_all

lemma read_octet:
  "0 \<le> n \<Longrightarrow> n \<le> 255 \<Longrightarrow> rest = [] \<or> \<not> is_digit 10 (hd rest) \<Longrightarrow>
   read_number 10 255 (Some 3) False (show_dec n @ rest) = Some (n, rest)"
  by (rule dec.read_show) auto

lemma read_port:
  "0 \<le> n \<Longrightarrow> n \<le> 65535 \<Longrightarrow> rest = [] \<or> \<not> is_digit 10 (hd rest) \<Longrightarrow>
   read_number 10 65535 None True (show_dec n @ rest) = Some (n, rest)"
  by (rule dec.read_show) auto

subsection \<open>Addresses\<close>

definition read_char :: "char \<Rightarrow> string \<Rightarrow> string option" where
  "read_char c s = (case s of [] \<Rightarrow> None | x # xs \<Rightarrow> if x = c then Some xs else None)"

fun read_octets :: "nat \<Rightarrow> string \<Rightarrow> (int list \<times> string) option" where
  "read_octets 0 s = Some ([], s)"
| "read_octets (Suc k) s =
     (case read_number 10 255 (Some 3) False s of
        None \<Rightarrow> None
      | Some (n, s') \<Rightarrow>
          (case (if k = 0 then Some s' else read_char CHR ''.'' s') of
             None \<Rightarrow> None
           | Some s'' \<Rightarrow> map_option (apfst ((#) n)) (read_octets k s'')))"

definition octets_addr :: "int list \<Rightarrow> u32" where
  "octets_addr ns = word_of_int (foldl (\<lambda>a n. 256 * a + n) 0 ns)"

definition read_addr_v4 :: "string \<Rightarrow> socket_addr option" where
  "read_addr_v4 s =
     (case read_octets 4 s of
        None \<Rightarrow> None
      | Some (ns, s') \<Rightarrow>
          (case read_char CHR '':'' s' of
             None \<Rightarrow> None
           | Some s'' \<Rightarrow>
               (case read_number 10 65535 None True s'' of
                  Some (p, []) \<Rightarrow> Some (V4 (octets_addr ns) (word_of_int p))
                | _ \<Rightarrow> None)))"

lemma octet_bounds: "0 \<le> uint (b :: byte)" "uint b \<le> 255"
  using unsigned_less[of b, where 'a = int] by simp_all

lemma octets_addr_octets: "octets_addr (map uint (ipv4_octets ip)) = ip"
proof -
  have octet: "uint (ucast (drop_bit k ip) :: byte) = uint ip div 2 ^ k mod 256" for k
  proof -
    have "uint (ucast (drop_bit k ip) :: byte) = take_bit 8 (drop_bit k (uint ip))"
      using unsigned_less[of ip, where 'a = int]
      by (simp add: unsigned_ucast_eq unsigned_drop_bit_eq take_bit_int_eq_self)
    then show ?thesis by (simp add: take_bit_eq_mod drop_bit_eq_div)
  qed
  have top: "uint ip div 16777216 mod 256 = uint ip div 16777216"
    using unsigned_less[of ip, where 'a = int] by (intro mod_pos_pos_trivial) (simp_all add: pos_imp_zdiv_nonneg_iff)
  have step: "256 * (uint ip div (256 * m)) + uint ip div m mod 256 = uint ip div m" if "0 < m" for m
    using div_mult_mod_eq[of "uint ip div m" 256] that by (simp add: div_mult2_eq[symmetric] mult.commute zdiv_zmult2_eq)
  have steps: "256 * (uint ip div 16777216) + uint ip div 65536 mod 256 = uint ip div 65536"
    "256 * (uint ip div 65536) + uint ip div 256 mod 256 = uint ip div 256"
    "256 * (uint ip div 256) + uint ip mod 256 = uint ip"
    using step[of 65536] step[of 256] step[of 1] by simp_all
  have "(2::int) ^ 24 = 16777216" "(2::int) ^ 16 = 65536" "(2::int) ^ 8 = 256" "(2::int) ^ 0 = 1" by simp_all
  note powers = this
  have "map uint (ipv4_octets ip) =
      [uint ip div 16777216, uint ip div 65536 mod 256, uint ip div 256 mod 256, uint ip mod 256]"
    by (simp only: ipv4_octets_def list.map octet powers top div_by_1)
  then have "octets_addr (map uint (ipv4_octets ip)) = word_of_int (uint ip)"
    by (simp only: octets_addr_def foldl.simps mult_zero_right add_0_left steps)
  then show ?thesis by simp
qed

lemma read_octets_join:
  assumes "ns \<noteq> []" and "list_all (\<lambda>n. 0 \<le> n \<and> n \<le> 255) ns" and "rest = [] \<or> \<not> is_digit 10 (hd rest)"
  shows "read_octets (length ns) (join_with ''.'' (map show_dec ns) @ rest) = Some (ns, rest)"
  using assms
proof (induction ns rule: induct_list012)
  case (2 n)
  then show ?case by (simp add: read_octet)
next
  case (3 m n ns)
  have "\<not> is_digit 10 CHR ''.''" by (simp add: is_digit_def to_digit_def)
  with 3 show ?case by (simp add: read_octet read_char_def)
qed simp

lemma read_show_addr: "read_addr_v4 (show_addr (V4 ip p)) = Some (V4 ip p)"
proof -
  let ?ns = "map uint (ipv4_octets ip)"
  let ?rest = "'':'' @ show_dec (uint p)"
  have rest: "?rest = [] \<or> \<not> is_digit 10 (hd ?rest)" by (simp add: is_digit_def to_digit_def)
  have four: "length ?ns = 4" "?ns \<noteq> []" by (simp_all add: ipv4_octets_def)
  have "list_all (\<lambda>n. 0 \<le> n \<and> n \<le> 255) ?ns" by (simp add: list_all_iff octet_bounds)
  from read_octets_join[OF four(2) this rest]
  have "read_octets 4 (show_addr (V4 ip p)) = Some (?ns, ?rest)"
    unfolding four(1) by (simp add: show_ipv4_def comp_def)
  moreover have "read_number 10 65535 None True (show_dec (uint p)) = Some (uint p, [])"
    using read_port[of "uint p" "[]"] unsigned_less[of p, where 'a = int] by simp
  ultimately show ?thesis
    by (simp add: read_addr_v4_def read_char_def octets_addr_octets)
qed

subsection \<open>Words\<close>

text \<open>The words of a command line, separated by spaces: what a shell makes of a line without quotes.\<close>

function words :: "string \<Rightarrow> string list" where
  "words s =
     (case dropWhile (\<lambda>c. c = CHR '' '') s of
        [] \<Rightarrow> []
      | c # s' \<Rightarrow>
          (c # takeWhile (\<lambda>c. c \<noteq> CHR '' '') s') # words (dropWhile (\<lambda>c. c \<noteq> CHR '' '') s'))"
  by pat_completeness auto
termination
proof (relation "measure length")
  fix s c s'
  assume "dropWhile (\<lambda>c. c = CHR '' '') s = c # s'"
  then have "Suc (length s') \<le> length s" by (metis length_Cons length_dropWhile_le)
  then show "(dropWhile (\<lambda>c. c \<noteq> CHR '' '') s', s) \<in> measure length"
    using length_dropWhile_le[of "\<lambda>c. c \<noteq> CHR '' ''" s'] by simp
qed simp

declare words.simps [simp del]

definition is_word :: "string \<Rightarrow> bool" where
  "is_word w \<longleftrightarrow> w \<noteq> [] \<and> CHR '' '' \<notin> set w"

lemma words_space [simp]: "words (CHR '' '' # s) = words s"
  by (subst (1 2) words.simps) simp

lemma words_single: "is_word w \<Longrightarrow> words w = [w]"
proof (cases w)
  case (Cons c cs)
  assume "is_word w"
  with Cons have "c \<noteq> CHR '' ''" and "\<forall>x \<in> set cs. x \<noteq> CHR '' ''" by (auto simp: is_word_def)
  moreover have "words [] = []" by (simp add: words.simps[of "[]"])
  ultimately have "words (dropWhile (\<lambda>c. c \<noteq> CHR '' '') cs) = []"
    using dropWhile_eq_Nil_conv[of "\<lambda>c. c \<noteq> CHR '' ''" cs] by metis
  with Cons \<open>c \<noteq> _\<close> \<open>\<forall>x \<in> set cs. _ x\<close> show ?thesis by (simp add: words.simps[of "c # cs"])
qed (simp add: is_word_def words.simps[of "[]"])

lemma words_word:
  assumes "is_word w"
  shows "words (w @ CHR '' '' # s) = w # words s"
proof (cases w)
  case (Cons c cs)
  with assms have "c \<noteq> CHR '' ''" and cs: "\<forall>x \<in> set cs. x \<noteq> CHR '' ''" by (auto simp: is_word_def)
  with Cons show ?thesis
    by (simp add: words.simps[of "c # cs @ CHR '' '' # s"] takeWhile_append2 dropWhile_append2)
qed (use assms in \<open>simp add: is_word_def\<close>)

lemma show_dec_word: "0 \<le> n \<Longrightarrow> is_word (show_dec n)"
  using dec.show_digits[of n] by (auto simp: is_word_def list_all_iff is_digit_def to_digit_def)

lemma join_with_chars: "set (join_with sep xs) \<subseteq> set sep \<union> (\<Union>x \<in> set xs. set x)"
  by (induction sep xs rule: join_with.induct) auto

lemma show_addr_v4_word: "is_word (show_addr (V4 ip p))"
proof -
  have "CHR '' '' \<notin> set (show_dec (uint w))" for w :: "'a::len word"
    using show_dec_word[of "uint w"] by (simp add: is_word_def)
  moreover from this have "CHR '' '' \<notin> set (show_ipv4 ip)"
    using join_with_chars[of "''.''" "map (\<lambda>b. show_dec (uint b)) (ipv4_octets ip)"]
    by (auto simp: show_ipv4_def)
  ultimately show ?thesis by (simp add: is_word_def)
qed

lemma protocol_word: "is_word (tunnel_protocol_fmt p)"
  by (cases p) (simp_all add: is_word_def)

end
