(* ===== verification/Addr_V6.thy ===== *)
theory Addr_V6
  imports Addr_Parse "HOL-Library.Monad_Syntax"
begin

section \<open>Reading IPv6 addresses\<close>

text \<open>
  The rest of the standard library's \<open>FromStr\<close> of \<open>SocketAddr\<close>: an IPv6 address in brackets, with the
  groups before and after \<open>::\<close>, an embedded IPv4 address and a scope identifier. Every address
  that can be read is read back from its printing; the flow label is not part of the text.
\<close>

subsection \<open>Groups\<close>

text \<open>At most \<open>left\<close> groups; every group but the first one stands after a colon.\<close>

definition after_sep :: "nat \<Rightarrow> (string \<Rightarrow> ('a \<times> string) option) \<Rightarrow> string \<Rightarrow> ('a \<times> string) option" where
  "after_sep i read s = (if i = 0 then read s else do {s' \<leftarrow> read_char CHR '':'' s; read s'})"

abbreviation read_group :: "string \<Rightarrow> (int \<times> string) option" where
  "read_group \<equiv> read_number 16 65535 (Some 4) True"

fun read_groups :: "nat \<Rightarrow> nat \<Rightarrow> string \<Rightarrow> int list \<times> bool \<times> string" where
  "read_groups 0 i s = ([], False, s)"
| "read_groups (Suc left) i s =
     (case (if 0 < left then after_sep i (read_octets 4) s else None) of
        Some (ns, s') \<Rightarrow> ([256 * ns ! 0 + ns ! 1, 256 * ns ! 2 + ns ! 3], True, s')
      | None \<Rightarrow>
          (case after_sep i read_group s of
             None \<Rightarrow> ([], False, s)
           | Some (g, s') \<Rightarrow> (case read_groups left (Suc i) s' of (gs, v4, s'') \<Rightarrow> (g # gs, v4, s''))))"

definition segments_addr :: "int list \<Rightarrow> 128 word" where
  "segments_addr ns = word_of_int (foldl (\<lambda>a n. 65536 * a + n) 0 ns)"

definition read_ipv6 :: "string \<Rightarrow> (128 word \<times> string) option" where
  "read_ipv6 s =
     (case read_groups 8 0 s of (head, v4, s1) \<Rightarrow>
        if length head = 8 then Some (segments_addr head, s1)
        else if v4 then None
        else do {
          s2 \<leftarrow> read_char CHR '':'' s1;
          s3 \<leftarrow> read_char CHR '':'' s2;
          case read_groups (7 - length head) 0 s3 of (tail, v4', s4) \<Rightarrow>
            Some (segments_addr (head @ replicate (8 - length head - length tail) 0 @ tail), s4)
        })"

definition read_scope :: "string \<Rightarrow> int \<times> string" where
  "read_scope s =
     (case do {s' \<leftarrow> read_char CHR ''%'' s; read_number 10 4294967295 None True s'} of
        None \<Rightarrow> (0, s)
      | Some r \<Rightarrow> r)"

definition read_addr_v6 :: "string \<Rightarrow> socket_addr option" where
  "read_addr_v6 s = do {
     s1 \<leftarrow> read_char CHR ''['' s;
     (ip, s2) \<leftarrow> read_ipv6 s1;
     let r = read_scope s2;
     s4 \<leftarrow> read_char CHR '']'' (snd r);
     s5 \<leftarrow> read_char CHR '':'' s4;
     (p, s6) \<leftarrow> read_number 10 65535 None True s5;
     (if s6 = [] then Some (V6 ip (word_of_int p) 0 (word_of_int (fst r))) else None)
   }"

definition read_addr :: "string \<Rightarrow> socket_addr option" where
  "read_addr s = (case read_addr_v4 s of Some a \<Rightarrow> Some a | None \<Rightarrow> read_addr_v6 s)"

text \<open>The addresses that have a text.\<close>

fun text_addr :: "socket_addr \<Rightarrow> bool" where
  "text_addr (V4 ip p) = True"
| "text_addr (V6 ip p flow scope) = (flow = 0)"

lemma read_addr_text:
  assumes "read_addr s = Some a"
  shows "text_addr a"
proof -
  have "text_addr a" if "read_addr_v4 s = Some a"
    using that by (auto simp: read_addr_v4_def split: option.splits prod.splits list.splits)
  moreover have "text_addr a" if "read_addr_v6 s = Some a"
    using that by (auto simp: read_addr_v6_def Let_def bind_eq_Some_conv split: prod.splits if_splits)
  ultimately show ?thesis using assms by (auto simp: read_addr_def split: option.splits)
qed

subsection \<open>Words as lists of digits\<close>

lemma horner:
  fixes x :: int
  shows "foldl (\<lambda>a n. 2 ^ w * a + n) a (map (\<lambda>k. x div 2 ^ (w * k) mod 2 ^ w) (rev [0..<m])) =
    a * 2 ^ (w * m) + x mod 2 ^ (w * m)"
proof (induction m arbitrary: a)
  case (Suc m)
  have "x mod 2 ^ (w * Suc m) = 2 ^ (w * m) * (x div 2 ^ (w * m) mod 2 ^ w) + x mod 2 ^ (w * m)"
    using zmod_zmult2_eq[of "2 ^ w" x "2 ^ (w * m)"] by (simp add: power_add mult.commute)
  then show ?case by (simp add: Suc) (simp add: power_add algebra_simps)
qed simp

lemma uint_part: "uint (ucast (drop_bit k (x :: 'a::len word)) :: 'b::len word) = uint x div 2 ^ k mod 2 ^ LENGTH('b)"
proof -
  have "uint (ucast (drop_bit k x) :: 'b word) = take_bit LENGTH('b) (drop_bit k (uint x))"
    using unsigned_less[of x, where 'a = int]
    by (simp add: unsigned_ucast_eq unsigned_drop_bit_eq take_bit_int_eq_self)
  then show ?thesis by (simp add: take_bit_eq_mod drop_bit_eq_div)
qed

lemma segments_ints: "map uint (ipv6_segments ip) = map (\<lambda>k. uint ip div 2 ^ (16 * k) mod 2 ^ 16) (rev [0..<8])"
proof -
  have "[112, 96, 80, 64, 48, 32, 16, 0] = map ((*) 16) (rev [0..<8 :: nat])" by (simp add: upt_rec)
  then show ?thesis unfolding ipv6_segments_def by (simp only: list.map_comp comp_def uint_part) simp
qed

lemma segments_addr_segments: "segments_addr (map uint (ipv6_segments ip)) = ip"
proof -
  have "foldl (\<lambda>a n. 65536 * a + n) 0 (map uint (ipv6_segments ip)) = uint ip mod 2 ^ 128"
    unfolding segments_ints using horner[of 16 0 "uint ip" 8] by simp
  then show ?thesis using unsigned_less[of ip, where 'a = int] by (simp add: segments_addr_def)
qed

subsection \<open>Printed groups\<close>

text \<open>The groups from the \<open>i\<close>-th one on, and the texts at which a list of groups ends.\<close>

fun group_text :: "nat \<Rightarrow> int list \<Rightarrow> string" where
  "group_text i [] = []"
| "group_text i (g # gs) = (if i = 0 then [] else '':'') @ show_hex g @ group_text (Suc i) gs"

fun ends_groups :: "string \<Rightarrow> bool" where
  "ends_groups (c # s) \<longleftrightarrow> \<not> is_digit 16 c \<and> (c = CHR '':'' \<longrightarrow> s \<noteq> [] \<and> \<not> is_digit 16 (hd s))"
| "ends_groups [] \<longleftrightarrow> False"

lemma group_text_Suc [simp]: "group_text (Suc (Suc i)) gs = group_text (Suc i) gs"
  by (induction gs arbitrary: i) simp_all

lemma join_groups: "join_with '':'' (map show_hex gs) = group_text 0 gs"
proof -
  have "gs \<noteq> [] \<Longrightarrow> group_text (Suc i) gs = '':'' @ join_with '':'' (map show_hex gs)" for i
    by (induction gs arbitrary: i rule: induct_list012) simp_all
  then show ?thesis by (cases gs; cases "tl gs") auto
qed

lemma colon_no_digit [simp]: "\<not> is_digit 16 CHR '':''" "\<not> is_digit 10 CHR '':''"
  by (simp_all add: is_digit_def to_digit_def)

lemma group_text_ends:
  "ends_groups rest \<Longrightarrow> group_text (Suc i) gs @ rest \<noteq> [] \<and> \<not> is_digit 16 (hd (group_text (Suc i) gs @ rest))"
  by (cases gs; cases rest) simp_all

lemma read_number_none: "s = [] \<or> \<not> is_digit r (hd s) \<Longrightarrow> read_number r limit digits zero s = None"
  by (cases s) (simp_all add: read_number_def)

lemma no_group: "ends_groups rest \<Longrightarrow> after_sep i read_group rest = None"
  by (cases rest) (auto simp: after_sep_def read_char_def read_number_none)

text \<open>An IPv4 address has dots.\<close>

lemma read_number_suffix: "read_number r limit digits zero s = Some (n, s') \<Longrightarrow> set s' \<subseteq> set s"
  by (auto simp: read_number_def Let_def dest: set_dropWhileD split: if_splits)

lemma no_dot_no_ipv4:
  assumes "CHR ''.'' \<notin> set s"
  shows "after_sep i (read_octets 4) s = None"
proof -
  have "read_octets (Suc 3) s = None" if "CHR ''.'' \<notin> set s" for s
    unfolding read_octets.simps using that read_number_suffix[of 10 255 "Some 3" False s]
    by (auto simp: read_char_def split: option.splits list.splits)
  with assms show ?thesis
    by (auto simp: after_sep_def read_char_def split: list.splits)
qed

lemma read_group_show:
  "0 \<le> g \<Longrightarrow> g \<le> 65535 \<Longrightarrow> rest = [] \<or> \<not> is_digit 16 (hd rest) \<Longrightarrow> read_group (show_hex g @ rest) = Some (g, rest)"
  by (rule hex.read_show) auto

lemma read_groups_text:
  assumes "list_all (\<lambda>g. 0 \<le> g \<and> g \<le> 65535) gs" and "length gs \<le> left" and "ends_groups rest"
    and "CHR ''.'' \<notin> set (group_text i gs @ rest)"
  shows "read_groups left i (group_text i gs @ rest) = (gs, False, rest)"
  using assms
proof (induction gs arbitrary: i left)
  case Nil
  then show ?case by (cases left) (simp_all add: no_group no_dot_no_ipv4)
next
  case (Cons g gs)
  then obtain l where l: "left = Suc l" by (cases left) simp_all
  have "after_sep i read_group (group_text i (g # gs) @ rest) = Some (g, group_text (Suc i) gs @ rest)"
    using Cons.prems group_text_ends[OF Cons.prems(3), of i gs]
    by (cases i) (simp_all add: after_sep_def read_char_def read_group_show)
  moreover have "after_sep i (read_octets 4) (group_text i (g # gs) @ rest) = None"
    by (rule no_dot_no_ipv4[OF Cons.prems(4)])
  moreover have "read_groups l (Suc i) (group_text (Suc i) gs @ rest) = (gs, False, rest)"
    using Cons.prems l by (intro Cons.IH) auto
  ultimately show ?case using Cons.prems(2) by (auto simp: l simp del: group_text.simps)
qed

subsection \<open>Runs of zeros\<close>

definition zero_run :: "u16 list \<Rightarrow> nat \<times> nat \<Rightarrow> bool" where
  "zero_run ss r \<longleftrightarrow> fst r + snd r \<le> length ss \<and> (\<forall>k < snd r. ss ! (fst r + k) = 0)"

lemma zero_run_append: "zero_run ss r \<Longrightarrow> zero_run (ss @ ss') r"
  by (auto simp: zero_run_def nth_append)

lemma zero_span_run:
  assumes "zero_run pre cur" and "snd cur \<noteq> 0 \<longrightarrow> fst cur + snd cur = length pre" and "zero_run pre best"
  shows "zero_run (pre @ ss) (zero_span (length pre) ss cur best)"
  using assms
proof (induction ss arbitrary: pre cur best)
  case (Cons s ss)
  let ?cur = "(if snd cur = 0 then length pre else fst cur, Suc (snd cur))"
  have app: "pre @ s # ss = (pre @ [s]) @ ss" by simp
  show ?case
  proof (cases "s = 0")
    case True
    have run: "zero_run (pre @ [s]) ?cur" "fst ?cur + snd ?cur = length (pre @ [s])"
      using Cons.prems(1,2) True by (auto simp: zero_run_def nth_append less_Suc_eq)
    have "zero_run (pre @ [s]) (if snd best < snd ?cur then ?cur else best)"
      using run(1) Cons.prems(3) by (auto intro: zero_run_append)
    with run show ?thesis
      unfolding app using Cons.IH[of "pre @ [s]" ?cur] True by (simp add: Let_def)
  next
    case False
    have "zero_run (pre @ [s]) (0, 0)" by (simp add: zero_run_def)
    with Cons.prems(3) show ?thesis
      unfolding app using Cons.IH[of "pre @ [s]" "(0, 0)" best] False by (simp add: zero_run_append)
  qed
qed simp

lemma zero_span_split:
  assumes "zero_span 0 ss (0, 0) (0, 0) = (start, n)"
  shows "start + n \<le> length ss" "ss = take start ss @ replicate n 0 @ drop (start + n) ss"
proof -
  have run: "zero_run ss (start, n)"
    using zero_span_run[of "[]" "(0, 0)" "(0, 0)" ss] assms by (simp add: zero_run_def)
  then show "start + n \<le> length ss" by (simp add: zero_run_def)
  with run have "take n (drop start ss) = replicate n 0"
    by (intro nth_equalityI) (auto simp: zero_run_def)
  then show "ss = take start ss @ replicate n 0 @ drop (start + n) ss"
    by (metis append_take_drop_id drop_drop add.commute)
qed

subsection \<open>The round trip\<close>

lemma hex_chars: "0 \<le> g \<Longrightarrow> c \<in> set (show_hex g) \<Longrightarrow> is_digit 16 c"
  using hex.show_digits by (auto simp: list_all_iff)

lemma group_text_chars: "list_all (\<lambda>g. 0 \<le> g) gs \<Longrightarrow> c \<in> set (group_text i gs) \<Longrightarrow> c = CHR '':'' \<or> is_digit 16 c"
  by (induction gs arbitrary: i) (auto simp: hex_chars split: if_splits)

lemma group_text_dots: "list_all (\<lambda>g. 0 \<le> g) gs \<Longrightarrow> CHR ''.'' \<notin> set (group_text i gs)"
  using group_text_chars[of gs "CHR ''.''"] by (auto simp: is_digit_def to_digit_def)

lemma u16_bounds: "0 \<le> uint (w :: u16)" "uint w \<le> 65535"
  using unsigned_less[of w, where 'a = int] by simp_all

lemma u16_lists: "list_all (\<lambda>g. 0 \<le> g \<and> g \<le> 65535) (map uint (ws :: u16 list))" "list_all (\<lambda>g. 0 \<le> g) (map uint ws)"
  by (simp_all add: list_all_iff u16_bounds)

lemma length_segments [simp]: "length (ipv6_segments ip) = 8"
  by (simp add: ipv6_segments_def)

text \<open>The groups of an address around its longest run of zeros.\<close>

lemma read_ipv6_elided:
  assumes "ipv6_segments ip = head @ replicate n 0 @ tail" and "1 < n"
    and "ends_groups rest" and "CHR ''.'' \<notin> set rest"
  shows "read_ipv6 (group_text 0 (map uint head) @ ''::'' @ group_text 0 (map uint tail) @ rest) = Some (ip, rest)"
proof -
  let ?h = "map uint head" and ?t = "map uint tail"
  have len: "length head + n + length tail = 8"
    using arg_cong[OF assms(1), of length] by simp
  have front: "read_groups 8 0 (group_text 0 ?h @ ''::'' @ group_text 0 ?t @ rest) =
      (?h, False, ''::'' @ group_text 0 ?t @ rest)"
    by (rule read_groups_text) (use len assms(2,4) u16_lists group_text_dots in auto)
  have rear: "read_groups (7 - length head) 0 (group_text 0 ?t @ rest) = (?t, False, rest)"
    by (rule read_groups_text) (use len assms(2-4) u16_lists group_text_dots in auto)
  have fill: "8 - length head - length tail = n" using len by simp
  have "segments_addr (?h @ replicate n 0 @ ?t) = ip"
    using segments_addr_segments[of ip] unfolding assms(1) by simp
  with front rear fill len assms(2) show ?thesis
    by (simp add: read_ipv6_def read_char_def)
qed

lemma read_ipv6_full:
  assumes "ends_groups rest" and "CHR ''.'' \<notin> set rest"
  shows "read_ipv6 (group_text 0 (map uint (ipv6_segments ip)) @ rest) = Some (ip, rest)"
proof -
  have "read_groups 8 0 (group_text 0 (map uint (ipv6_segments ip)) @ rest) = (map uint (ipv6_segments ip), False, rest)"
    by (rule read_groups_text) (use assms u16_lists group_text_dots in auto)
  then show ?thesis by (simp add: read_ipv6_def segments_addr_segments)
qed

text \<open>An address that is printed with an IPv4 address at its end.\<close>

lemma octet_pairs:
  fixes x :: int
  shows "256 * (x div 2 ^ (k + 8) mod 256) + x div 2 ^ k mod 256 = x div 2 ^ k mod 65536"
  using zmod_zmult2_eq[of 256 "x div 2 ^ k" 256] by (simp add: zdiv_zmult2_eq[symmetric] power_add)

lemma mapped_octets:
  fixes ip :: "128 word"
  defines "ns \<equiv> map uint (ipv4_octets (ucast ip))"
  shows "length ns = 4" "list_all (\<lambda>n. 0 \<le> n \<and> n \<le> 255) ns"
    "[256 * ns ! 0 + ns ! 1, 256 * ns ! 2 + ns ! 3] = drop 6 (map uint (ipv6_segments ip))"
proof -
  let ?x = "uint ip"
  have part: "uint (ucast (drop_bit k (ucast ip :: u32)) :: byte) = ?x div 2 ^ k mod 256" if "k \<in> {0, 8, 16, 24}" for k
  proof -
    have "uint (ucast ip :: u32) = ?x mod 2 ^ 32" using uint_part[where 'b = 32, of 0 ip] by simp
    moreover have "take_bit 8 (drop_bit k (take_bit 32 ?x)) = take_bit 8 (drop_bit k ?x)"
      using that by (auto simp: drop_bit_take_bit)
    then have "?x mod 2 ^ 32 div 2 ^ k mod 2 ^ 8 = ?x div 2 ^ k mod 2 ^ 8"
      by (simp only: take_bit_eq_mod drop_bit_eq_div)
    ultimately show ?thesis using uint_part[where 'b = 8, of k "ucast ip :: u32"] by simp
  qed
  have ns: "ns = [?x div 2 ^ 24 mod 256, ?x div 2 ^ 16 mod 256, ?x div 2 ^ 8 mod 256, ?x div 2 ^ 0 mod 256]"
    unfolding ns_def ipv4_octets_def list.map part[of 24] by (simp only: part insert_iff simp_thms)
  show "length ns = 4" by (simp add: ns)
  show "list_all (\<lambda>n. 0 \<le> n \<and> n \<le> 255) ns" by (simp add: ns_def list_all_iff octet_bounds)
  have "drop 6 (map uint (ipv6_segments ip)) = [?x div 2 ^ 16 mod 65536, ?x div 2 ^ 0 mod 65536]"
    unfolding segments_ints by (simp add: upt_rec)
  with octet_pairs[of ?x 16] octet_pairs[of ?x 0] show
    "[256 * ns ! 0 + ns ! 1, 256 * ns ! 2 + ns ! 3] = drop 6 (map uint (ipv6_segments ip))"
    by (simp add: ns)
qed

lemma read_ipv6_mapped:
  assumes "take 5 (ipv6_segments ip) = [0, 0, 0, 0, 0]" and "ipv6_segments ip ! 5 = 65535"
    and "rest = [] \<or> \<not> is_digit 10 (hd rest)"
  shows "read_ipv6 (''::ffff:'' @ show_ipv4 (ucast ip) @ rest) = Some (ip, rest)"
proof -
  let ?segs = "map uint (ipv6_segments ip)" and ?ns = "map uint (ipv4_octets (ucast ip))"
  let ?ipv4 = "show_ipv4 (ucast ip) @ rest"
  have four: "length ?ns = 4" "?ns \<noteq> []" using mapped_octets(1)[of ip] by auto
  have "read_octets 4 ?ipv4 = Some (?ns, rest)"
    using read_octets_join[OF four(2) mapped_octets(2) assms(3)] unfolding four(1)
    by (simp add: show_ipv4_def comp_def)
  then have v4: "read_groups (Suc 5) 1 ('':'' @ ?ipv4) = (drop 6 ?segs, True, rest)"
    using mapped_octets(3)[of ip] unfolding read_groups.simps(2) by (simp add: after_sep_def read_char_def)
  have "show_hex 65535 = ''ffff''" by (simp add: show_num.simps digit_char_def char_of_def)
  then have "read_group (''ffff'' @ '':'' @ ?ipv4) = Some (65535, '':'' @ ?ipv4)"
    using read_group_show[of 65535 "'':'' @ ?ipv4"] by simp
  moreover have f: "\<not> is_digit 10 CHR ''f''" by (simp add: is_digit_def to_digit_def)
  ultimately have tail: "read_groups (Suc 6) 0 (''ffff'' @ '':'' @ ?ipv4) = (65535 # drop 6 ?segs, True, rest)"
    unfolding read_groups.simps(2) using v4 by (simp add: after_sep_def read_number_none read_octets.simps(2)[of 3, simplified])
  have head: "read_groups (Suc 7) 0 (CHR '':'' # s) = ([], False, CHR '':'' # s)" for s
    unfolding read_groups.simps(2) by (simp add: after_sep_def read_number_none read_octets.simps(2)[of 3, simplified])
  have five: "replicate 5 (0 :: int) = [0, 0, 0, 0, 0]" by (simp add: numeral_eq_Suc)
  have "ipv6_segments ip = take 5 (ipv6_segments ip) @ ipv6_segments ip ! 5 # drop 6 (ipv6_segments ip)"
    using id_take_nth_drop[of 5 "ipv6_segments ip"] by simp
  then have "?segs = map uint ([0, 0, 0, 0, 0] @ 65535 # drop 6 (ipv6_segments ip))"
    unfolding assms(1,2) by (rule arg_cong)
  then have "?segs = replicate 5 0 @ 65535 # drop 6 ?segs"
    by (simp add: drop_map five)
  then have "segments_addr (replicate 5 0 @ 65535 # drop 6 ?segs) = ip"
    using segments_addr_segments[of ip] by simp
  with head tail show ?thesis
    by (simp add: read_ipv6_def read_char_def)
qed

lemma dec_in_hex: "is_digit 10 c \<Longrightarrow> is_digit 16 c"
  by (auto simp: is_digit_def to_digit_def Let_def split: if_splits)

lemma read_ipv6_show:
  assumes "ends_groups rest" and "CHR ''.'' \<notin> set rest"
  shows "read_ipv6 (show_ipv6 ip @ rest) = Some (ip, rest)"
proof -
  let ?segs = "ipv6_segments ip"
  obtain start n where span: "zero_span 0 ?segs (0, 0) (0, 0) = (start, n)" by force
  consider (mapped) "take 5 ?segs = [0, 0, 0, 0, 0]" "?segs ! 5 = 65535"
    | (elided) "\<not> (take 5 ?segs = [0, 0, 0, 0, 0] \<and> ?segs ! 5 = 65535)" "1 < n"
    | (full) "\<not> (take 5 ?segs = [0, 0, 0, 0, 0] \<and> ?segs ! 5 = 65535)" "\<not> 1 < n" by blast
  then show ?thesis
  proof cases
    case mapped
    have "rest = [] \<or> \<not> is_digit 10 (hd rest)" using assms(1) dec_in_hex by (cases rest) auto
    with mapped read_ipv6_mapped[OF mapped] show ?thesis by (simp add: show_ipv6_def Let_def)
  next
    case elided
    have join: "join_with '':'' (map (\<lambda>s. show_hex (uint s)) ws) = group_text 0 (map uint ws)" for ws :: "u16 list"
      using join_groups[of "map uint ws"] by (simp add: comp_def)
    have "show_ipv6 ip = group_text 0 (map uint (take start ?segs)) @ ''::'' @ group_text 0 (map uint (drop (start + n) ?segs))"
      using elided span unfolding show_ipv6_def Let_def join by auto
    with read_ipv6_elided[OF zero_span_split(2)[OF span] elided(2) assms] show ?thesis by simp
  next
    case full
    have "show_ipv6 ip = group_text 0 (map uint ?segs)"
      using full span join_groups[of "map uint ?segs"] unfolding show_ipv6_def Let_def by (auto simp: comp_def)
    with read_ipv6_full[OF assms] show ?thesis by simp
  qed
qed

lemma port_bounds: "0 \<le> uint (p :: u16)" "uint p \<le> 65535"
  using unsigned_less[of p, where 'a = int] by simp_all

lemma read_port_end: "read_number 10 65535 None True (show_dec (uint (p :: u16))) = Some (uint p, [])"
  using read_port[of "uint p" "[]"] port_bounds by simp

lemma show_dec_dots: "0 \<le> n \<Longrightarrow> CHR ''.'' \<notin> set (show_dec n)"
  using dec.show_digits[of n] by (auto simp: list_all_iff is_digit_def to_digit_def)

lemma read_addr_show:
  assumes "text_addr a"
  shows "read_addr (show_addr a) = Some a"
proof (cases a)
  case (V4 ip p)
  then show ?thesis using read_show_addr[of ip p] by (simp add: read_addr_def)
next
  case (V6 ip p flow scope)
  let ?stop = "'']:'' @ show_dec (uint p)"
  let ?rest = "if scope = 0 then ?stop else ''%'' @ show_dec (uint scope) @ ?stop"
  have flow: "flow = 0" using assms V6 by simp
  have shown: "show_addr a = ''['' @ show_ipv6 ip @ ?rest" by (simp add: V6)
  have marks: "\<not> is_digit 16 CHR '']''" "\<not> is_digit 16 CHR ''%''" "\<not> is_digit 10 CHR '']''" "\<not> is_digit 10 CHR ''[''"
    by (simp_all add: is_digit_def to_digit_def)
  have "CHR ''.'' \<notin> set ?rest" by (simp add: show_dec_dots)
  moreover have "ends_groups ?rest" by (simp add: marks)
  ultimately have ip: "read_ipv6 (show_ipv6 ip @ ?rest) = Some (ip, ?rest)" by (intro read_ipv6_show)
  have "uint scope \<le> 4294967295" using unsigned_less[of scope, where 'a = int] by simp
  then have "read_number 10 4294967295 None True (show_dec (uint scope) @ ?stop) = Some (uint scope, ?stop)"
    using marks by (intro dec.read_show) simp_all
  then have scope: "read_scope ?rest = (uint scope, ?stop)"
    by (simp add: read_scope_def read_char_def)
  have "read_addr_v4 (show_addr a) = None"
    using marks unfolding shown
    by (simp add: read_addr_v4_def read_octets.simps(2)[of 3, simplified] read_number_none)
  moreover have "read_addr_v6 (show_addr a) = Some a"
    unfolding shown read_addr_v6_def
    by (simp add: read_char_def ip scope read_port_end V6 flow)
  ultimately show ?thesis by (simp add: read_addr_def)
qed

lemma show_addr_text_word:
  assumes "text_addr a"
  shows "is_word (show_addr a)"
proof (cases a)
  case (V6 ip p flow scope)
  have dec: "CHR '' '' \<notin> set (show_dec n)" if "0 \<le> n" for n
    using show_dec_word[OF that] by (simp add: is_word_def)
  then have v4: "CHR '' '' \<notin> set (show_ipv4 (ucast ip))"
    using join_with_chars[of "''.''" "map (\<lambda>b. show_dec (uint b)) (ipv4_octets (ucast ip))"]
    by (auto simp: show_ipv4_def)
  have "\<not> is_digit 16 CHR '' ''" by (simp add: is_digit_def to_digit_def)
  then have "CHR '' '' \<notin> set (show_hex (uint w))" for w :: u16
    using hex_chars[of "uint w"] by auto
  then have "CHR '' '' \<notin> set (join_with '':'' (map (\<lambda>s. show_hex (uint s)) ws))" for ws :: "u16 list"
    using join_with_chars[of "'':''" "map (\<lambda>s. show_hex (uint s)) ws"] by auto
  with v4 have "CHR '' '' \<notin> set (show_ipv6 ip)"
    by (auto simp: show_ipv6_def Let_def split: prod.splits)
  with dec show ?thesis by (simp add: V6 is_word_def)
qed (use show_addr_v4_word in simp)

end
