(* ===== verification/Config_Doc.thy ===== *)
theory Config_Doc
  imports Addr_V6
begin

section \<open>The configuration as a document\<close>

text \<open>
  The entries of \<open>lantun-cli/src/config.rs\<close> and what their derived \<open>Serialize\<close> and \<open>Deserialize\<close>
  instances make of them: tables with one value per field, an address as its text, a protocol by
  the instances of \<open>TunnelProtocol\<close>. Between these documents and the text of the file stands the
  TOML library, which is a parameter; \<open>toml_ok\<close> states what is documented of it, that a document
  it has written is read back. A configuration is then read back from its document when its
  addresses are ones that can be read, which those of every configuration from a file are.
\<close>

subsection \<open>The configuration\<close>

record host_tunnel_entry =
  he_name :: string
  he_local :: socket_addr
  he_protocol :: tunnel_protocol
  he_private_secret :: string
  he_public_secret :: string
  he_enabled :: bool

record client_tunnel_entry =
  ce_name :: string
  ce_local :: socket_addr
  ce_protocol :: tunnel_protocol
  ce_secret :: string
  ce_enabled :: bool

record lantun_config =
  host_tunnels :: "host_tunnel_entry list"
  client_tunnels :: "client_tunnel_entry list"

definition default_config :: lantun_config where
  "default_config = \<lparr>host_tunnels = [], client_tunnels = []\<rparr>"

subsection \<open>Documents\<close>

datatype toml =
    T_String string
  | T_Integer int
  | T_Float string
  | T_Boolean bool
  | T_Datetime string
  | T_Array "toml list"
  | T_Table "string \<Rightarrow> toml option"

definition toml_ok ::
    "(toml \<Rightarrow> (string, string) result) \<Rightarrow> (string \<Rightarrow> (string, toml) result) \<Rightarrow> bool" where
  "toml_ok to_toml from_toml \<longleftrightarrow> (\<forall>d s. to_toml d = Ok s \<longrightarrow> from_toml s = Ok d)"

subsection \<open>Serialization\<close>

definition host_entry_doc :: "host_tunnel_entry \<Rightarrow> toml" where
  "host_entry_doc t = T_Table (map_of
     [(''name'', T_String (he_name t)),
      (''local'', T_String (show_addr (he_local t))),
      (''protocol'', T_String (tunnel_protocol_serialize (he_protocol t))),
      (''private_secret'', T_String (he_private_secret t)),
      (''public_secret'', T_String (he_public_secret t)),
      (''enabled'', T_Boolean (he_enabled t))])"

definition client_entry_doc :: "client_tunnel_entry \<Rightarrow> toml" where
  "client_entry_doc t = T_Table (map_of
     [(''name'', T_String (ce_name t)),
      (''local'', T_String (show_addr (ce_local t))),
      (''protocol'', T_String (tunnel_protocol_serialize (ce_protocol t))),
      (''secret'', T_String (ce_secret t)),
      (''enabled'', T_Boolean (ce_enabled t))])"

definition config_doc :: "lantun_config \<Rightarrow> toml" where
  "config_doc c = T_Table (map_of
     [(''host_tunnels'', T_Array (map host_entry_doc (host_tunnels c))),
      (''client_tunnels'', T_Array (map client_entry_doc (client_tunnels c)))])"

subsection \<open>Deserialization\<close>

text \<open>
  A struct is read from a table, in which other keys are ignored, or from an array with the fields
  in their order. Every field must be there. Where several values are wrong, the model reports
  the first field of the struct, the code the first one of the file.
\<close>

definition de_struct :: "string list \<Rightarrow> toml \<Rightarrow> (de_error, string \<Rightarrow> toml option) result" where
  "de_struct names d =
     (case d of
        T_Table m \<Rightarrow> Ok m
      | T_Array ds \<Rightarrow> Ok (map_of (zip names ds))
      | _ \<Rightarrow> Err (De_Other ''invalid type''))"

definition de_field ::
    "(string \<Rightarrow> toml option) \<Rightarrow> string \<Rightarrow> (toml \<Rightarrow> (de_error, 'a) result) \<Rightarrow> (de_error, 'a) result" where
  "de_field m k de =
     (case m k of None \<Rightarrow> Err (De_Other (''missing field `'' @ k @ ''`'')) | Some d \<Rightarrow> de d)"

definition de_string :: "toml \<Rightarrow> (de_error, string) result" where
  "de_string d =
     (case d of T_String s \<Rightarrow> Ok s | _ \<Rightarrow> Err (De_Other ''invalid type, expected a string''))"

definition de_bool :: "toml \<Rightarrow> (de_error, bool) result" where
  "de_bool d =
     (case d of T_Boolean b \<Rightarrow> Ok b | _ \<Rightarrow> Err (De_Other ''invalid type, expected a boolean''))"

definition de_addr :: "toml \<Rightarrow> (de_error, socket_addr) result" where
  "de_addr d =
     (case de_string d of
        Inl e \<Rightarrow> Err e
      | Inr s \<Rightarrow>
          (case read_addr s of None \<Rightarrow> Err (De_Custom ''invalid socket address syntax'') | Some a \<Rightarrow> Ok a))"

definition de_protocol :: "toml \<Rightarrow> (de_error, tunnel_protocol) result" where
  "de_protocol d = tunnel_protocol_deserialize (de_string d)"

fun de_all :: "(toml \<Rightarrow> (de_error, 'a) result) \<Rightarrow> toml list \<Rightarrow> (de_error, 'a list) result" where
  "de_all de [] = Ok []"
| "de_all de (d # ds) = and_then (de d) (\<lambda>x. and_then (de_all de ds) (\<lambda>xs. Ok (x # xs)))"

definition de_list :: "(toml \<Rightarrow> (de_error, 'a) result) \<Rightarrow> toml \<Rightarrow> (de_error, 'a list) result" where
  "de_list de d =
     (case d of T_Array ds \<Rightarrow> de_all de ds | _ \<Rightarrow> Err (De_Other ''invalid type, expected a sequence''))"

definition doc_host_entry :: "toml \<Rightarrow> (de_error, host_tunnel_entry) result" where
  "doc_host_entry d =
     and_then (de_struct [''name'', ''local'', ''protocol'', ''private_secret'', ''public_secret'', ''enabled''] d) (\<lambda>m.
     and_then (de_field m ''name'' de_string) (\<lambda>name.
     and_then (de_field m ''local'' de_addr) (\<lambda>local.
     and_then (de_field m ''protocol'' de_protocol) (\<lambda>protocol.
     and_then (de_field m ''private_secret'' de_string) (\<lambda>private.
     and_then (de_field m ''public_secret'' de_string) (\<lambda>public.
     and_then (de_field m ''enabled'' de_bool) (\<lambda>enabled.
       Ok \<lparr>he_name = name, he_local = local, he_protocol = protocol, he_private_secret = private,
           he_public_secret = public, he_enabled = enabled\<rparr>)))))))"

definition doc_client_entry :: "toml \<Rightarrow> (de_error, client_tunnel_entry) result" where
  "doc_client_entry d =
     and_then (de_struct [''name'', ''local'', ''protocol'', ''secret'', ''enabled''] d) (\<lambda>m.
     and_then (de_field m ''name'' de_string) (\<lambda>name.
     and_then (de_field m ''local'' de_addr) (\<lambda>local.
     and_then (de_field m ''protocol'' de_protocol) (\<lambda>protocol.
     and_then (de_field m ''secret'' de_string) (\<lambda>secret.
     and_then (de_field m ''enabled'' de_bool) (\<lambda>enabled.
       Ok \<lparr>ce_name = name, ce_local = local, ce_protocol = protocol, ce_secret = secret,
           ce_enabled = enabled\<rparr>))))))"

definition doc_config :: "toml \<Rightarrow> (de_error, lantun_config) result" where
  "doc_config d =
     and_then (de_struct [''host_tunnels'', ''client_tunnels''] d) (\<lambda>m.
     and_then (de_field m ''host_tunnels'' (de_list doc_host_entry)) (\<lambda>hosts.
     and_then (de_field m ''client_tunnels'' (de_list doc_client_entry)) (\<lambda>clients.
       Ok \<lparr>host_tunnels = hosts, client_tunnels = clients\<rparr>)))"

fun de_error_message :: "de_error \<Rightarrow> string" where
  "de_error_message (De_Custom m) = m"
| "de_error_message (De_Other m) = m"

text \<open>\<open>toml::de::from_str\<close>.\<close>

definition read_config ::
    "(string \<Rightarrow> (string, toml) result) \<Rightarrow> string \<Rightarrow> (string, lantun_config) result" where
  "read_config from_toml s =
     and_then (from_toml s) (\<lambda>d.
       case doc_config d of Inl e \<Rightarrow> Err (de_error_message e) | Inr c \<Rightarrow> Ok c)"

subsection \<open>The round trip\<close>

definition addrs_text :: "lantun_config \<Rightarrow> bool" where
  "addrs_text c \<longleftrightarrow>
     list_all (\<lambda>t. text_addr (he_local t)) (host_tunnels c) \<and>
     list_all (\<lambda>t. text_addr (ce_local t)) (client_tunnels c)"

lemmas de_defs = de_struct_def de_field_def de_string_def de_bool_def de_addr_def de_protocol_def de_list_def

lemma de_all_map: "list_all (\<lambda>x. de (f x) = Ok x) xs \<Longrightarrow> de_all de (map f xs) = Ok xs"
  by (induction xs) simp_all

lemma de_all_prop: "de_all de ds = Ok xs \<Longrightarrow> (\<And>d x. de d = Ok x \<Longrightarrow> P x) \<Longrightarrow> list_all P xs"
  by (induction ds arbitrary: xs) (auto simp: and_then_Ok)

lemma de_list_prop: "de_list de d = Ok xs \<Longrightarrow> (\<And>d x. de d = Ok x \<Longrightarrow> P x) \<Longrightarrow> list_all P xs"
  using de_all_prop[of de _ xs P] by (auto simp: de_list_def split: toml.splits)

lemma host_entry_roundtrip: "text_addr (he_local t) \<Longrightarrow> doc_host_entry (host_entry_doc t) = Ok t"
  by (simp add: doc_host_entry_def host_entry_doc_def de_defs read_addr_show serialize_fmt)

lemma client_entry_roundtrip: "text_addr (ce_local t) \<Longrightarrow> doc_client_entry (client_entry_doc t) = Ok t"
  by (simp add: doc_client_entry_def client_entry_doc_def de_defs read_addr_show serialize_fmt)

lemma config_doc_roundtrip:
  assumes "addrs_text c"
  shows "doc_config (config_doc c) = Ok c"
proof -
  have "de_all doc_host_entry (map host_entry_doc (host_tunnels c)) = Ok (host_tunnels c)"
    by (rule de_all_map) (use assms host_entry_roundtrip in \<open>auto simp: addrs_text_def list_all_iff\<close>)
  moreover have "de_all doc_client_entry (map client_entry_doc (client_tunnels c)) = Ok (client_tunnels c)"
    by (rule de_all_map) (use assms client_entry_roundtrip in \<open>auto simp: addrs_text_def list_all_iff\<close>)
  ultimately show ?thesis
    by (simp add: doc_config_def config_doc_def de_struct_def de_field_def de_list_def)
qed

lemma config_doc_inject: "addrs_text c \<Longrightarrow> addrs_text c' \<Longrightarrow> config_doc c = config_doc c' \<longleftrightarrow> c = c'"
  by (metis config_doc_roundtrip sum.inject(2))

text \<open>The flow label of an address is not in its text, and the document forgets it.\<close>

fun without_flow :: "socket_addr \<Rightarrow> socket_addr" where
  "without_flow (V4 ip p) = V4 ip p"
| "without_flow (V6 ip p flow scope) = V6 ip p 0 scope"

definition without_flows :: "lantun_config \<Rightarrow> lantun_config" where
  "without_flows c =
     \<lparr>host_tunnels = map (\<lambda>t. t\<lparr>he_local := without_flow (he_local t)\<rparr>) (host_tunnels c),
      client_tunnels = map (\<lambda>t. t\<lparr>ce_local := without_flow (ce_local t)\<rparr>) (client_tunnels c)\<rparr>"

lemma without_flow_text: "text_addr (without_flow a)" "show_addr (without_flow a) = show_addr a"
  "text_addr a \<Longrightarrow> without_flow a = a"
  by (cases a; simp)+

lemma without_flows_doc: "addrs_text (without_flows c)" "config_doc (without_flows c) = config_doc c"
proof -
  have "host_entry_doc (t\<lparr>he_local := without_flow (he_local t)\<rparr>) = host_entry_doc t"
    "client_entry_doc (u\<lparr>ce_local := without_flow (ce_local u)\<rparr>) = client_entry_doc u" for t u
    by (simp_all add: host_entry_doc_def client_entry_doc_def without_flow_text)
  then show "config_doc (without_flows c) = config_doc c"
    by (simp add: without_flows_def config_doc_def comp_def)
qed (simp add: without_flows_def addrs_text_def without_flow_text list_all_iff)

lemma without_flows_text: "addrs_text c \<Longrightarrow> without_flows c = c"
  by (cases c) (simp add: without_flows_def addrs_text_def list_all_iff without_flow_text map_idI)

lemma de_addr_text: "de_addr d = Ok a \<Longrightarrow> text_addr a"
  by (auto simp: de_addr_def read_addr_text split: sum.splits option.splits)

lemma de_field_Ok: "de_field m k de = Ok x \<longleftrightarrow> (\<exists>d. m k = Some d \<and> de d = Ok x)"
  by (auto simp: de_field_def split: option.splits)

lemma doc_config_text:
  assumes "doc_config d = Ok c"
  shows "addrs_text c"
proof -
  have host: "text_addr (he_local t)" if "doc_host_entry d = Ok t" for d t
    using that by (auto simp: doc_host_entry_def and_then_Ok de_field_Ok dest: de_addr_text)
  have client: "text_addr (ce_local t)" if "doc_client_entry d = Ok t" for d t
    using that by (auto simp: doc_client_entry_def and_then_Ok de_field_Ok dest: de_addr_text)
  obtain hs cs where c: "c = \<lparr>host_tunnels = hs, client_tunnels = cs\<rparr>"
    and hs: "\<exists>d. de_list doc_host_entry d = Ok hs" and cs: "\<exists>d. de_list doc_client_entry d = Ok cs"
    using assms by (auto simp: doc_config_def and_then_Ok de_field_Ok)
  then show ?thesis
    using de_list_prop[OF _ host] de_list_prop[OF _ client] by (auto simp: addrs_text_def)
qed

lemma read_config_text:
  assumes "read_config from_toml s = Ok c"
  shows "addrs_text c"
proof -
  from assms obtain d where "(case doc_config d of Inl e \<Rightarrow> Err (de_error_message e) | Inr c \<Rightarrow> Ok c) = Ok c"
    by (auto simp: read_config_def and_then_Ok)
  then have "doc_config d = Ok c" by (cases "doc_config d") simp_all
  then show ?thesis by (rule doc_config_text)
qed

lemma read_config_written:
  "toml_ok to_toml from_toml \<Longrightarrow> addrs_text c \<Longrightarrow> to_toml (config_doc c) = Ok s \<Longrightarrow> read_config from_toml s = Ok c"
  by (simp add: toml_ok_def read_config_def config_doc_roundtrip)

end
