(* ===== verification/Config.thy ===== *)
theory Config
  imports Host_Tunnel Client_Tunnel File_System Config_Doc
begin

section \<open>The configuration\<close>

text \<open>
  \<open>lantun-cli/src/config.rs\<close> and the state \<open>LanTun\<close> of \<open>lantun-core/src/lib.rs\<close>: \<open>create_state\<close>,
  \<open>load_config\<close> and \<open>save_config\<close>. The hex codec, the text form of TOML documents and the test
  for public keys are third-party code and parameters; \<open>hex_ok\<close> states what is documented of the
  hex codec, that decoding inverts encoding.
\<close>

subsection \<open>The state of the application\<close>

record lantun =
  lt_host :: host_state
  lt_client :: client_state

definition lantun_new :: lantun where
  "lantun_new = \<lparr>lt_host = host_state_new, lt_client = client_state_new\<rparr>"

datatype report =
    Report_Msg string
  | Report_Hex string
  | Report_Io io_error
  | Report_Toml string
  | Report_Host host_error
  | Report_Client client_error

subsection \<open>Creating the state\<close>

type_synonym hex_decoder = "string \<Rightarrow> (string, bytes) result"

definition hex_ok :: "(bytes \<Rightarrow> string) \<Rightarrow> hex_decoder \<Rightarrow> bool" where
  "hex_ok hex_encode hex_decode \<longleftrightarrow> (\<forall>bs. hex_decode (hex_encode bs) = Ok bs)"

text \<open>\<open>hex::decode\<close>, then \<open>try_into\<close> an array of 32 bytes.\<close>

definition secret_bytes :: "hex_decoder \<Rightarrow> string \<Rightarrow> string \<Rightarrow> (report, bytes) result" where
  "secret_bytes hex_decode msg s =
     (case hex_decode s of
        Inl e \<Rightarrow> Err (Report_Hex e)
      | Inr bs \<Rightarrow> if length bs = 32 then Ok bs else Err (Report_Msg msg))"

fun create_hosts :: "hex_decoder \<Rightarrow> host_tunnel_entry list \<Rightarrow> host_state \<Rightarrow> (report, host_state) result" where
  "create_hosts hex_decode [] st = Ok st"
| "create_hosts hex_decode (t # ts) st =
     (case secret_bytes hex_decode ''Invalid private secret length'' (he_private_secret t) of
        Inl e \<Rightarrow> Err e
      | Inr secret \<Rightarrow>
          create_hosts hex_decode ts (host_create_tunnel (he_local t) (he_name t) secret (he_protocol t) st))"

fun create_clients ::
    "(bytes \<Rightarrow> bool) \<Rightarrow> hex_decoder \<Rightarrow> client_tunnel_entry list \<Rightarrow> client_state \<Rightarrow>
     (report, client_state) result outcome" where
  "create_clients valid_key hex_decode [] st = Returned (Ok st)"
| "create_clients valid_key hex_decode (t # ts) st =
     (case secret_bytes hex_decode ''Invalid public secret length'' (ce_secret t) of
        Inl e \<Rightarrow> Returned (Err e)
      | Inr secret \<Rightarrow>
          (case client_create_tunnel valid_key (ce_local t) (ce_name t) secret (ce_protocol t) st of
             (Panic, st') \<Rightarrow> Panic
           | (Returned (Inl e), st') \<Rightarrow> Returned (Err (Report_Client e))
           | (Returned (Inr tunnel), st') \<Rightarrow> create_clients valid_key hex_decode ts st'))"

definition create_state ::
    "(bytes \<Rightarrow> bool) \<Rightarrow> hex_decoder \<Rightarrow> lantun_config \<Rightarrow> (report, lantun) result outcome" where
  "create_state valid_key hex_decode c =
     (case create_hosts hex_decode (host_tunnels c) (lt_host lantun_new) of
        Inl e \<Rightarrow> Returned (Err e)
      | Inr host \<Rightarrow>
          (case create_clients valid_key hex_decode (client_tunnels c) (lt_client lantun_new) of
             Panic \<Rightarrow> Panic
           | Returned (Inl e) \<Rightarrow> Returned (Err e)
           | Returned (Inr client) \<Rightarrow> Returned (Ok \<lparr>lt_host = host, lt_client = client\<rparr>)))"

subsection \<open>Loading and saving\<close>

definition save_config ::
    "(toml \<Rightarrow> (string, string) result) \<Rightarrow> write_fault \<Rightarrow> path \<Rightarrow> lantun_config \<Rightarrow> file_system \<Rightarrow>
     (report, unit) result \<times> file_system" where
  "save_config to_toml fault p c fs =
     (case to_toml (config_doc c) of
        Inl e \<Rightarrow> (Err (Report_Toml e), fs)
      | Inr s \<Rightarrow>
          (case fs_write fault p s fs of
             (Inl e, fs') \<Rightarrow> (Err (Report_Io e), fs')
           | (Inr u, fs') \<Rightarrow> (Ok (), fs')))"

record load_env =
  to_toml :: "toml \<Rightarrow> (string, string) result"
  from_toml :: "string \<Rightarrow> (string, toml) result"
  mkdir_fault :: "io_error option"
  load_write_fault :: write_fault

definition load_config ::
    "load_env \<Rightarrow> path \<Rightarrow> file_system \<Rightarrow> (report, lantun_config) result outcome \<times> file_system" where
  "load_config env p fs =
     (if \<not> path_exists fs p then
        (case path_parent p of
           None \<Rightarrow> (Panic, fs)
         | Some parent \<Rightarrow>
             (case fs_create_dir_all (mkdir_fault env) parent fs of
                (Inl e, fs1) \<Rightarrow> (Returned (Err (Report_Io e)), fs1)
              | (Inr u, fs1) \<Rightarrow>
                  (case to_toml env (config_doc default_config) of
                     Inl e \<Rightarrow> (Returned (Err (Report_Toml e)), fs1)
                   | Inr s \<Rightarrow>
                       (case fs_write (load_write_fault env) p s fs1 of
                          (Inl e, fs2) \<Rightarrow> (Returned (Err (Report_Io e)), fs2)
                        | (Inr u, fs2) \<Rightarrow> (Returned (Ok default_config), fs2)))))
      else
        (case fs_read_to_string p fs of
           Inl e \<Rightarrow> (Returned (Err (Report_Io e)), fs)
         | Inr s \<Rightarrow>
             (case read_config (from_toml env) s of
                Inl e \<Rightarrow> (Returned (Err (Report_Toml e)), fs)
              | Inr c \<Rightarrow> (Returned (Ok c), fs))))"

subsection \<open>What \<open>create_state\<close> builds\<close>

definition secret_of :: "hex_decoder \<Rightarrow> string \<Rightarrow> bytes option" where
  "secret_of hex_decode s =
     (case hex_decode s of Inl e \<Rightarrow> None | Inr bs \<Rightarrow> if length bs = 32 then Some bs else None)"

lemma secret_bytes_cases:
  "(\<exists>bs. secret_of dec s = Some bs \<and> secret_bytes dec msg s = Ok bs) \<or>
   (\<exists>e. secret_of dec s = None \<and> secret_bytes dec msg s = Err e)"
  by (cases "dec s") (auto simp: secret_of_def secret_bytes_def)

text \<open>The tunnel that an entry describes, and the last entry of a list with a given secret.\<close>

definition entry_host :: "bytes \<Rightarrow> host_tunnel_entry \<Rightarrow> host_tunnel" where
  "entry_host secret t = new_host_tunnel (he_local t) (he_name t) secret (he_protocol t)"

definition entry_client :: "bytes \<Rightarrow> client_tunnel_entry \<Rightarrow> client_tunnel" where
  "entry_client secret t = new_client_tunnel (ce_local t) (ce_name t) secret (ce_protocol t)"

definition client_key :: "client_tunnel_entry \<Rightarrow> socket_addr \<times> tunnel_protocol" where
  "client_key t = (ce_local t, ce_protocol t)"

definition last_with_secret :: "hex_decoder \<Rightarrow> bytes \<Rightarrow> host_tunnel_entry list \<Rightarrow> host_tunnel_entry option" where
  "last_with_secret hex_decode s ts =
     find (\<lambda>t. secret_of hex_decode (he_private_secret t) = Some s) (rev ts)"

definition hosts_ok :: "hex_decoder \<Rightarrow> host_tunnel_entry list \<Rightarrow> bool" where
  "hosts_ok hex_decode ts \<longleftrightarrow> (\<forall>t \<in> set ts. secret_of hex_decode (he_private_secret t) \<noteq> None)"

definition clients_ok :: "(bytes \<Rightarrow> bool) \<Rightarrow> hex_decoder \<Rightarrow> client_tunnel_entry list \<Rightarrow> bool" where
  "clients_ok valid_key hex_decode ts \<longleftrightarrow>
     (\<forall>t \<in> set ts. \<exists>bs. secret_of hex_decode (ce_secret t) = Some bs \<and> valid_key bs)"

lemma find_append: "find P (xs @ ys) = (case find P xs of None \<Rightarrow> find P ys | Some x \<Rightarrow> Some x)"
  by (induction xs) auto

lemma create_hosts_Ok_iff: "(\<exists>st'. create_hosts dec ts st = Ok st') \<longleftrightarrow> hosts_ok dec ts"
proof (induction ts arbitrary: st)
  case (Cons t ts)
  have "hosts_ok dec (t # ts) \<longleftrightarrow> secret_of dec (he_private_secret t) \<noteq> None \<and> hosts_ok dec ts"
    by (simp add: hosts_ok_def)
  with secret_bytes_cases[of dec "he_private_secret t" "''Invalid private secret length''"]
  show ?case by (elim disjE exE conjE) (simp_all add: Cons.IH)
qed (simp add: hosts_ok_def)

lemma create_hosts_get:
  assumes "create_hosts dec ts st = Ok st'" and "host_state_ok st"
  shows "host_state_ok st' \<and>
    host_get_tunnel st' s =
      (case last_with_secret dec s ts of None \<Rightarrow> host_get_tunnel st s | Some t \<Rightarrow> Some (entry_host s t))"
  using assms
proof (induction ts arbitrary: st)
  case (Cons t ts)
  from Cons.prems(1) secret_bytes_cases[of dec "he_private_secret t" "''Invalid private secret length''"]
  obtain bs where bs: "secret_of dec (he_private_secret t) = Some bs"
    and rest: "create_hosts dec ts (host_create_tunnel (he_local t) (he_name t) bs (he_protocol t) st) = Ok st'"
    by auto
  from Cons.IH[OF rest host_state_ok_create[OF Cons.prems(2)]] bs show ?case
    by (auto simp: last_with_secret_def find_append host_get_tunnel_def host_create_tunnel_def
        entry_host_def hm_simps split: option.splits)
qed (simp add: last_with_secret_def)

lemma create_clients_Ok_iff:
  "(\<exists>st'. create_clients valid dec ts st = Returned (Ok st')) \<longleftrightarrow>
   clients_ok valid dec ts \<and> distinct (map client_key ts) \<and> (\<forall>t \<in> set ts. \<not> hm_contains st (client_key t))"
proof (induction ts arbitrary: st)
  case (Cons t ts)
  consider (bad) e where "secret_of dec (ce_secret t) = None"
      "secret_bytes dec ''Invalid public secret length'' (ce_secret t) = Err e"
    | (good) bs where "secret_of dec (ce_secret t) = Some bs"
      "secret_bytes dec ''Invalid public secret length'' (ce_secret t) = Ok bs"
    using secret_bytes_cases by metis
  then show ?case
  proof cases
    case bad
    then show ?thesis by (simp add: clients_ok_def)
  next
    case good
    let ?st = "hm_insert (client_key t) (new_client_tunnel (ce_local t) (ce_name t) bs (ce_protocol t)) st"
    have "clients_ok valid dec (t # ts) \<longleftrightarrow> valid bs \<and> clients_ok valid dec ts"
      using good by (simp add: clients_ok_def)
    moreover have "(\<forall>u \<in> set ts. \<not> hm_contains ?st (client_key u)) \<longleftrightarrow>
        client_key t \<notin> client_key ` set ts \<and> (\<forall>u \<in> set ts. \<not> hm_contains st (client_key u))"
      unfolding hm_contains_insert by (metis (no_types, lifting) image_iff)
    ultimately show ?thesis
      using Cons.IH[of ?st] good
      by (auto simp: client_create_tunnel_def client_key_def[symmetric] Let_def)
  qed
qed (simp add: clients_ok_def)

lemma create_clients_get:
  assumes "create_clients valid dec ts st = Returned (Ok st')" and "client_state_ok st"
  shows "client_state_ok st' \<and> hm_len st' = hm_len st + length ts \<and>
    (\<forall>t \<in> set ts. \<exists>bs. secret_of dec (ce_secret t) = Some bs \<and>
       client_get_tunnel st' (ce_local t) (ce_protocol t) = Some (entry_client bs t)) \<and>
    (\<forall>a p. (a, p) \<notin> client_key ` set ts \<longrightarrow> client_get_tunnel st' a p = client_get_tunnel st a p)"
  using assms
proof (induction ts arbitrary: st)
  case (Cons t ts)
  have iff: "clients_ok valid dec (t # ts)" "distinct (map client_key (t # ts))"
    "\<forall>u \<in> set (t # ts). \<not> hm_contains st (client_key u)"
    using create_clients_Ok_iff[of valid dec "t # ts" st] Cons.prems(1) by blast+
  then obtain bs where bs: "secret_of dec (ce_secret t) = Some bs" "valid bs"
    by (auto simp: clients_ok_def)
  with secret_bytes_cases[of dec "ce_secret t" "''Invalid public secret length''"]
  have sb: "secret_bytes dec ''Invalid public secret length'' (ce_secret t) = Ok bs" by simp
  let ?st = "hm_insert (client_key t) (entry_client bs t) st"
  have fresh: "\<not> hm_contains st (ce_local t, ce_protocol t)"
    using iff(3) by (simp add: client_key_def)
  have create: "client_create_tunnel valid (ce_local t) (ce_name t) bs (ce_protocol t) st =
      (Returned (Ok (entry_client bs t)), ?st)"
    using fresh bs(2) by (simp add: client_create_tunnel_def entry_client_def client_key_def Let_def)
  with Cons.prems(1) sb have rest: "create_clients valid dec ts ?st = Returned (Ok st')" by simp
  have ok: "client_state_ok ?st"
    using client_state_ok_create[OF Cons.prems(2), of valid "ce_local t" "ce_name t" bs "ce_protocol t"] create
    by simp
  have "client_key t \<notin> client_key ` set ts" using iff(2) by simp
  moreover have "hm_len ?st = Suc (hm_len st)"
    using Cons.prems(2) fresh by (simp add: client_state_ok_def hm.len_put hm_contains_def client_key_def)
  ultimately show ?case
    using Cons.IH[OF rest ok] bs
    by (auto simp: client_get_tunnel_def client_key_def hm_simps)
qed simp

end
