(* ===== verification/Config_Behaviour.thy ===== *)
theory Config_Behaviour
  imports Config
begin

section \<open>Behaviour of the configuration\<close>

text \<open>
  What \<open>create_state\<close> makes of a configuration, when it fails, and what \<open>save_config\<close> and
  \<open>load_config\<close> do to the file.
\<close>

subsection \<open>A concrete codec\<close>

text \<open>
  An instance of the hex parameters for the witnesses: a codec that writes a byte as one character.
\<close>

definition demo_hex_encode :: "bytes \<Rightarrow> string" where
  "demo_hex_encode bs = map (\<lambda>b. char_of (uint b)) bs"

definition demo_hex_decode :: hex_decoder where
  "demo_hex_decode s = Ok (map (\<lambda>c. word_of_int (of_char c)) s)"

lemma demo_hex_ok: "hex_ok demo_hex_encode demo_hex_decode"
  by (simp add: hex_ok_def demo_hex_encode_def demo_hex_decode_def comp_def take_bit_int_eq_self
      uint_lt2p[where 'a = 8, simplified] flip: take_bit_eq_mod)

subsection \<open>Creating the state\<close>

definition config_usable :: "(bytes \<Rightarrow> bool) \<Rightarrow> hex_decoder \<Rightarrow> lantun_config \<Rightarrow> bool" where
  "config_usable valid dec c \<longleftrightarrow>
     hosts_ok dec (host_tunnels c) \<and> clients_ok valid dec (client_tunnels c) \<and>
     distinct (map client_key (client_tunnels c))"

lemma create_state_Ok_iff:
  "(\<exists>lt. create_state valid dec c = Returned (Ok lt)) \<longleftrightarrow> config_usable valid dec c"
proof -
  have "\<not> hm_contains client_state_new k" for k
    by (simp add: hm_contains_def client_state_new_def hm_simps)
  then show ?thesis
    using create_hosts_Ok_iff[of dec "host_tunnels c" host_state_new]
      create_clients_Ok_iff[of valid dec "client_tunnels c" client_state_new]
    by (auto simp: create_state_def config_usable_def lantun_new_def split: sum.splits outcome.splits)
qed

lemma create_state_OkD:
  assumes "create_state valid dec c = Returned (Ok lt)"
  shows "create_hosts dec (host_tunnels c) host_state_new = Ok (lt_host lt) \<and>
    create_clients valid dec (client_tunnels c) client_state_new = Returned (Ok (lt_client lt))"
  using assms by (auto simp: create_state_def lantun_new_def split: sum.splits outcome.splits)

text \<open>
  C23. \<open>create_state\<close> succeeds exactly when every secret is the hex text of 32 bytes, every client
  secret is a public key and no two client entries share address and protocol. The state then has
  one stopped client tunnel per client entry, found under its address and protocol, and for every
  private secret the host tunnel of the \<^emph>\<open>last\<close> entry with it: of several host entries with one
  secret, all but the last are dropped without an error.
\<close>

theorem create_state_outcome:
  assumes "create_state valid dec c = q"
  shows "case q of
      Returned (Inr lt) \<Rightarrow> config_usable valid dec c \<and>
        host_state_ok (lt_host lt) \<and> client_state_ok (lt_client lt) \<and>
        (\<forall>s. host_get_tunnel (lt_host lt) s =
           map_option (entry_host s) (last_with_secret dec s (host_tunnels c))) \<and>
        hm_len (lt_client lt) = length (client_tunnels c) \<and>
        (\<forall>t \<in> set (client_tunnels c). \<exists>bs. secret_of dec (ce_secret t) = Some bs \<and>
           client_get_tunnel (lt_client lt) (ce_local t) (ce_protocol t) = Some (entry_client bs t))
    | _ \<Rightarrow> \<not> config_usable valid dec c"
proof (cases "\<exists>lt. q = Returned (Ok lt)")
  case True
  then obtain lt where q: "q = Returned (Ok lt)" by blast
  with assms have "create_state valid dec c = Returned (Ok lt)" by simp
  note hosts = conjunct1[OF create_state_OkD[OF this]]
    and clients = conjunct2[OF create_state_OkD[OF this]]
    and usable = create_state_Ok_iff[THEN iffD1, OF exI, OF this]
  have "host_get_tunnel host_state_new s = None" for s
    by (simp add: host_get_tunnel_def host_state_new_def hm_simps)
  with create_hosts_get[OF hosts host_state_ok_new] create_clients_get[OF clients client_state_ok_new] usable
  show ?thesis
    by (auto simp: q client_state_new_def hm.len_empty split: option.splits)
next
  case False
  with assms create_state_Ok_iff[of valid dec c] show ?thesis
    by (auto split: outcome.splits sum.splits)
qed

definition demo_secret :: "byte \<Rightarrow> string" where
  "demo_secret b = demo_hex_encode (replicate 32 b)"

lemma demo_secret_of: "secret_of demo_hex_decode (demo_secret b) = Some (replicate 32 b)"
  using demo_hex_ok by (simp add: secret_of_def demo_secret_def hex_ok_def)

definition demo_config :: lantun_config where
  "demo_config =
     \<lparr>host_tunnels =
        [\<lparr>he_name = ''a'', he_local = demo_service, he_protocol = Tcp, he_private_secret = demo_secret 1,
          he_public_secret = demo_secret 2, he_enabled = True\<rparr>,
         \<lparr>he_name = ''b'', he_local = demo_service, he_protocol = Udp, he_private_secret = demo_secret 1,
          he_public_secret = demo_secret 2, he_enabled = True\<rparr>],
      client_tunnels =
        [\<lparr>ce_name = ''c'', ce_local = V4 0 25565, ce_protocol = Tcp, ce_secret = demo_secret 2,
          ce_enabled = False\<rparr>]\<rparr>"

theorem create_state_outcome_witness:
  "\<exists>lt. create_state (\<lambda>_. True) demo_hex_decode demo_config = Returned (Ok lt) \<and>
     host_get_tunnel (lt_host lt) (replicate 32 1) =
       Some (new_host_tunnel demo_service ''b'' (replicate 32 1) Udp)"
proof -
  have "config_usable (\<lambda>_. True) demo_hex_decode demo_config"
    by (simp add: config_usable_def hosts_ok_def clients_ok_def demo_config_def demo_secret_of)
  with create_state_Ok_iff obtain lt
    where lt: "create_state (\<lambda>_. True) demo_hex_decode demo_config = Returned (Ok lt)" by blast
  have "last_with_secret demo_hex_decode (replicate 32 1) (host_tunnels demo_config) =
      Some (host_tunnels demo_config ! 1)"
    by (simp add: last_with_secret_def demo_config_def demo_secret_of)
  with create_state_outcome[OF lt] lt show ?thesis
    by (simp add: demo_config_def entry_host_def)
qed

text \<open>
  The \<open>enabled\<close> flag of an entry is stored and never read: whatever the flags of a configuration
  are set to, \<open>create_state\<close> gives the same result.
\<close>

lemma create_state_ignores_enabled:
  "create_state valid dec
     (c\<lparr>host_tunnels := map (\<lambda>t. t\<lparr>he_enabled := f t\<rparr>) (host_tunnels c),
        client_tunnels := map (\<lambda>t. t\<lparr>ce_enabled := g t\<rparr>) (client_tunnels c)\<rparr>) =
   create_state valid dec c"
proof -
  have "create_hosts dec (map (\<lambda>t. t\<lparr>he_enabled := f t\<rparr>) ts) st = create_hosts dec ts st" for ts st
    by (induction ts arbitrary: st) (auto split: sum.splits)
  moreover have "create_clients valid dec (map (\<lambda>t. t\<lparr>ce_enabled := g t\<rparr>) ts) st =
      create_clients valid dec ts st" for ts st
    by (induction ts arbitrary: st) (auto split: sum.splits outcome.splits prod.splits)
  ultimately show ?thesis by (simp add: create_state_def cong del: sum.case_cong_weak)
qed

subsection \<open>Saving and loading\<close>

lemma load_config_text:
  assumes "load_config env p fs = (Returned (Ok c), fs')"
  shows "addrs_text c"
proof -
  have "addrs_text default_config" by (simp add: addrs_text_def default_config_def)
  with assms show ?thesis
    by (auto simp: load_config_def dest: read_config_text split: if_splits option.splits sum.splits prod.splits)
qed

text \<open>
  C28. A saved configuration is read back: after a successful save, loading the same path gives
  the configuration and writes nothing, and every other file is as before the save. Only the flow
  labels of IPv6 addresses are lost, which their text does not have; a configuration that came
  from a file has none, so it is read back as it was.
\<close>

theorem save_load_roundtrip:
  assumes "toml_ok (to_toml env) (from_toml env)"
    and "save_config (to_toml env) fault p c fs = (Ok (), fs')"
  shows "load_config env p fs' = (Returned (Ok (without_flows c)), fs') \<and> (\<forall>q. q \<noteq> p \<longrightarrow> fs' q = fs q) \<and>
    ((\<exists>q gs gs'. load_config env q gs = (Returned (Ok c), gs')) \<longrightarrow> without_flows c = c)"
proof -
  obtain s u where s: "to_toml env (config_doc c) = Ok s" and w: "fs_write fault p s fs = (Ok u, fs')"
    using assms(2) by (auto simp: save_config_def split: sum.splits prod.splits)
  from s have "read_config (from_toml env) s = Ok (without_flows c)"
    using read_config_written[OF assms(1) without_flows_doc(1), of c] by (simp add: without_flows_doc(2))
  with fs_write_Ok[OF w]
  have "load_config env p fs' = (Returned (Ok (without_flows c)), fs') \<and> (\<forall>q. q \<noteq> p \<longrightarrow> fs' q = fs q)"
    by (simp add: load_config_def path_exists_def fs_read_to_string_def)
  with load_config_text[of env] without_flows_text show ?thesis by blast
qed

text \<open>A serializer of three configurations, for the witnesses.\<close>

definition demo_joined :: lantun_config where
  "demo_joined =
     \<lparr>host_tunnels = [],
      client_tunnels =
        [\<lparr>ce_name = ''c'', ce_local = V4 0 25565, ce_protocol = Tcp, ce_secret = demo_secret 2,
          ce_enabled = True\<rparr>]\<rparr>"

definition demo_to_toml :: "toml \<Rightarrow> (string, string) result" where
  "demo_to_toml d =
     (if d = config_doc default_config then Ok ''[]'' else if d = config_doc demo_config then Ok ''[abc]''
      else if d = config_doc demo_joined then Ok ''[c]'' else Err ''unsupported'')"

definition demo_from_toml :: "string \<Rightarrow> (string, toml) result" where
  "demo_from_toml s =
     (if s = ''[]'' then Ok (config_doc default_config) else if s = ''[abc]'' then Ok (config_doc demo_config)
      else if s = ''[c]'' then Ok (config_doc demo_joined) else Err ''unsupported'')"

definition demo_load_env :: load_env where
  "demo_load_env = \<lparr>to_toml = demo_to_toml, from_toml = demo_from_toml, mkdir_fault = None,
     load_write_fault = No_Fault\<rparr>"

definition demo_fs :: file_system where
  "demo_fs = [[] \<mapsto> Dir]"

lemma demo_toml_ok: "toml_ok (to_toml demo_load_env) (from_toml demo_load_env)"
  by (auto simp: toml_ok_def demo_load_env_def demo_to_toml_def demo_from_toml_def split: if_splits)

lemma demo_text [simp]: "addrs_text default_config" "addrs_text demo_config" "addrs_text demo_joined"
  by (simp_all add: addrs_text_def default_config_def demo_config_def demo_joined_def demo_service_def)

lemma demo_configs_differ: "demo_config \<noteq> default_config" "demo_joined \<noteq> default_config" "demo_joined \<noteq> demo_config"
  by (simp_all add: demo_joined_def demo_config_def default_config_def)

lemma demo_written:
  "demo_to_toml (config_doc default_config) = Ok ''[]''" "demo_to_toml (config_doc demo_config) = Ok ''[abc]''"
  "demo_to_toml (config_doc demo_joined) = Ok ''[c]''"
  using demo_configs_differ by (simp_all add: demo_to_toml_def config_doc_inject)

lemma demo_read:
  "read_config demo_from_toml ''[]'' = Ok default_config" "read_config demo_from_toml ''[abc]'' = Ok demo_config"
  "read_config demo_from_toml ''[c]'' = Ok demo_joined"
  by (simp_all add: read_config_def demo_from_toml_def config_doc_roundtrip)

theorem save_load_roundtrip_witness:
  "fst (load_config demo_load_env [''t'']
     (snd (save_config demo_to_toml No_Fault [''t''] demo_config demo_fs))) = Returned (Ok demo_config)"
proof -
  obtain fs' where s: "save_config (to_toml demo_load_env) No_Fault [''t''] demo_config demo_fs = (Ok (), fs')"
    by (simp add: save_config_def demo_load_env_def demo_written fs_write_def demo_fs_def)
  have "to_toml demo_load_env = demo_to_toml" by (simp add: demo_load_env_def)
  with save_load_roundtrip[OF demo_toml_ok s] s show ?thesis by (simp add: without_flows_text)
qed

text \<open>
  C29. Where the file is missing and no fault occurs, loading makes the missing directories, writes
  the empty configuration and returns it, and nothing else appears; loading again gives the same
  configuration and writes nothing.
\<close>

theorem load_creates_default:
  assumes "toml_ok (to_toml env) (from_toml env)" and "to_toml env (config_doc default_config) = Ok s"
    and "mkdir_fault env = None" and "load_write_fault env = No_Fault"
    and "fs [] = Some Dir" and "fs p = None"
    and "\<forall>k < length p. fs (take k p) \<in> {None, Some Dir}"
    and "load_config env p fs = (q, fs')"
  shows "q = Returned (Ok default_config) \<and> fs' p = Some (Text s) \<and>
    (\<forall>x. fs' x \<noteq> fs x \<longrightarrow> prefix x p) \<and>
    load_config env p fs' = (Returned (Ok default_config), fs')"
proof -
  have p: "p \<noteq> []" using assms(5,6) by auto
  have "fs (take k (butlast p)) \<in> {None, Some Dir}" if "k \<le> length (butlast p)" for k
  proof -
    have "0 < length p" using p by simp
    with that have "k < length p" unfolding length_butlast by linarith
    with assms(7) show ?thesis by (simp add: take_butlast)
  qed
  then have dir: "fst (fs_create_dir_all None (butlast p) fs) = Ok ()"
    "snd (fs_create_dir_all None (butlast p) fs) (butlast p) = Some Dir"
    using fs_create_dir_all_Ok[of fs "butlast p"] assms(5) by blast+
  obtain fs1 where mk: "fs_create_dir_all None (butlast p) fs = (Ok (), fs1)"
    using dir(1) by (cases "fs_create_dir_all None (butlast p) fs") simp
  have new: "prefix x (butlast p)" if "fs1 x \<noteq> fs x" for x
    using fs_create_dir_all_new[of None "butlast p" fs x] that mk by simp
  have "\<not> prefix p (butlast p)"
    using prefix_length_le[of p "butlast p"] p by (cases p) (auto split: if_splits)
  with new[of p] assms(6) have none: "fs1 p = None" by (cases "fs1 p") auto
  with mk dir(2) have w: "fs_write No_Fault p s fs1 = (Ok (), fs1(p \<mapsto> Text s))"
    by (simp add: fs_write_def)
  have "read_config (from_toml env) s = Ok default_config"
    using read_config_written[OF assms(1) _ assms(2)] by (simp add: addrs_text_def default_config_def)
  moreover have "q = Returned (Ok default_config) \<and> fs' = fs1(p \<mapsto> Text s)"
    using assms(2,3,4,6,8) p mk w by (simp add: load_config_def path_exists_def path_parent_def)
  moreover have "prefix (butlast p) p" by (simp add: prefixeq_butlast)
  ultimately show ?thesis
    using new
    by (auto simp: load_config_def path_exists_def fs_read_to_string_def intro: prefix_order.trans)
qed

theorem load_creates_default_witness:
  "fst (load_config demo_load_env [''lantun'', ''lantun.toml''] demo_fs) = Returned (Ok default_config)"
proof -
  let ?p = "[''lantun'', ''lantun.toml'']"
  obtain q fs' where l: "load_config demo_load_env ?p demo_fs = (q, fs')"
    by (cases "load_config demo_load_env ?p demo_fs")
  have "\<forall>k < length ?p. demo_fs (take k ?p) \<in> {None, Some Dir}"
    by (auto simp: demo_fs_def less_Suc_eq take_Cons')
  with load_creates_default[OF demo_toml_ok _ _ _ _ _ _ l, of "''[]''"] l show ?thesis
    by (simp add: demo_load_env_def demo_written demo_fs_def)
qed

text \<open>
  A save that fails after the file was opened destroys the configuration that was there: the
  file then holds a part of the new text, which is what the next load parses.
\<close>

lemma broken_save_loses_config:
  assumes "fs p = Some (Text old)" and "to_toml env (config_doc c) = Ok s"
    and "save_config (to_toml env) (Broken_Write n e) p c fs = (r, fs')"
  shows "r = Err (Report_Io e) \<and> fs' p = Some (Text (take n s)) \<and>
    load_config env p fs' =
      (Returned (case read_config (from_toml env) (take n s) of Inl m \<Rightarrow> Err (Report_Toml m) | Inr c' \<Rightarrow> Ok c'), fs')"
  using assms
  by (auto simp: save_config_def fs_write_def load_config_def path_exists_def fs_read_to_string_def
      split: sum.splits)

end
