(* ===== verification/Cli.thy ===== *)
theory Cli
  imports Config_Behaviour
begin

section \<open>The command line\<close>

text \<open>
  \<open>lantun-cli/src/main.rs\<close>: \<open>main\<close> after \<open>clap\<close> has parsed the arguments. The commands that edit
  the configuration load the file, change a list and save the file; without a command, \<open>main\<close>
  starts every host tunnel and connects every client tunnel, one after the other, and then waits
  in \<open>try_join_all\<close> for the tasks. What the program prints is a list of lines; the library calls
  are fields of \<open>cli_env\<close>. The setup of the logger has no effect on any of this and is left out.
\<close>

subsection \<open>Arguments and environment\<close>

datatype action =
    CreateHostTunnel socket_addr tunnel_protocol string
  | AddClientTunnel string socket_addr tunnel_protocol string
  | ListTunnels
  | RemoveTunnel string

record args =
  arg_config :: "path option"
  arg_action :: "action option"

datatype line = Out string | Log_Error string

record cli_env =
  config_dir :: "path option"
  hex_encode :: "bytes \<Rightarrow> string"
  hex_decode :: hex_decoder
  valid_key :: "bytes \<Rightarrow> bool"
  keygen :: "nat \<Rightarrow> bytes"
  os_rng :: nat
  public_of :: "bytes \<Rightarrow> bytes"
  load_env_of :: load_env
  save_fault :: write_fault
  host_endpoint :: "bytes \<Rightarrow> (string, unit) result"
  client_reach :: "socket_addr \<times> tunnel_protocol \<Rightarrow> (string, unit) result \<times> (string, unit) result"

definition default_config_file :: "path option \<Rightarrow> path outcome" where
  "default_config_file dir =
     (case dir of None \<Rightarrow> Panic | Some d \<Rightarrow> Returned (d @ [''lantun'', ''lantun.toml'']))"

text \<open>The default is computed when the arguments are declared, also when a file is given.\<close>

definition config_path :: "path option \<Rightarrow> args \<Rightarrow> path outcome" where
  "config_path dir a =
     (case default_config_file dir of
        Panic \<Rightarrow> Panic
      | Returned d \<Rightarrow> Returned (case arg_config a of None \<Rightarrow> d | Some p \<Rightarrow> p))"

subsection \<open>The commands that edit the configuration\<close>

type_synonym command_result = "(report, unit) result \<times> file_system \<times> line list"

definition duplicate_error :: line where
  "duplicate_error = Log_Error ''Tunnel with this local address and protocol already exists''"

definition quoted :: "string \<Rightarrow> string" where
  "quoted s = ''\"'' @ s @ ''\"''"

definition cli_save :: "cli_env \<Rightarrow> path \<Rightarrow> lantun_config \<Rightarrow> file_system \<Rightarrow> (report, unit) result \<times> file_system" where
  "cli_save env p c fs = save_config (to_toml (load_env_of env)) (save_fault env) p c fs"

definition new_host_entry :: "cli_env \<Rightarrow> socket_addr \<Rightarrow> tunnel_protocol \<Rightarrow> string \<Rightarrow> host_tunnel_entry" where
  "new_host_entry env local proto name =
     (let secret = gen_secret (keygen env) (os_rng env) in
      \<lparr>he_name = name, he_local = local, he_protocol = proto, he_private_secret = hex_encode env secret,
       he_public_secret = hex_encode env (public_of env secret), he_enabled = True\<rparr>)"

definition add_host ::
    "cli_env \<Rightarrow> path \<Rightarrow> socket_addr \<Rightarrow> tunnel_protocol \<Rightarrow> string \<Rightarrow> lantun_config \<Rightarrow> file_system \<Rightarrow> command_result" where
  "add_host env p local proto name c fs =
     (let new = new_host_entry env local proto name in
      if \<exists>t \<in> set (host_tunnels c). he_local t = local \<and> he_protocol t = proto
      then (Ok (), fs, [duplicate_error])
      else
        let c' = c\<lparr>host_tunnels := sort_key he_name (host_tunnels c @ [new])\<rparr> in
        case cli_save env p c' fs of
          (Inl e, fs') \<Rightarrow> (Err e, fs', [])
        | (Inr u, fs') \<Rightarrow>
            (Ok (), fs',
             [Out (''Tunnel '' @ quoted name @ '' with local addr '' @ show_addr local @ ''/'' @
                tunnel_protocol_fmt proto @ '' created.''),
              Out (''The public secret is '' @ quoted (he_public_secret new)), Out '''',
              Out ''To add a client tunnel on the client side, use:'',
              Out (''  lantun add-client '' @ he_public_secret new @ '' '' @ show_addr local @ '' '' @
                tunnel_protocol_fmt proto @ '' <name>'')]))"

definition add_client ::
    "cli_env \<Rightarrow> path \<Rightarrow> string \<Rightarrow> socket_addr \<Rightarrow> tunnel_protocol \<Rightarrow> string \<Rightarrow> lantun_config \<Rightarrow> file_system \<Rightarrow>
     command_result" where
  "add_client env p secret local proto name c fs =
     (case hex_decode env secret of
        Inl e \<Rightarrow> (Err (Report_Msg ''Invalid secret format. It should be a hex string.''), fs, [])
      | Inr bs \<Rightarrow>
          let new = \<lparr>ce_name = name, ce_local = local, ce_protocol = proto, ce_secret = hex_encode env bs,
                     ce_enabled = True\<rparr> in
          if \<exists>t \<in> set (client_tunnels c). ce_local t = local \<and> ce_protocol t = proto
          then (Ok (), fs, [duplicate_error])
          else
            let c' = c\<lparr>client_tunnels := sort_key ce_name (client_tunnels c @ [new])\<rparr> in
            case cli_save env p c' fs of
              (Inl e, fs') \<Rightarrow> (Err e, fs', [])
            | (Inr u, fs') \<Rightarrow>
                (Ok (), fs',
                 [Out (''Client tunnel '' @ quoted name @ '' with local addr '' @ show_addr local @ ''/'' @
                    tunnel_protocol_fmt proto @ '' created.'')]))"

definition list_tunnels :: "lantun_config \<Rightarrow> line list" where
  "list_tunnels c =
     [Out ''Host Tunnels:''] @
     map (\<lambda>t. Out (''  '' @ he_name t @ '': '' @ show_addr (he_local t) @ ''/'' @
       tunnel_protocol_fmt (he_protocol t) @ '': '' @ he_public_secret t)) (host_tunnels c) @
     [Out '''', Out ''Client Tunnels:''] @
     map (\<lambda>t. Out (''  '' @ ce_name t @ '': '' @ show_addr (ce_local t) @ '' -> '' @ ce_secret t))
       (client_tunnels c)"

definition remove_tunnel :: "cli_env \<Rightarrow> path \<Rightarrow> string \<Rightarrow> lantun_config \<Rightarrow> file_system \<Rightarrow> command_result" where
  "remove_tunnel env p name c fs =
     (case position (\<lambda>t. he_name t = name) (host_tunnels c) of
        Some pos \<Rightarrow>
          (case cli_save env p (c\<lparr>host_tunnels := remove_at pos (host_tunnels c)\<rparr>) fs of
             (r, fs') \<Rightarrow> (r, fs', [Out (''Removed host tunnel '' @ quoted name)]))
      | None \<Rightarrow>
          (case position (\<lambda>t. ce_name t = name) (client_tunnels c) of
             Some pos \<Rightarrow>
               (case cli_save env p (c\<lparr>client_tunnels := remove_at pos (client_tunnels c)\<rparr>) fs of
                  (r, fs') \<Rightarrow> (r, fs', [Out (''Removed client tunnel '' @ quoted name)]))
           | None \<Rightarrow> (Ok (), fs, [Out (''Tunnel '' @ quoted name @ '' not found'')])))"

fun do_action :: "cli_env \<Rightarrow> path \<Rightarrow> action \<Rightarrow> lantun_config \<Rightarrow> file_system \<Rightarrow> command_result" where
  "do_action env p (CreateHostTunnel local proto name) c fs = add_host env p local proto name c fs"
| "do_action env p (AddClientTunnel secret local proto name) c fs = add_client env p secret local proto name c fs"
| "do_action env p ListTunnels c fs = (Ok (), fs, list_tunnels c)"
| "do_action env p (RemoveTunnel name) c fs = remove_tunnel env p name c fs"

subsection \<open>Running the tunnels\<close>

datatype task_handle = Host_Task nat | Client_Task nat

fun start_hosts ::
    "(bytes \<Rightarrow> (string, unit) result) \<Rightarrow> host_state \<Rightarrow> host_world \<Rightarrow>
     (report, task_handle list) result \<times> host_state \<times> host_world" where
  "start_hosts env [] w = (Ok [], [], w)"
| "start_hosts env ((k, t) # m) w =
     (case host_start (env k) (t, w) of
        (Inl e, t', w') \<Rightarrow> (Err (Report_Host e), (k, t') # m, w')
      | (Inr rid, t', w') \<Rightarrow>
          (case start_hosts env m w' of
             (Inl e, m', w'') \<Rightarrow> (Err e, (k, t') # m', w'')
           | (Inr hs, m', w'') \<Rightarrow> (Ok (Host_Task rid # hs), (k, t') # m', w'')))"

fun connect_clients ::
    "(socket_addr \<times> tunnel_protocol \<Rightarrow> (string, unit) result \<times> (string, unit) result) \<Rightarrow>
     client_state \<Rightarrow> client_world \<Rightarrow> (report, task_handle list) result \<times> client_state \<times> client_world" where
  "connect_clients env [] w = (Ok [], [], w)"
| "connect_clients env ((k, t) # m) w =
     (case client_connect (env k) (t, w) of
        (Inl e, t', w') \<Rightarrow> (Err (Report_Client e), (k, t') # m, w')
      | (Inr rid, t', w') \<Rightarrow>
          (case connect_clients env m w' of
             (Inl e, m', w'') \<Rightarrow> (Err e, (k, t') # m', w'')
           | (Inr hs, m', w'') \<Rightarrow> (Ok (Client_Task rid # hs), (k, t') # m', w'')))"

record run_state =
  rs_lantun :: lantun
  rs_hosts :: host_world
  rs_clients :: client_world
  rs_handles :: "task_handle list"

datatype main_state =
    Main_Done "(report, unit) result"
  | Main_Panicked
  | Main_Waiting run_state

definition run_tunnels :: "cli_env \<Rightarrow> host_world \<Rightarrow> client_world \<Rightarrow> lantun_config \<Rightarrow> main_state \<times> line list" where
  "run_tunnels env hw cw c =
     (if host_tunnels c = [] \<and> client_tunnels c = []
      then (Main_Done (Ok ()),
        [Out ''No tunnels found. Use `lantun add-host` or `lantun add-client` to create a tunnel.''])
      else case create_state (valid_key env) (hex_decode env) c of
        Panic \<Rightarrow> (Main_Panicked, [])
      | Returned (Inl e) \<Rightarrow> (Main_Done (Err e), [])
      | Returned (Inr lt) \<Rightarrow>
          (case start_hosts (host_endpoint env) (lt_host lt) hw of
             (Inl e, host, hw') \<Rightarrow> (Main_Done (Err e), [])
           | (Inr hs, host, hw') \<Rightarrow>
               (case connect_clients (client_reach env) (lt_client lt) cw of
                  (Inl e, client, cw') \<Rightarrow> (Main_Done (Err e), [])
                | (Inr cs, client, cw') \<Rightarrow>
                    (Main_Waiting \<lparr>rs_lantun = \<lparr>lt_host = host, lt_client = client\<rparr>, rs_hosts = hw',
                       rs_clients = cw', rs_handles = hs @ cs\<rparr>, []))))"

text \<open>
  The future pushed for a handle: a join error or the task's own error becomes a report. A task
  that is still running has no result; the accept loop of a host never returns.
\<close>

definition handle_result ::
    "('e \<Rightarrow> string) \<Rightarrow> (string, ('e, unit) result) result \<Rightarrow> (report, unit) result" where
  "handle_result fmt res =
     (case res of
        Inl join_error \<Rightarrow> Err (Report_Msg join_error)
      | Inr (Inl e) \<Rightarrow> Err (Report_Msg (fmt e))
      | Inr (Inr u) \<Rightarrow> Ok ())"

definition poll_handle :: "string \<Rightarrow> run_state \<Rightarrow> task_handle \<Rightarrow> (report, unit) result option" where
  "poll_handle join_error rs h =
     (case h of
        Host_Task i \<Rightarrow>
          (case hr_pc (host_runs (rs_hosts rs) i) of
             H_Panicked \<Rightarrow> Some (handle_result host_error_fmt (Err join_error))
           | _ \<Rightarrow> None)
      | Client_Task i \<Rightarrow>
          (case cr_pc (client_runs (rs_clients rs) i) of
             C_Done res \<Rightarrow> Some (handle_result client_error_fmt (Ok res))
           | C_Panicked \<Rightarrow> Some (handle_result client_error_fmt (Err join_error))
           | _ \<Rightarrow> None))"

text \<open>One poll of \<open>try_join_all\<close>, which is \<open>join\<close>; when it is ready, \<open>main\<close> returns its result.\<close>

fun main_poll ::
    "((report, unit) result option list \<Rightarrow> (report, unit) result option) \<Rightarrow> string \<Rightarrow> main_state \<Rightarrow> main_state" where
  "main_poll join join_error (Main_Waiting rs) =
     (case join (map (poll_handle join_error rs) (rs_handles rs)) of
        None \<Rightarrow> Main_Waiting rs
      | Some res \<Rightarrow> Main_Done res)"
| "main_poll join join_error s = s"

subsection \<open>The whole program\<close>

definition cli_main :: "cli_env \<Rightarrow> args \<Rightarrow> file_system \<Rightarrow> main_state \<times> file_system \<times> line list" where
  "cli_main env a fs =
     (case config_path (config_dir env) a of
        Panic \<Rightarrow> (Main_Panicked, fs, [])
      | Returned p \<Rightarrow>
          (case load_config (load_env_of env) p fs of
             (Panic, fs1) \<Rightarrow> (Main_Panicked, fs1, [])
           | (Returned (Inl e), fs1) \<Rightarrow> (Main_Done (Err e), fs1, [])
           | (Returned (Inr c), fs1) \<Rightarrow>
               (case arg_action a of
                  None \<Rightarrow> (case run_tunnels env empty_host_world empty_client_world c of (m, ls) \<Rightarrow> (m, fs1, ls))
                | Some act \<Rightarrow>
                    (case do_action env p act c fs1 of (r, fs2, ls) \<Rightarrow> (Main_Done r, fs2, ls)))))"

end
