(* ===== verification/Cli_Behaviour.thy ===== *)
theory Cli_Behaviour
  imports Cli
begin

section \<open>Behaviour of the command line\<close>

text \<open>
  What the commands do to the configuration file: the invariant that every sequence of commands
  keeps, what each command adds or removes, and what a run of the tunnels makes of the file.
\<close>

subsection \<open>The invariant of the configuration\<close>

definition host_key :: "host_tunnel_entry \<Rightarrow> socket_addr \<times> tunnel_protocol" where
  "host_key t = (he_local t, he_protocol t)"

definition config_ok :: "hex_decoder \<Rightarrow> lantun_config \<Rightarrow> bool" where
  "config_ok dec c \<longleftrightarrow>
     distinct (map host_key (host_tunnels c)) \<and> distinct (map client_key (client_tunnels c)) \<and>
     sorted (map he_name (host_tunnels c)) \<and> sorted (map ce_name (client_tunnels c)) \<and>
     hosts_ok dec (host_tunnels c)"

text \<open>The file is missing, or is the text of a configuration with the invariant.\<close>

definition file_ok :: "(string \<Rightarrow> (string, lantun_config) result) \<Rightarrow> hex_decoder \<Rightarrow> path \<Rightarrow> file_system \<Rightarrow> bool" where
  "file_ok parse dec p fs \<longleftrightarrow>
     fs p = None \<or> (\<exists>s c. fs p = Some (Text s) \<and> parse s = Ok c \<and> config_ok dec c)"

definition not_broken :: "write_fault \<Rightarrow> bool" where
  "not_broken f \<longleftrightarrow> (case f of Broken_Write n e \<Rightarrow> False | _ \<Rightarrow> True)"

text \<open>What a command relies on: the codecs, 32-byte keys, and writes that do not break off.\<close>

definition env_ok :: "(string \<Rightarrow> (string, lantun_config) result) \<Rightarrow> hex_decoder \<Rightarrow> cli_env \<Rightarrow> bool" where
  "env_ok parse dec env \<longleftrightarrow>
     toml_ok (to_toml (load_env_of env)) (from_toml (load_env_of env)) \<and>
     read_config (from_toml (load_env_of env)) = parse \<and> hex_ok (hex_encode env) dec \<and> hex_decode env = dec \<and>
     length (keygen env (os_rng env)) = 32 \<and>
     not_broken (save_fault env) \<and> not_broken (load_write_fault (load_env_of env))"

text \<open>Addresses on a command line are read with \<open>FromStr\<close>.\<close>

fun typed_action :: "action \<Rightarrow> bool" where
  "typed_action (CreateHostTunnel local proto name) = text_addr local"
| "typed_action (AddClientTunnel secret local proto name) = text_addr local"
| "typed_action act = True"

lemma env_ok_written:
  "env_ok parse dec env \<Longrightarrow> addrs_text c \<Longrightarrow> to_toml (load_env_of env) (config_doc c) = Ok s \<Longrightarrow> parse s = Ok c"
  using read_config_written by (auto simp: env_ok_def)

lemma config_ok_default: "config_ok dec default_config"
  by (simp add: config_ok_def default_config_def hosts_ok_def)

lemma fs_write_whole:
  "not_broken fault \<Longrightarrow> snd (fs_write fault p s fs) = fs \<or> snd (fs_write fault p s fs) = fs(p \<mapsto> Text s)"
  by (auto simp: fs_write_def not_broken_def split: write_fault.splits)

lemma save_file_ok:
  assumes "env_ok parse dec env" and "file_ok parse dec p fs" and "config_ok dec c" and "addrs_text c"
  shows "file_ok parse dec p (snd (cli_save env p c fs))"
proof (cases "to_toml (load_env_of env) (config_doc c)")
  case (Inr s)
  then have "parse s = Ok c" by (rule env_ok_written[OF assms(1,4)])
  moreover have "snd (cli_save env p c fs) = fs \<or> snd (cli_save env p c fs) = fs(p \<mapsto> Text s)"
    using fs_write_whole[of "save_fault env" p s fs] assms(1) Inr
    by (auto simp: cli_save_def save_config_def env_ok_def split: prod.splits sum.splits)
  ultimately show ?thesis using assms(2,3) by (auto simp: file_ok_def)
qed (use assms in \<open>simp add: cli_save_def save_config_def\<close>)

lemma new_host_secret:
  "env_ok parse dec env \<Longrightarrow>
   secret_of dec (he_private_secret (new_host_entry env a p n)) = Some (keygen env (os_rng env))"
  by (simp add: env_ok_def hex_ok_def new_host_entry_def gen_secret_def secret_of_def Let_def)

lemma config_ok_add_host:
  assumes "config_ok dec c" and "host_key new \<notin> host_key ` set (host_tunnels c)"
    and "secret_of dec (he_private_secret new) \<noteq> None"
  shows "config_ok dec (c\<lparr>host_tunnels := sort_key he_name (host_tunnels c @ [new])\<rparr>)"
proof -
  have "distinct (map host_key (host_tunnels c @ [new]))"
    using assms(1,2) by (simp add: config_ok_def)
  with assms show ?thesis
    by (simp add: config_ok_def hosts_ok_def)
qed

lemma config_ok_add_client:
  assumes "config_ok dec c" and "client_key new \<notin> client_key ` set (client_tunnels c)"
  shows "config_ok dec (c\<lparr>client_tunnels := sort_key ce_name (client_tunnels c @ [new])\<rparr>)"
proof -
  have "distinct (map client_key (client_tunnels c @ [new]))"
    using assms by (simp add: config_ok_def)
  with assms show ?thesis
    by (simp add: config_ok_def)
qed

lemma config_ok_remove:
  assumes "config_ok dec c"
  shows "config_ok dec (c\<lparr>host_tunnels := remove_at i (host_tunnels c)\<rparr>)"
    and "config_ok dec (c\<lparr>client_tunnels := remove_at i (client_tunnels c)\<rparr>)"
  using assms set_remove_at[of i "host_tunnels c"]
  by (auto simp: config_ok_def hosts_ok_def map_remove_at distinct_remove_at sorted_remove_at)

lemma addrs_text_edit:
  assumes "addrs_text c"
  shows "text_addr (he_local h) \<Longrightarrow> addrs_text (c\<lparr>host_tunnels := sort_key f (host_tunnels c @ [h])\<rparr>)"
    and "text_addr (ce_local t) \<Longrightarrow> addrs_text (c\<lparr>client_tunnels := sort_key g (client_tunnels c @ [t])\<rparr>)"
    and "addrs_text (c\<lparr>host_tunnels := remove_at i (host_tunnels c)\<rparr>)"
    and "addrs_text (c\<lparr>client_tunnels := remove_at i (client_tunnels c)\<rparr>)"
  using assms set_remove_at[of i "host_tunnels c"] set_remove_at[of i "client_tunnels c"]
  by (auto simp: addrs_text_def list_all_iff)

lemma add_host_key: "host_key (new_host_entry env a p n) = (a, p)"
  by (simp add: host_key_def new_host_entry_def Let_def)

lemma do_action_file_ok:
  assumes "env_ok parse dec env" and "file_ok parse dec p fs" and "config_ok dec c"
    and "addrs_text c" and "typed_action act"
  shows "file_ok parse dec p (fst (snd (do_action env p act c fs)))"
proof -
  have save: "file_ok parse dec p fs'" if "cli_save env p c' fs = (r, fs')" "config_ok dec c'" "addrs_text c'" for c' r fs'
    using save_file_ok[OF assms(1,2) that(2,3)] that(1) by simp
  show ?thesis
  proof (cases act)
    case (CreateHostTunnel a pr n)
    have "host_key (new_host_entry env a pr n) \<notin> host_key ` set (host_tunnels c)"
      if "\<not> (\<exists>t \<in> set (host_tunnels c). he_local t = a \<and> he_protocol t = pr)"
      using that unfolding add_host_key by (auto simp: host_key_def)
    note ok = config_ok_add_host[OF assms(3) this]
    have "text_addr (he_local (new_host_entry env a pr n))"
      using assms(5) by (simp add: CreateHostTunnel new_host_entry_def Let_def)
    from addrs_text_edit(1)[OF assms(4) this, of he_name] assms(2) ok new_host_secret[OF assms(1)] show ?thesis
      by (auto simp: CreateHostTunnel add_host_def Let_def split: prod.splits sum.splits dest: save)
  next
    case (AddClientTunnel s a pr n)
    have "config_ok dec (c\<lparr>client_tunnels := sort_key ce_name (client_tunnels c @
        [\<lparr>ce_name = n, ce_local = a, ce_protocol = pr, ce_secret = x, ce_enabled = True\<rparr>])\<rparr>)"
      if "\<not> (\<exists>t \<in> set (client_tunnels c). ce_local t = a \<and> ce_protocol t = pr)" for x
      by (rule config_ok_add_client[OF assms(3)]) (use that in \<open>auto simp: client_key_def\<close>)
    moreover have "addrs_text (c\<lparr>client_tunnels := sort_key ce_name (client_tunnels c @
        [\<lparr>ce_name = n, ce_local = a, ce_protocol = pr, ce_secret = x, ce_enabled = True\<rparr>])\<rparr>)" for x
      by (rule addrs_text_edit(2)[OF assms(4)]) (use assms(5) AddClientTunnel in simp)
    ultimately show ?thesis
      using assms(2)
      by (auto simp: AddClientTunnel add_client_def Let_def split: prod.splits sum.splits dest: save)
  next
    case ListTunnels
    with assms(2) show ?thesis by simp
  next
    case (RemoveTunnel n)
    with assms(2) config_ok_remove[OF assms(3)] addrs_text_edit(3,4)[OF assms(4)] show ?thesis
      by (auto simp: remove_tunnel_def split: prod.splits option.splits dest: save)
  qed
qed

lemma load_file_ok:
  assumes "env_ok parse dec env" and "file_ok parse dec p fs"
    and "load_config (load_env_of env) p fs = (q, fs')"
  shows "file_ok parse dec p fs' \<and> (\<forall>c. q = Returned (Ok c) \<longrightarrow> config_ok dec c \<and> addrs_text c)"
proof (cases "fs p")
  case None
  show ?thesis
  proof (cases "p = []")
    case True
    with None assms(2,3) show ?thesis
      by (auto simp: load_config_def path_exists_def path_parent_def)
  next
    case False
    obtain r fs1 where mk: "fs_create_dir_all (mkdir_fault (load_env_of env)) (butlast p) fs = (r, fs1)"
      by (cases "fs_create_dir_all (mkdir_fault (load_env_of env)) (butlast p) fs")
    have "\<not> prefix p (butlast p)"
      using prefix_length_le[of p "butlast p"] False by (cases p) (auto split: if_splits)
    with fs_create_dir_all_new[of "mkdir_fault (load_env_of env)" "butlast p" fs p] mk None
    have none: "fs1 p = None" by (cases "fs1 p") auto
    show ?thesis
    proof (cases "to_toml (load_env_of env) (config_doc default_config)")
      case (Inl e)
      with assms(3) None False mk none show ?thesis
        by (auto simp: load_config_def path_exists_def path_parent_def file_ok_def split: sum.splits)
    next
      case (Inr s)
      then have "parse s = Ok default_config" using env_ok_written[OF assms(1)] by simp
      then have "file_ok parse dec p (fs1(p \<mapsto> Text s))" "file_ok parse dec p fs1"
        using none config_ok_default by (simp_all add: file_ok_def)
      then have "file_ok parse dec p (snd (fs_write (load_write_fault (load_env_of env)) p s fs1))"
        using fs_write_whole[of "load_write_fault (load_env_of env)" p s fs1] assms(1)
        by (auto simp: env_ok_def)
      with \<open>file_ok parse dec p fs1\<close> assms(3) None False mk Inr show ?thesis
        by (auto simp: load_config_def path_exists_def path_parent_def config_ok_default
            split: sum.splits prod.splits)
    qed
  qed
next
  case (Some n)
  with assms show ?thesis
    by (auto simp: load_config_def path_exists_def fs_read_to_string_def file_ok_def env_ok_def
        split: sum.splits dest: read_config_text)
qed

subsection \<open>Sessions of commands\<close>

fun cli_session :: "path \<Rightarrow> (cli_env \<times> action option) list \<Rightarrow> file_system \<Rightarrow> file_system" where
  "cli_session p [] fs = fs"
| "cli_session p ((env, act) # cs) fs =
     cli_session p cs (fst (snd (cli_main env \<lparr>arg_config = Some p, arg_action = act\<rparr> fs)))"

lemma cli_main_file_ok:
  assumes "env_ok parse dec env" and "file_ok parse dec p fs" and "pred_option typed_action act"
  shows "file_ok parse dec p (fst (snd (cli_main env \<lparr>arg_config = Some p, arg_action = act\<rparr> fs)))"
proof -
  obtain q fs1 where load: "load_config (load_env_of env) p fs = (q, fs1)"
    by (cases "load_config (load_env_of env) p fs")
  note ok = load_file_ok[OF assms(1,2) load]
  have "file_ok parse dec p fs2"
    if "q = Returned (Ok c)" "do_action env p x c fs1 = (r, fs2, ls)" "typed_action x" for x c r fs2 ls
    using do_action_file_ok[OF assms(1), of p fs1 c x] ok that by simp
  with load ok assms(2,3) show ?thesis
    by (auto simp: cli_main_def config_path_def split: outcome.splits sum.splits option.splits prod.splits)
qed

lemma cli_session_file_ok:
  assumes "\<forall>(env, act) \<in> set cs. env_ok parse dec env \<and> pred_option typed_action act" and "file_ok parse dec p fs"
  shows "file_ok parse dec p (cli_session p cs fs)"
  using assms
proof (induction cs arbitrary: fs)
  case (Cons c cs)
  obtain env act where c: "c = (env, act)" by (cases c)
  show ?case
    unfolding c cli_session.simps
    by (rule Cons.IH) (use Cons.prems c cli_main_file_ok in auto)
qed simp

text \<open>
  C22. Whatever commands are run on a configuration file, with addresses that \<open>FromStr\<close> has read, in
  any order and whether they succeed or fail, as long as no write breaks off in the middle: the file stays the text of a configuration in
  which no two hosts and no two clients share address and protocol, both lists are sorted by name
  and every private secret is the hex text of 32 bytes. A run of the tunnels can then only be
  stopped, before it starts anything, by a client's secret.
\<close>

theorem sessions_keep_config:
  assumes "\<forall>(env, act) \<in> set cs. env_ok parse dec env \<and> pred_option typed_action act" and "file_ok parse dec p fs"
    and "env_ok parse dec env" and "load_config (load_env_of env) p (cli_session p cs fs) = (Returned (Ok c), fs')"
  shows "file_ok parse dec p (cli_session p cs fs) \<and> config_ok dec c \<and>
    ((\<exists>lt. create_state valid dec c = Returned (Ok lt)) \<longleftrightarrow> clients_ok valid dec (client_tunnels c))"
proof -
  note kept = cli_session_file_ok[OF assms(1,2)]
  then have "config_ok dec c" using load_file_ok[OF assms(3) kept assms(4)] by simp
  with kept show ?thesis
    by (auto simp: create_state_Ok_iff config_usable_def config_ok_def)
qed

definition demo_env :: cli_env where
  "demo_env =
     \<lparr>config_dir = Some [], hex_encode = demo_hex_encode, hex_decode = demo_hex_decode,
      valid_key = (\<lambda>_. True), keygen = (\<lambda>_. replicate 32 1), os_rng = 0,
      public_of = (\<lambda>_. replicate 32 2), load_env_of = demo_load_env, save_fault = No_Fault,
      host_endpoint = (\<lambda>_. Ok ()), client_reach = (\<lambda>_. (Ok (), Ok ()))\<rparr>"

definition demo_add :: action where
  "demo_add = AddClientTunnel (demo_secret 2) (V4 0 25565) Tcp ''c''"

lemma demo_env_ok: "env_ok (read_config demo_from_toml) demo_hex_decode demo_env"
  using demo_toml_ok demo_hex_ok
  by (simp add: env_ok_def demo_env_def demo_load_env_def not_broken_def)

text \<open>Adding the client to the empty configuration in the file \<open>t\<close>.\<close>

definition demo_before :: file_system where
  "demo_before = demo_fs([''t''] \<mapsto> Text ''[]'')"

definition demo_after :: file_system where
  "demo_after = demo_fs([''t''] \<mapsto> Text ''[c]'')"

lemmas demo_cli_defs = demo_env_def demo_load_env_def demo_written demo_read demo_add_def

lemma demo_hex_id: "demo_hex_decode (demo_secret b) = Ok (replicate 32 b)"
  using demo_hex_ok by (simp add: demo_secret_def hex_ok_def)

lemma demo_joined_add:
  "default_config\<lparr>client_tunnels := sort_key ce_name ([] @ [\<lparr>ce_name = ''c'', ce_local = V4 0 25565,
     ce_protocol = Tcp, ce_secret = demo_hex_encode (replicate 32 2), ce_enabled = True\<rparr>])\<rparr> = demo_joined"
  by (simp add: demo_joined_def default_config_def demo_secret_def)

lemma demo_save: "cli_save demo_env [''t''] demo_joined demo_before = (Ok (), demo_after)"
  by (simp add: cli_save_def save_config_def fs_write_def demo_cli_defs demo_before_def demo_after_def demo_fs_def)

lemma demo_add_run: "\<exists>ls. do_action demo_env [''t''] demo_add default_config demo_before = (Ok (), demo_after, ls)"
proof -
  have "hex_decode demo_env = demo_hex_decode" "hex_encode demo_env = demo_hex_encode"
    "client_tunnels default_config = []"
    by (simp_all add: demo_env_def default_config_def)
  then show ?thesis
    using demo_save demo_joined_add
    by (simp add: demo_add_def add_client_def demo_hex_id Let_def)
qed

lemma demo_load:
  "load_config (load_env_of demo_env) [''t''] demo_before = (Returned (Ok default_config), demo_before)"
  "load_config (load_env_of demo_env) [''t''] demo_after = (Returned (Ok demo_joined), demo_after)"
  by (simp_all add: load_config_def path_exists_def fs_read_to_string_def demo_before_def demo_after_def
      demo_env_def demo_load_env_def demo_read)

lemma demo_add_main:
  "fst (snd (cli_main demo_env \<lparr>arg_config = Some [''t''], arg_action = Some demo_add\<rparr> demo_before)) = demo_after"
proof -
  have "config_path (config_dir demo_env) \<lparr>arg_config = Some [''t''], arg_action = Some demo_add\<rparr> = Returned [''t'']"
    by (simp add: config_path_def default_config_file_def demo_env_def)
  with demo_add_run show ?thesis
    by (auto simp: cli_main_def demo_load)
qed

lemma demo_before_ok: "file_ok (read_config demo_from_toml) demo_hex_decode [''t''] demo_before"
  using config_ok_default by (simp add: file_ok_def demo_before_def demo_read)

theorem sessions_keep_config_witness:
  "config_ok demo_hex_decode demo_joined"
proof -
  have session: "cli_session [''t''] [(demo_env, Some demo_add)] demo_before = demo_after"
    by (simp add: demo_add_main)
  have "\<forall>(env, act) \<in> set [(demo_env, Some demo_add)].
      env_ok (read_config demo_from_toml) demo_hex_decode env \<and> pred_option typed_action act"
    by (simp add: demo_env_ok demo_add_def)
  from sessions_keep_config[OF this demo_before_ok demo_env_ok, unfolded session, OF demo_load(2)]
  show ?thesis by blast
qed

end
