(* ===== verification/Cli_Commands.thy ===== *)
theory Cli_Commands
  imports Cli_Behaviour
begin

section \<open>What the commands and a run achieve\<close>

text \<open>
  The functional behaviour of each command on the configuration that it leaves in the file, and
  of a run: which tunnels are started, and how \<open>main\<close> ends.
\<close>

subsection \<open>The file after a command\<close>

lemma cli_save_load:
  assumes "env_ok parse dec env" and "addrs_text c" and "cli_save env p c fs = (Ok u, fs')"
  shows "load_config (load_env_of env) p fs' = (Returned (Ok c), fs')"
proof -
  obtain s where s: "to_toml (load_env_of env) (config_doc c) = Ok s" and w: "fs' = fs(p \<mapsto> Text s)"
    using assms(3) by (auto simp: cli_save_def save_config_def split: sum.splits prod.splits dest: fs_write_Ok)
  then have "read_config (from_toml (load_env_of env)) s = Ok c"
    using env_ok_written[OF assms(1,2)] assms(1) by (simp add: env_ok_def)
  then show ?thesis
    by (simp add: w load_config_def path_exists_def fs_read_to_string_def)
qed

lemma add_host_Ok:
  assumes "env_ok parse dec env" and "add_host env p local proto name c fs = (Ok (), fs', ls)"
    and "(local, proto) \<notin> host_key ` set (host_tunnels c)" and "addrs_text c" and "text_addr local"
  shows "load_config (load_env_of env) p fs' =
    (Returned (Ok (c\<lparr>host_tunnels := sort_key he_name (host_tunnels c @ [new_host_entry env local proto name])\<rparr>)), fs')"
proof -
  have "\<not> (\<exists>t \<in> set (host_tunnels c). he_local t = local \<and> he_protocol t = proto)"
    using assms(3) by (force simp: host_key_def)
  with assms(2) have "cli_save env p
      (c\<lparr>host_tunnels := sort_key he_name (host_tunnels c @ [new_host_entry env local proto name])\<rparr>) fs = (Ok (), fs')"
    by (auto simp: add_host_def Let_def split: prod.splits sum.splits)
  moreover have "text_addr (he_local (new_host_entry env local proto name))"
    using assms(5) by (simp add: new_host_entry_def Let_def)
  ultimately show ?thesis using cli_save_load[OF assms(1) addrs_text_edit(1)[OF assms(4)]] by blast
qed

definition new_client_entry :: "cli_env \<Rightarrow> bytes \<Rightarrow> socket_addr \<Rightarrow> tunnel_protocol \<Rightarrow> string \<Rightarrow> client_tunnel_entry" where
  "new_client_entry env bs local proto name =
     \<lparr>ce_name = name, ce_local = local, ce_protocol = proto, ce_secret = hex_encode env bs, ce_enabled = True\<rparr>"

lemma add_client_Ok:
  assumes "env_ok parse dec env" and "add_client env p secret local proto name c fs = (Ok (), fs', ls)"
    and "(local, proto) \<notin> client_key ` set (client_tunnels c)" and "dec secret = Ok bs"
    and "addrs_text c" and "text_addr local"
  shows "load_config (load_env_of env) p fs' =
    (Returned (Ok (c\<lparr>client_tunnels :=
       sort_key ce_name (client_tunnels c @ [new_client_entry env bs local proto name])\<rparr>)), fs')"
proof -
  have "\<not> (\<exists>t \<in> set (client_tunnels c). ce_local t = local \<and> ce_protocol t = proto)"
    using assms(3) by (force simp: client_key_def)
  moreover have "hex_decode env = dec" using assms(1) by (simp add: env_ok_def)
  ultimately have "cli_save env p (c\<lparr>client_tunnels :=
      sort_key ce_name (client_tunnels c @ [new_client_entry env bs local proto name])\<rparr>) fs = (Ok (), fs')"
    using assms(2,4) by (auto simp: add_client_def new_client_entry_def Let_def split: if_splits prod.splits sum.splits)
  moreover have "text_addr (ce_local (new_client_entry env bs local proto name))"
    using assms(6) by (simp add: new_client_entry_def)
  ultimately show ?thesis using cli_save_load[OF assms(1) addrs_text_edit(2)[OF assms(5)]] by blast
qed

text \<open>
  A list with one entry more, sorted by name: the new entry comes after the entries of its name,
  and the entries of each name keep their order.
\<close>

definition inserted_last :: "('a \<Rightarrow> string) \<Rightarrow> 'a \<Rightarrow> 'a list \<Rightarrow> 'a list \<Rightarrow> bool" where
  "inserted_last nm x xs ts \<longleftrightarrow>
     mset ts = add_mset x (mset xs) \<and> sorted (map nm ts) \<and>
     (\<forall>n. filter (\<lambda>t. nm t = n) ts = filter (\<lambda>t. nm t = n) xs @ (if nm x = n then [x] else []))"

lemma inserted_last_sort: "inserted_last nm x xs (sort_key nm (xs @ [x]))"
  by (simp add: inserted_last_def sort_key_stable_class del: sort_key_simps)

text \<open>
  C26. Adding a tunnel, for either side, on a configuration and with an address that were read from
  text. An address and protocol that are taken leave the file as it
  is, and the program still exits with success. Otherwise, when the command succeeds, the file holds
  the old entries and the new one, sorted by name, the new one after every entry of the same name
  and each name's entries in their old order.
\<close>

theorem add_tunnel_outcomes:
  assumes "env_ok parse dec env" and "dec secret = Ok bs" and "addrs_text c" and "text_addr local"
    and "add_host env p local proto name c fs = (r, fs', ls)"
    and "add_client env p secret local proto name c fs = (r', fs'', ls')"
  shows "(if (local, proto) \<in> host_key ` set (host_tunnels c)
      then r = Ok () \<and> fs' = fs \<and> ls = [duplicate_error]
      else r = Ok () \<longrightarrow>
        (\<exists>ts. load_config (load_env_of env) p fs' = (Returned (Ok (c\<lparr>host_tunnels := ts\<rparr>)), fs') \<and>
          inserted_last he_name (new_host_entry env local proto name) (host_tunnels c) ts)) \<and>
    (if (local, proto) \<in> client_key ` set (client_tunnels c)
      then r' = Ok () \<and> fs'' = fs \<and> ls' = [duplicate_error]
      else r' = Ok () \<longrightarrow>
        (\<exists>ts. load_config (load_env_of env) p fs'' = (Returned (Ok (c\<lparr>client_tunnels := ts\<rparr>)), fs'') \<and>
          inserted_last ce_name (new_client_entry env bs local proto name) (client_tunnels c) ts))"
    (is "?host \<and> ?client")
proof
  show ?host
  proof (cases "(local, proto) \<in> host_key ` set (host_tunnels c)")
    case True
    then have "\<exists>t \<in> set (host_tunnels c). he_local t = local \<and> he_protocol t = proto"
      by (force simp: host_key_def)
    with assms(5) True show ?thesis by (auto simp: add_host_def Let_def)
  next
    case False
    show ?thesis
      using add_host_Ok[OF assms(1) _ False assms(3,4)] assms(5) inserted_last_sort[of he_name] False
      by (simp only: if_False) blast
  qed
  show ?client
  proof (cases "(local, proto) \<in> client_key ` set (client_tunnels c)")
    case True
    then have "\<exists>t \<in> set (client_tunnels c). ce_local t = local \<and> ce_protocol t = proto"
      by (force simp: client_key_def)
    with assms(1,2,6) True show ?thesis by (auto simp: add_client_def env_ok_def Let_def)
  next
    case False
    show ?thesis
      using add_client_Ok[OF assms(1) _ False assms(2-4)] assms(6) inserted_last_sort[of ce_name] False
      by (simp only: if_False) blast
  qed
qed

theorem add_tunnel_outcomes_witness:
  "\<exists>ts ls. add_client demo_env [''t''] (demo_secret 2) (V4 0 25565) Tcp ''c'' default_config demo_before =
     (Ok (), demo_after, ls) \<and>
     inserted_last ce_name (new_client_entry demo_env (replicate 32 2) (V4 0 25565) Tcp ''c'') [] ts"
proof -
  obtain r fs' ls where h: "add_host demo_env [''t''] (V4 0 25565) Tcp ''c'' default_config demo_before = (r, fs', ls)"
    by (cases "add_host demo_env [''t''] (V4 0 25565) Tcp ''c'' default_config demo_before")
  obtain ls' where c: "add_client demo_env [''t''] (demo_secret 2) (V4 0 25565) Tcp ''c'' default_config demo_before =
      (Ok (), demo_after, ls')"
    using demo_add_run by (auto simp: demo_add_def)
  have "client_tunnels default_config = []" by (simp add: default_config_def)
  with add_tunnel_outcomes[OF demo_env_ok demo_hex_id demo_text(1) _ h c] c show ?thesis by auto
qed

definition without_first :: "('a \<Rightarrow> bool) \<Rightarrow> 'a list \<Rightarrow> 'a list" where
  "without_first P xs = takeWhile (\<lambda>x. \<not> P x) xs @ tl (dropWhile (\<lambda>x. \<not> P x) xs)"

lemma remove_at_position: "position P xs = Some i \<Longrightarrow> remove_at i xs = without_first P xs"
proof (induction xs arbitrary: i)
  case (Cons x xs)
  then show ?case
    by (auto simp: remove_at_def without_first_def split: if_splits)
qed simp

text \<open>
  C27. Removing by name takes out exactly one entry of a configuration that was read from text: the first host of that name, or, when no host has
  it, the first client of that name; when there is neither, the file is not written. All other
  entries stay in their order.
\<close>

theorem remove_takes_first_match:
  assumes "env_ok parse dec env" and "addrs_text c" and "remove_tunnel env p name c fs = (Ok (), fs', ls)"
  shows "if \<exists>t \<in> set (host_tunnels c). he_name t = name
    then load_config (load_env_of env) p fs' = (Returned (Ok
      (c\<lparr>host_tunnels := without_first (\<lambda>t. he_name t = name) (host_tunnels c)\<rparr>)), fs')
    else if \<exists>t \<in> set (client_tunnels c). ce_name t = name
    then load_config (load_env_of env) p fs' = (Returned (Ok
      (c\<lparr>client_tunnels := without_first (\<lambda>t. ce_name t = name) (client_tunnels c)\<rparr>)), fs')
    else fs' = fs"
proof (cases "position (\<lambda>t. he_name t = name) (host_tunnels c)")
  case (Some i)
  then have "\<exists>t \<in> set (host_tunnels c). he_name t = name"
    using position_None_iff[of "\<lambda>t. he_name t = name" "host_tunnels c"] by auto
  moreover have "cli_save env p
      (c\<lparr>host_tunnels := without_first (\<lambda>t. he_name t = name) (host_tunnels c)\<rparr>) fs = (Ok (), fs')"
    using assms(3) Some by (auto simp: remove_tunnel_def remove_at_position split: prod.splits)
  moreover have "addrs_text (c\<lparr>host_tunnels := without_first (\<lambda>t. he_name t = name) (host_tunnels c)\<rparr>)"
    using addrs_text_edit(3)[OF assms(2), of i] Some by (simp add: remove_at_position)
  ultimately show ?thesis using cli_save_load[OF assms(1)] by auto
next
  case None
  then have no_host: "\<not> (\<exists>t \<in> set (host_tunnels c). he_name t = name)"
    by (simp add: position_None_iff)
  show ?thesis
  proof (cases "position (\<lambda>t. ce_name t = name) (client_tunnels c)")
    case (Some i)
    then have "\<exists>t \<in> set (client_tunnels c). ce_name t = name"
      using position_None_iff[of "\<lambda>t. ce_name t = name" "client_tunnels c"] by auto
    moreover have "cli_save env p
        (c\<lparr>client_tunnels := without_first (\<lambda>t. ce_name t = name) (client_tunnels c)\<rparr>) fs = (Ok (), fs')"
      using assms(3) None Some by (auto simp: remove_tunnel_def remove_at_position split: prod.splits)
    moreover have "addrs_text (c\<lparr>client_tunnels := without_first (\<lambda>t. ce_name t = name) (client_tunnels c)\<rparr>)"
      using addrs_text_edit(4)[OF assms(2), of i] Some by (simp add: remove_at_position)
    ultimately show ?thesis using cli_save_load[OF assms(1)] no_host by auto
  next
    case no_client: None
    then have "\<not> (\<exists>t \<in> set (client_tunnels c). ce_name t = name)"
      by (simp add: position_None_iff)
    with assms(3) None no_client no_host show ?thesis by (auto simp: remove_tunnel_def)
  qed
qed

lemma demo_empty_joined: "demo_joined\<lparr>client_tunnels := []\<rparr> = default_config"
  by (simp add: demo_joined_def default_config_def)

theorem remove_takes_first_match_witness:
  "\<exists>fs' ls. remove_tunnel demo_env [''t''] ''c'' demo_joined demo_after = (Ok (), fs', ls) \<and>
     load_config (load_env_of demo_env) [''t''] fs' = (Returned (Ok default_config), fs')"
proof -
  have "position (\<lambda>t. ce_name t = ''c'') (client_tunnels demo_joined) = Some 0" "host_tunnels demo_joined = []"
    "remove_at 0 (client_tunnels demo_joined) = []"
    by (simp_all add: demo_joined_def remove_at_def)
  moreover obtain fs' where "cli_save demo_env [''t''] default_config demo_after = (Ok (), fs')"
    by (simp add: cli_save_def save_config_def fs_write_def demo_cli_defs demo_after_def demo_fs_def)
  ultimately have r: "\<exists>ls. remove_tunnel demo_env [''t''] ''c'' demo_joined demo_after = (Ok (), fs', ls)"
    by (simp add: remove_tunnel_def demo_empty_joined)
  then obtain ls where r: "remove_tunnel demo_env [''t''] ''c'' demo_joined demo_after = (Ok (), fs', ls)" by blast
  have "without_first (\<lambda>t. ce_name t = ''c'') (client_tunnels demo_joined) = []"
    "host_tunnels demo_joined = []" "\<exists>t \<in> set (client_tunnels demo_joined). ce_name t = ''c''"
    by (simp_all add: demo_joined_def without_first_def)
  with remove_takes_first_match[OF demo_env_ok demo_text(3) r] r show ?thesis
    by (simp add: demo_empty_joined)
qed

end
