(* ===== verification/Cli_Run.thy ===== *)
theory Cli_Run
  imports Cli_Commands
begin

section \<open>Running the configured tunnels\<close>

text \<open>
  \<open>main\<close> without a command: what it starts from the configuration, and how it ends. The function
  \<open>try_join_all\<close> is third-party code; \<open>join_ok\<close> states what is documented of one poll of it.
\<close>

subsection \<open>Starting\<close>

text \<open>
  The tunnel \<open>t\<close> has been started as \<open>t'\<close>: it keeps its identity, runs, and its running properties
  refer to a task in its initial state, for its address and protocol, whose handle is among \<open>hs\<close>.
\<close>

definition host_started :: "host_world \<Rightarrow> task_handle list \<Rightarrow> host_tunnel \<Rightarrow> host_tunnel \<Rightarrow> bool" where
  "host_started w hs t t' \<longleftrightarrow>
     host_is_running t' \<and> host_ident t' = host_ident t \<and>
     (\<exists>id. Host_Task id \<in> set hs \<and>
        ht_running_props t' = Some \<lparr>hp_connections = id, hp_endpoint = id, hp_stop_tx = id\<rparr> \<and>
        host_runs w id = new_host_run (ht_host_addr t) (ht_protocol t))"

definition client_started :: "client_world \<Rightarrow> task_handle list \<Rightarrow> client_tunnel \<Rightarrow> client_tunnel \<Rightarrow> bool" where
  "client_started w hs t t' \<longleftrightarrow>
     client_is_running t' \<and> client_ident t' = client_ident t \<and>
     (\<exists>id. Client_Task id \<in> set hs \<and>
        ct_running_props t' = Some \<lparr>cp_local_connections = id, cp_endpoint = id, cp_connection = id, cp_stop_tx = id\<rparr> \<and>
        client_runs w id = new_client_run (ct_tunnel_addr t) (ct_protocol t))"

definition same_keys :: "('v \<Rightarrow> 'v \<Rightarrow> bool) \<Rightarrow> ('k, 'v) hashmap \<Rightarrow> ('k, 'v) hashmap \<Rightarrow> bool" where
  "same_keys R m m' \<longleftrightarrow> list_all2 (\<lambda>(k, t) (k', t'). k' = k \<and> R t t') m m'"

lemma same_keys_get:
  assumes "same_keys R m m'" and "hm_get m k = Some t"
  shows "\<exists>t'. hm_get m' k = Some t' \<and> R t t'"
proof -
  from assms(1) have "list_all2 (\<lambda>(k, t) (k', t'). k' = k \<and> R t t') m m'" by (simp add: same_keys_def)
  then show ?thesis
    using assms(2) by (induction m m' rule: list_all2_induct) (auto simp: hm_get_def split: if_splits)
qed

lemma same_keys_mono: "same_keys R m m' \<Longrightarrow> (\<And>t t'. R t t' \<Longrightarrow> Q t t') \<Longrightarrow> same_keys Q m m'"
  unfolding same_keys_def by (erule list_all2_mono) auto

lemma start_hosts_Ok:
  assumes "\<forall>k. env k = Ok ()" and "\<forall>(k, t) \<in> set m. \<not> host_is_running t"
  shows "\<exists>m' w'. start_hosts env m w = (Ok (map Host_Task [next_run w..<next_run w + length m]), m', w') \<and>
    same_keys (host_started w' (map Host_Task [next_run w..<next_run w + length m])) m m' \<and>
    (\<forall>i < next_run w. host_runs w' i = host_runs w i)"
  using assms(2)
proof (induction m arbitrary: w)
  case (Cons kt m)
  obtain k t where kt: "kt = (k, t)" by (cases kt)
  let ?id = "next_run w"
  obtain r t' w1 where start: "host_start (env k) (t, w) = (r, t', w1)" by (metis prod_cases3)
  have st: "host_start (env k) (t, w) = (Ok ?id, t', w1)"
    and t': "host_is_running t'" "host_ident t' = host_ident t"
      "ht_running_props t' = Some \<lparr>hp_connections = ?id, hp_endpoint = ?id, hp_stop_tx = ?id\<rparr>"
    and w1: "next_run w1 = Suc ?id"
      "host_runs w1 = (host_runs w)(?id := new_host_run (ht_host_addr t) (ht_protocol t))"
    using start Cons.prems kt assms(1)
    by (auto simp: host_start_def host_is_running_def host_ident_def Let_def)
  have closed: "\<forall>(k, t) \<in> set m. \<not> host_is_running t" using Cons.prems by simp
  let ?tail = "map Host_Task [Suc ?id..<Suc ?id + length m]"
  let ?hs = "map Host_Task [?id..<?id + length (kt # m)]"
  have hs: "?hs = Host_Task ?id # ?tail" by (simp add: upt_conv_Cons del: upt_Suc)
  from Cons.IH[OF closed, of w1, unfolded w1(1)] obtain m' w' where
    ih: "start_hosts env m w1 = (Ok ?tail, m', w')" "same_keys (host_started w' ?tail) m m'"
      "\<forall>i < Suc ?id. host_runs w' i = host_runs w1 i" by blast
  have "same_keys (host_started w' ?hs) m m'"
    by (rule same_keys_mono[OF ih(2)]) (auto simp: host_started_def hs)
  moreover have "host_started w' ?hs t t'"
    using t' ih(3) w1(2) by (auto simp: host_started_def hs)
  ultimately have "same_keys (host_started w' ?hs) (kt # m) ((k, t') # m')"
    by (simp add: same_keys_def kt)
  moreover have "start_hosts env (kt # m) w = (Ok ?hs, (k, t') # m', w')"
    unfolding hs using st ih(1) kt by (simp del: upt_Suc)
  moreover have "\<forall>i < ?id. host_runs w' i = host_runs w i" using ih(3) w1(2) by simp
  ultimately show ?case by blast
qed (simp add: same_keys_def)

lemma connect_clients_Ok:
  assumes "\<forall>k. env k = (Ok (), Ok ())" and "\<forall>(k, t) \<in> set m. \<not> client_is_running t"
  shows "\<exists>m' w'. connect_clients env m w = (Ok (map Client_Task [next_listener w..<next_listener w + length m]), m', w') \<and>
    same_keys (client_started w' (map Client_Task [next_listener w..<next_listener w + length m])) m m' \<and>
    (\<forall>i < next_listener w. client_runs w' i = client_runs w i)"
  using assms(2)
proof (induction m arbitrary: w)
  case (Cons kt m)
  obtain k t where kt: "kt = (k, t)" by (cases kt)
  let ?id = "next_listener w"
  have env: "env k = (Ok (), Ok ())" using assms(1) by (rule spec)
  obtain r t' w1 where start: "client_connect (env k) (t, w) = (r, t', w1)" by (metis prod_cases3)
  have st: "client_connect (env k) (t, w) = (Ok ?id, t', w1)"
    and t': "client_is_running t'" "client_ident t' = client_ident t"
      "ct_running_props t' = Some \<lparr>cp_local_connections = ?id, cp_endpoint = ?id, cp_connection = ?id, cp_stop_tx = ?id\<rparr>"
    and w1: "next_listener w1 = Suc ?id"
      "client_runs w1 = (client_runs w)(?id := new_client_run (ct_tunnel_addr t) (ct_protocol t))"
    using start Cons.prems kt env
    by (auto simp: client_connect_def client_is_running_def client_ident_def Let_def)
  have closed: "\<forall>(k, t) \<in> set m. \<not> client_is_running t" using Cons.prems by simp
  let ?tail = "map Client_Task [Suc ?id..<Suc ?id + length m]"
  let ?hs = "map Client_Task [?id..<?id + length (kt # m)]"
  have hs: "?hs = Client_Task ?id # ?tail" by (simp add: upt_conv_Cons del: upt_Suc)
  from Cons.IH[OF closed, of w1, unfolded w1(1)] obtain m' w' where
    ih: "connect_clients env m w1 = (Ok ?tail, m', w')" "same_keys (client_started w' ?tail) m m'"
      "\<forall>i < Suc ?id. client_runs w' i = client_runs w1 i" by blast
  have "same_keys (client_started w' ?hs) m m'"
    by (rule same_keys_mono[OF ih(2)]) (auto simp: client_started_def hs)
  moreover have "client_started w' ?hs t t'"
    using t' ih(3) w1(2) by (auto simp: client_started_def hs)
  ultimately have "same_keys (client_started w' ?hs) (kt # m) ((k, t') # m')"
    by (simp add: same_keys_def kt)
  moreover have "connect_clients env (kt # m) w = (Ok ?hs, (k, t') # m', w')"
    unfolding hs using st ih(1) kt by (simp del: upt_Suc)
  moreover have "\<forall>i < ?id. client_runs w' i = client_runs w i" using ih(3) w1(2) by simp
  ultimately show ?case by blast
qed (simp add: same_keys_def)

lemma created_hosts_closed:
  assumes "create_hosts dec ts host_state_new = Ok st" and "(k, t) \<in> set st"
  shows "\<not> host_is_running t"
proof -
  note ok = create_hosts_get[OF assms(1) host_state_ok_new]
  then have "hm_get st k = Some t"
    using assms(2) hm_get_Some_iff[of st k t] by (simp add: host_state_ok_def)
  then have "host_get_tunnel st k = Some t" by (simp add: host_get_tunnel_def)
  moreover have "host_get_tunnel host_state_new k = None"
    by (simp add: host_get_tunnel_def host_state_new_def hm_simps)
  ultimately show ?thesis
    using ok[of k] by (auto simp: entry_host_def new_host_tunnel_def host_is_running_def split: option.splits)
qed

lemma created_clients_closed:
  assumes "create_clients valid dec ts client_state_new = Returned (Ok st)" and "(k, t) \<in> set st"
  shows "\<not> client_is_running t"
proof -
  note ok = create_clients_get[OF assms(1) client_state_ok_new]
  then have "hm_get st k = Some t"
    using assms(2) hm_get_Some_iff[of st k t] by (simp add: client_state_ok_def)
  then have got: "client_get_tunnel st (fst k) (snd k) = Some t" by (simp add: client_get_tunnel_def)
  moreover have "client_get_tunnel client_state_new a p = None" for a p
    by (simp add: client_get_tunnel_def client_state_new_def hm_simps)
  ultimately have "k \<in> client_key ` set ts" using ok by (cases k) force
  then obtain u where "u \<in> set ts" "k = (ce_local u, ce_protocol u)" by (auto simp: client_key_def)
  with ok got show ?thesis
    by (force simp: entry_client_def new_client_tunnel_def client_is_running_def)
qed

lemma run_starts:
  assumes "config_usable (valid_key env) (hex_decode env) c"
    and "host_tunnels c \<noteq> [] \<or> client_tunnels c \<noteq> []"
    and "\<forall>k. host_endpoint env k = Ok ()" and "\<forall>k. client_reach env k = (Ok (), Ok ())"
  shows "\<exists>rs. run_tunnels env hw cw c = (Main_Waiting rs, []) \<and>
    distinct (rs_handles rs) \<and>
    length (rs_handles rs) =
      card {s. last_with_secret (hex_decode env) s (host_tunnels c) \<noteq> None} + length (client_tunnels c) \<and>
    (\<forall>s e. last_with_secret (hex_decode env) s (host_tunnels c) = Some e \<longrightarrow>
       (\<exists>t. host_get_tunnel (lt_host (rs_lantun rs)) s = Some t \<and>
          host_started (rs_hosts rs) (rs_handles rs) (new_host_tunnel (he_local e) (he_name e) s (he_protocol e)) t)) \<and>
    (\<forall>e \<in> set (client_tunnels c). \<exists>t key. secret_of (hex_decode env) (ce_secret e) = Some key \<and>
       client_get_tunnel (lt_client (rs_lantun rs)) (ce_local e) (ce_protocol e) = Some t \<and>
       client_started (rs_clients rs) (rs_handles rs) (new_client_tunnel (ce_local e) (ce_name e) key (ce_protocol e)) t)"
proof -
  obtain lt where lt: "create_state (valid_key env) (hex_decode env) c = Returned (Ok lt)"
    using create_state_Ok_iff assms(1) by blast
  note hosts = conjunct1[OF create_state_OkD[OF lt]] and clients = conjunct2[OF create_state_OkD[OF lt]]
  note got_hosts = create_hosts_get[OF hosts host_state_ok_new]
    and got_clients = create_clients_get[OF clients client_state_ok_new]
  let ?hs = "map Host_Task [next_run hw..<next_run hw + length (lt_host lt)]"
  let ?cs = "map Client_Task [next_listener cw..<next_listener cw + length (lt_client lt)]"
  have "\<forall>(k, t) \<in> set (lt_host lt). \<not> host_is_running t"
    using created_hosts_closed[OF hosts] by blast
  from start_hosts_Ok[OF assms(3) this] obtain host hw'
    where sh: "start_hosts (host_endpoint env) (lt_host lt) hw = (Ok ?hs, host, hw')"
      "same_keys (host_started hw' ?hs) (lt_host lt) host" by blast
  have "\<forall>(k, t) \<in> set (lt_client lt). \<not> client_is_running t"
    using created_clients_closed[OF clients] by blast
  from connect_clients_Ok[OF assms(4) this] obtain client cw'
    where sc: "connect_clients (client_reach env) (lt_client lt) cw = (Ok ?cs, client, cw')"
      "same_keys (client_started cw' ?cs) (lt_client lt) client" by blast
  let ?rs = "\<lparr>rs_lantun = \<lparr>lt_host = host, lt_client = client\<rparr>, rs_hosts = hw', rs_clients = cw',
    rs_handles = ?hs @ ?cs\<rparr>"
  have run: "run_tunnels env hw cw c = (Main_Waiting ?rs, [])"
    using assms(2) lt sh(1) sc(1) by (auto simp: run_tunnels_def)
  have distinct: "distinct (rs_handles ?rs)"
    by (auto simp: distinct_map inj_on_def)
  have "hm_len (lt_host lt) = card {s. last_with_secret (hex_decode env) s (host_tunnels c) \<noteq> None}"
    using got_hosts hm.len_card[of "lt_host lt"]
    by (simp add: host_state_ok_def host_get_tunnel_def host_state_new_def hm_simps option.case_eq_if split: if_splits)
  moreover have "length (lt_client lt) = length (client_tunnels c)"
    using got_clients by (simp add: hm_len_def client_state_new_def hm_empty_def)
  ultimately have len: "length (rs_handles ?rs) =
      card {s. last_with_secret (hex_decode env) s (host_tunnels c) \<noteq> None} + length (client_tunnels c)"
    by (simp add: hm_len_def)
  have all_hosts: "\<exists>t. host_get_tunnel (lt_host (rs_lantun ?rs)) s = Some t \<and> host_started (rs_hosts ?rs) (rs_handles ?rs)
      (new_host_tunnel (he_local e) (he_name e) s (he_protocol e)) t"
    if "last_with_secret (hex_decode env) s (host_tunnels c) = Some e" for s e
  proof -
    have "hm_get (lt_host lt) s = Some (entry_host s e)"
      using got_hosts[of s] that by (simp add: host_get_tunnel_def)
    from same_keys_get[OF sh(2) this] show ?thesis
      by (auto simp: host_get_tunnel_def host_started_def entry_host_def)
  qed
  have all_clients: "\<exists>t key. secret_of (hex_decode env) (ce_secret e) = Some key \<and>
      client_get_tunnel (lt_client (rs_lantun ?rs)) (ce_local e) (ce_protocol e) = Some t \<and>
      client_started (rs_clients ?rs) (rs_handles ?rs) (new_client_tunnel (ce_local e) (ce_name e) key (ce_protocol e)) t"
    if "e \<in> set (client_tunnels c)" for e
  proof -
    from got_clients[THEN conjunct2, THEN conjunct2, THEN conjunct1, rule_format, OF that]
    obtain key where key: "secret_of (hex_decode env) (ce_secret e) = Some key"
      "hm_get (lt_client lt) (ce_local e, ce_protocol e) = Some (entry_client key e)"
      unfolding client_get_tunnel_def by blast
    from same_keys_get[OF sc(2) key(2)] key(1) show ?thesis
      by (auto simp: client_get_tunnel_def client_started_def entry_client_def)
  qed
  from run distinct len all_hosts all_clients show ?thesis by blast
qed

text \<open>
  C24. When the configuration is usable and the network answers, a run starts everything: \<open>main\<close> waits
  for as many tasks, all different, as there are private secrets and client entries. Every private
  secret has a running host tunnel with the name, address and protocol of the last entry with it,
  and every client entry a running tunnel with its name, address, protocol and key; each of them
  has a newly spawned task for its address and protocol, and \<open>main\<close> waits for this task.
\<close>

theorem run_starts_everything:
  assumes "config_usable (valid_key env) (hex_decode env) c"
    and "host_tunnels c \<noteq> [] \<or> client_tunnels c \<noteq> []"
    and "\<forall>k. host_endpoint env k = Ok ()" and "\<forall>k. client_reach env k = (Ok (), Ok ())"
  shows "\<exists>rs. run_tunnels env hw cw c = (Main_Waiting rs, []) \<and>
    distinct (rs_handles rs) \<and>
    length (rs_handles rs) =
      card {s. last_with_secret (hex_decode env) s (host_tunnels c) \<noteq> None} + length (client_tunnels c) \<and>
    (\<forall>s e. last_with_secret (hex_decode env) s (host_tunnels c) = Some e \<longrightarrow>
       (\<exists>t. host_get_tunnel (lt_host (rs_lantun rs)) s = Some t \<and>
          host_started (rs_hosts rs) (rs_handles rs) (new_host_tunnel (he_local e) (he_name e) s (he_protocol e)) t)) \<and>
    (\<forall>e \<in> set (client_tunnels c). \<exists>t key. secret_of (hex_decode env) (ce_secret e) = Some key \<and>
       client_get_tunnel (lt_client (rs_lantun rs)) (ce_local e) (ce_protocol e) = Some t \<and>
       client_started (rs_clients rs) (rs_handles rs) (new_client_tunnel (ce_local e) (ce_name e) key (ce_protocol e)) t)"
  by (rule run_starts[OF assms])

lemma demo_joined_usable: "config_usable (valid_key demo_env) (hex_decode demo_env) demo_joined"
  by (simp add: config_usable_def hosts_ok_def clients_ok_def demo_joined_def demo_env_def demo_secret_of)

theorem run_starts_everything_witness:
  "\<exists>rs t. fst (run_tunnels demo_env empty_host_world empty_client_world demo_joined) = Main_Waiting rs \<and>
     length (rs_handles rs) = 1 \<and>
     client_get_tunnel (lt_client (rs_lantun rs)) (V4 0 25565) Tcp = Some t \<and>
     client_ident t = (''c'', replicate 32 2, V4 0 25565, Tcp) \<and> client_is_running t"
proof -
  let ?e = "client_tunnels demo_joined ! 0"
  have h: "client_tunnels demo_joined \<noteq> []" "\<forall>k. host_endpoint demo_env k = Ok ()"
    "\<forall>k. client_reach demo_env k = (Ok (), Ok ())"
    and none: "host_tunnels demo_joined = []" "length (client_tunnels demo_joined) = 1"
    and e: "?e \<in> set (client_tunnels demo_joined)" "ce_local ?e = V4 0 25565" "ce_protocol ?e = Tcp" "ce_name ?e = ''c''"
      "secret_of (hex_decode demo_env) (ce_secret ?e) = Some (replicate 32 2)"
    by (simp_all add: demo_joined_def demo_env_def demo_secret_of)
  from run_starts_everything[OF demo_joined_usable disjI2[OF h(1)] h(2,3), of empty_host_world empty_client_world]
  obtain rs where rs: "run_tunnels demo_env empty_host_world empty_client_world demo_joined = (Main_Waiting rs, [])"
    "length (rs_handles rs) = 1"
    and all: "\<forall>e \<in> set (client_tunnels demo_joined). \<exists>t key. secret_of (hex_decode demo_env) (ce_secret e) = Some key \<and>
       client_get_tunnel (lt_client (rs_lantun rs)) (ce_local e) (ce_protocol e) = Some t \<and>
       client_started (rs_clients rs) (rs_handles rs) (new_client_tunnel (ce_local e) (ce_name e) key (ce_protocol e)) t"
    unfolding none by (auto simp: last_with_secret_def)
  from all[rule_format, OF e(1)] obtain t where
    "client_get_tunnel (lt_client (rs_lantun rs)) (V4 0 25565) Tcp = Some t"
    "client_is_running t" "client_ident t = client_ident (new_client_tunnel (V4 0 25565) ''c'' (replicate 32 2) Tcp)"
    unfolding e by (auto simp: client_started_def)
  with rs show ?thesis by (auto simp: client_ident_def new_client_tunnel_def)
qed

text \<open>The state that a configuration with a new client entry makes.\<close>

definition with_client :: "cli_env \<Rightarrow> bytes \<Rightarrow> socket_addr \<Rightarrow> tunnel_protocol \<Rightarrow> string \<Rightarrow> lantun_config \<Rightarrow> lantun_config" where
  "with_client env bs local proto name c =
     c\<lparr>client_tunnels := sort_key ce_name (client_tunnels c @ [new_client_entry env bs local proto name])\<rparr>"

lemma with_client_state:
  assumes "env_ok parse dec env" and "config_usable valid dec c"
    and "(local, proto) \<notin> client_key ` set (client_tunnels c)"
  shows "config_usable valid dec (with_client env bs local proto name c) \<longleftrightarrow> length bs = 32 \<and> valid bs"
    and "create_state valid dec (with_client env bs local proto name c) = Returned (Ok lt) \<Longrightarrow>
      client_get_tunnel (lt_client lt) local proto = Some (new_client_tunnel local name bs proto)"
proof -
  let ?new = "new_client_entry env bs local proto name" and ?c = "with_client env bs local proto name c"
  have key: "client_key ?new = (local, proto)" by (simp add: client_key_def new_client_entry_def)
  have "dec (ce_secret ?new) = Ok bs" using assms(1) by (simp add: env_ok_def hex_ok_def new_client_entry_def)
  then have secret: "secret_of dec (ce_secret ?new) = (if length bs = 32 then Some bs else None)"
    by (simp add: secret_of_def)
  have "distinct (map client_key (client_tunnels c @ [?new]))"
    using assms(2,3) key by (simp add: config_usable_def)
  then show usable: "config_usable valid dec ?c \<longleftrightarrow> length bs = 32 \<and> valid bs"
    using assms(2) secret by (auto simp: config_usable_def clients_ok_def with_client_def)
  assume lt: "create_state valid dec ?c = Returned (Ok lt)"
  then have len: "length bs = 32" using usable create_state_Ok_iff by blast
  have "?new \<in> set (client_tunnels ?c)" by (simp add: with_client_def)
  with create_clients_get[OF conjunct2[OF create_state_OkD[OF lt]] client_state_ok_new] secret len
  have "client_get_tunnel (lt_client lt) (ce_local ?new) (ce_protocol ?new) = Some (entry_client bs ?new)"
    by (metis option.inject)
  then show "client_get_tunnel (lt_client lt) local proto = Some (new_client_tunnel local name bs proto)"
    by (simp add: entry_client_def new_client_entry_def)
qed



subsection \<open>Waiting\<close>

definition join_ok :: "((report, unit) result option list \<Rightarrow> (report, unit) result option) \<Rightarrow> bool" where
  "join_ok join \<longleftrightarrow>
     (\<forall>rs. case join rs of
        None \<Rightarrow> None \<in> set rs \<and> (\<forall>e. Some (Err e) \<notin> set rs)
      | Some (Inl e) \<Rightarrow> Some (Err e) \<in> set rs
      | Some (Inr u) \<Rightarrow> set rs \<subseteq> {Some (Ok ())})"

text \<open>
  C39. \<open>main\<close> waits for all tunnels and ends with the first that fails: once one listener has returned
  an error, the next poll ends the program with the error of a failed task, whatever the other
  tunnels do. With a host tunnel among them it never ends with success, because an accept loop
  does not return.
\<close>

theorem one_failure_ends_main:
  assumes "join_ok join" and "Client_Task i \<in> set (rs_handles rs)"
    and "cr_pc (client_runs (rs_clients rs) i) = C_Done (Err e)"
    and "Host_Task j \<in> set (rs_handles rs')"
  shows "(\<exists>h m. h \<in> set (rs_handles rs) \<and> poll_handle je rs h = Some (Err m) \<and>
      main_poll join je (Main_Waiting rs) = Main_Done (Err m)) \<and>
    main_poll join je (Main_Waiting rs') \<noteq> Main_Done (Ok ())"
proof -
  let ?polls = "\<lambda>r. map (poll_handle je r) (rs_handles r)"
  have "poll_handle je rs (Client_Task i) = Some (Err (Report_Msg (client_error_fmt e)))"
    using assms(3) by (simp add: poll_handle_def handle_result_def)
  then have failed: "Some (Err (Report_Msg (client_error_fmt e))) \<in> set (?polls rs)"
    using assms(2) by force
  have "poll_handle je rs' (Host_Task j) \<noteq> Some (Ok ())"
    by (simp add: poll_handle_def handle_result_def split: host_pc.split)
  then have host: "\<not> set (?polls rs') \<subseteq> {Some (Ok ())}"
    using assms(4) by auto
  have j: "case join rs of None \<Rightarrow> None \<in> set rs \<and> (\<forall>e. Some (Err e) \<notin> set rs)
      | Some (Inl e) \<Rightarrow> Some (Err e) \<in> set rs | Some (Inr u) \<Rightarrow> set rs \<subseteq> {Some (Ok ())}" for rs
    using assms(1) by (simp add: join_ok_def)
  obtain m where m: "join (?polls rs) = Some (Err m)" "Some (Err m) \<in> set (?polls rs)"
    using j[of "?polls rs"] failed by (auto split: option.splits sum.splits)
  then obtain h where "h \<in> set (rs_handles rs)" "poll_handle je rs h = Some (Err m)" by auto
  with m have "\<exists>h m. h \<in> set (rs_handles rs) \<and> poll_handle je rs h = Some (Err m) \<and>
      main_poll join je (Main_Waiting rs) = Main_Done (Err m)" by auto
  moreover have "join (?polls rs') \<noteq> Some (Ok ())"
    using j[of "?polls rs'"] host by (auto split: option.splits sum.splits)
  then have "main_poll join je (Main_Waiting rs') \<noteq> Main_Done (Ok ())"
    by (auto split: option.splits)
  ultimately show ?thesis by blast
qed

text \<open>A poll that looks at the tasks in order.\<close>

fun demo_join :: "(report, unit) result option list \<Rightarrow> (report, unit) result option" where
  "demo_join [] = Some (Ok ())"
| "demo_join (Some (Inl e) # rs) = Some (Err e)"
| "demo_join (Some (Inr u) # rs) = demo_join rs"
| "demo_join (None # rs) = (case demo_join rs of Some (Inl e) \<Rightarrow> Some (Err e) | _ \<Rightarrow> None)"

lemma demo_join_ok: "join_ok demo_join"
  unfolding join_ok_def
proof
  fix rs
  show "case demo_join rs of None \<Rightarrow> None \<in> set rs \<and> (\<forall>e. Some (Err e) \<notin> set rs)
      | Some (Inl e) \<Rightarrow> Some (Err e) \<in> set rs | Some (Inr u) \<Rightarrow> set rs \<subseteq> {Some (Ok ())}"
    by (induction rs rule: demo_join.induct) (auto split: option.splits sum.splits)
qed

definition demo_failed :: run_state where
  "demo_failed =
     \<lparr>rs_lantun = lantun_new, rs_hosts = empty_host_world,
      rs_clients = empty_client_world\<lparr>client_runs := \<lambda>_. (new_client_run (V4 0 25565) Tcp)
        \<lparr>cr_pc := C_Done (Err (Client_IoError (Os_Error ''in use'')))\<rparr>\<rparr>,
      rs_handles = [Host_Task 0, Client_Task 0]\<rparr>"

theorem one_failure_ends_main_witness:
  "\<exists>m. main_poll demo_join ''task panicked'' (Main_Waiting demo_failed) = Main_Done (Err m)"
proof -
  have "Client_Task 0 \<in> set (rs_handles demo_failed)" "Host_Task 0 \<in> set (rs_handles demo_failed)"
    "cr_pc (client_runs (rs_clients demo_failed) 0) = C_Done (Err (Client_IoError (Os_Error ''in use'')))"
    by (simp_all add: demo_failed_def)
  from one_failure_ends_main[OF demo_join_ok this(1,3,2), of "''task panicked''"] show ?thesis by blast
qed

end
