(* ===== verification/Spec2Isabelle.thy ===== *)
theory Spec2Isabelle
  imports Request Session_Life Cli_Run
begin

text \<open>
  A verification development of \<^bold>\<open>lantun\<close>, a program that makes a local TCP or UDP service of one
  machine (the host) reachable through a local address of another machine (the client), over a
  peer-to-peer QUIC connection of the \<open>iroh\<close> library. Paths are relative to the repository, which
  is under \<open>src/\<close>.

  \<^bold>\<open>The program and how its parts interact.\<close> The command line (\<open>lantun-cli/src/main.rs\<close>) loads the
  configuration (\<open>lantun-cli/src/config.rs\<close>). A command adds, lists or removes entries and saves the
  file; without a command \<open>main\<close> makes a \<open>LanTun\<close> of the entries (\<open>create_state\<close>), starts every
  host tunnel, connects every client tunnel and waits in \<open>try_join_all\<close>. \<open>HostTunnel::start\<close>
  (\<open>lantun-core/src/host.rs\<close>) spawns an accept loop: it registers a client by its key, awaits its
  streams, receives one control packet per stream, registers a local connection, opens a socket to
  the service and awaits a session. \<open>ClientTunnel::connect\<close> (\<open>lantun-core/src/client.rs\<close>) spawns a
  listener: it accepts an application (or peeks at a datagram), opens a stream, sends the request,
  registers the connection and awaits a session. A session (\<open>lantun-core/src/net/tcp.rs\<close> and
  \<open>net/udp.rs\<close>) is a pair of loops, one per direction, that copy chunks between a socket and the
  stream until the stop signal, the end of either side or 20 seconds without traffic; when both
  have ended, it takes its connection out of the table.

  \<^bold>\<open>Which theory models what.\<close>
    \<^item> \<open>Lantun_Prelude\<close>: machine integers, bytes, \<open>Result\<close> as a sum with \<open>Ok\<close> and \<open>Err\<close>, calls that
      return or panic (\<open>outcome\<close>), the collections \<open>fwd_defs\<close> and \<open>run_defs\<close>.
    \<^item> \<open>Hash_Map\<close>: the standard library's map as a list of pairs with distinct keys, whose order
      stands for the map's iteration order, behind the locale \<open>hash_table\<close>.
    \<^item> \<open>Net_Core\<close>: \<open>lantun-core/src/lib.rs\<close>, socket addresses, the protocol with its four text
      conversions, the printing of addresses. \<open>Addr_Parse\<close> and \<open>Addr_V6\<close>: the standard library's
      reading of socket addresses, with the round trip of every address without a flow label, and
      words of a line, to state that what is printed can be typed and what is saved can be loaded.
      The locale \<open>radix\<close> holds what the decimal and the hexadecimal numbers share.
    \<^item> \<open>Activity_Clock\<close>: \<open>utils.rs\<close> and the timeout of the loops; time is in nanoseconds since the
      epoch and the shared activity time in whole seconds, at 64 bits.
    \<^item> \<open>Forwarder\<close>: one loop of a session as a step function over a program counter (\<open>fwd_pc\<close>), with
      the code's biased \<open>select!\<close>. An event offers what there is to read, of any length, and
      \<open>read_into_buf\<close> takes of it what fits into the buffer of 1024 bytes. \<open>Chunk_Transfer\<close>: the locales \<open>chunk_source\<close>, \<open>chunk_sink\<close> and
      \<open>forwarder\<close>, with the integrity of every loop, interpreted on the four kinds of loops.
    \<^item> \<open>Udp_Uplink\<close>: the remaining loop, the client's reader of the UDP socket that all applications
      share, over the queue of that socket.
    \<^item> \<open>Local_Conns\<close>: \<open>LocalClientConnection\<close> and the two functions that deregister one.
      \<open>Bi_Forward\<close>: the four sessions \<open>bi_tcp_stream_host\<close>, \<open>bi_tcp_stream_client\<close>, \<open>bi_udp_host\<close>,
      \<open>bi_udp_client\<close> as two loops, the shared activity time and the table, and the locale
      \<open>session\<close> with their common laws. \<open>Session_Life\<close>: when a session is kept alive, by the
      locales \<open>timed_loop\<close> and \<open>timed_session\<close>, interpreted on the four sessions. \<open>Pipe\<close>: the abstract specification (\<open>pipe_step\<close>), its
      refinement by the sessions and the composition of the two ends.
    \<^item> \<open>Packet\<close>: \<open>send_packet\<close>, \<open>receive_packet\<close> of \<open>common.rs\<close>.
    \<^item> \<open>Host\<close> (the accept loop with \<open>handle_connection\<close>, one step per await), \<open>Host_Invariant\<close>,
      \<open>Host_Behaviour\<close>; \<open>Client\<close> (the listener), \<open>Client_Behaviour\<close>; \<open>Request\<close>: both tasks, the
      packet between them and their sessions together.
    \<^item> \<open>Tunnel_Common\<close>: the locale \<open>tunnel_lifecycle\<close> of starting and stopping; \<open>Host_Tunnel\<close> and
      \<open>Client_Tunnel\<close>: the tunnels, their counters, their tables, and the interpretations.
    \<^item> \<open>File_System\<close>: the calls of \<open>std::fs\<close> that the configuration needs, with their faults.
      \<open>Config_Doc\<close>: the entries of \<open>config.rs\<close> and the documents that their derived serde instances
      write and read. \<open>Config\<close>, \<open>Config_Behaviour\<close>: the rest of \<open>config.rs\<close>. \<open>Cli\<close>: \<open>main.rs\<close>; \<open>Cli_Behaviour\<close>,
      \<open>Cli_Commands\<close>, \<open>Cli_Run\<close>: what the commands and a run do.
    \<^item> This theory: statements over two machines or both kinds of tunnels.

  \<^bold>\<open>State and events.\<close> A spawned task is a state record with a program counter that names the
  \<open>await\<close> it is suspended in, and a step function; an event carries what the awaited call
  returned and the clock. A run is \<open>run_all\<close> over a list of events, so a statement about every
  list holds for every behaviour of the network, every schedule of the two loops of a session and
  every time at which a signal arrives. An event that does not fit the program counter changes
  nothing. There is no fuel: every definition is total, and what ends is stated as such, with the
  events that end it. Records and datatypes have the fields and constructors of the code; an
  \<open>Arc\<close> that is shared is a reference into a table of the state (\<open>local_connections\<close> into
  \<open>tables\<close>, \<open>last_active\<close> into \<open>cells\<close> or \<open>cr_cells\<close>, the running properties of a tunnel into the
  tasks of a \<open>host_world\<close> or \<open>client_world\<close>); a panic is the value \<open>Panic\<close> or a \<open>Panicked\<close> counter.

  \<^bold>\<open>Parameters.\<close> What is not under \<open>src/\<close> is an argument: the results of calls to \<open>iroh\<close> and
  \<open>tokio\<close>, the codecs of \<open>bincode\<close>, \<open>hex\<close> and \<open>toml\<close> (where needed with the law that decoding an
  encoding gives the value back: \<open>codec_ok\<close> for the one address of a request, \<open>hex_ok\<close>, and \<open>toml_ok\<close>
  for documents, not for configurations), which 32 bytes are a public key
  (\<open>valid_key\<close>), the key generator, \<open>try_join_all\<close> (\<open>join_ok\<close>), and the delivery of a QUIC stream
  (\<open>quic_delivers\<close>: a prefix of what was written; \<open>quic_delivers_all\<close>: all of it).

  The hypotheses \<open>addrs_text\<close> and \<open>text_addr\<close> say that addresses have no flow label; every address
  that was read from a file or the command line has none (\<open>load_config_text\<close>, \<open>read_addr_text\<close>).
  How the operating system answers a request across address families is assumed (\<open>families_kept\<close>)
  only where a socket is bound to an address of another family or an IPv4 socket is to reach an
  IPv6 address.

  \<^bold>\<open>What the lemmas show.\<close>
    \<^item> Data: every session refines a pipe in both directions; end to end, the service gets a prefix
      of what the application sent and the other way round, all of it when the loops have settled;
      the whole path, from the accept of an application over the request to both sessions.
    \<^item> Endings: the stop signal and 20 idle seconds end a session, traffic keeps it alive, and the
      session that ends removes exactly its connection; the timeout is exact in real time.
    \<^item> Tasks: the invariants of host and listener, bounds on their tables, the absence of panics
      on the host, one application at a time on the client, the end of the listener on stop.
    \<^item> Tunnels: their life cycle, the outcomes of every operation, with the errors.
    \<^item> Configuration: saving and loading, \<open>create_state\<close> by its exact outcome, each command by the
      configuration it leaves, sequences of commands, what a run starts; a tunnel shared from one
      machine to another, with the printed command.
    \<^item> What the code does and hardly means to: the UDP reader that spins on a foreign datagram, the
      accept loop that spins after a stop, the connection that a refused service leaves behind,
      the listener that is deaf after an error, the disconnect that panics after a failure, and
      others; each is a theorem about the definitions, at the end of its component's theory.

  \<^bold>\<open>Not modelled.\<close> The parsing of arguments by \<open>clap\<close> and the setup of the logger: library calls
  before anything else, without effect on the state; log output of the tasks, apart from what the
  host task reports (\<open>hr_log\<close>). The inside of \<open>iroh\<close>, \<open>tokio\<close> and the operating system: sockets
  and streams are what their calls return. When one loop of a session panics, the sibling task
  that keeps running detached is not followed further, and a build that aborts on panic is not
  distinguished. The length of a loop's sleep is computed and shown to be right, but an event says
  freely that the sleep is over: it runs on the monotonic clock and the activity time on the system
  clock. That a \<open>stop\<close> makes the stop signal and the end of the incoming connections arrive is not
  enforced either, because connections that were queued before may still come first; both are events.
  The cooperative budget of \<open>tokio\<close>, which may make a ready branch wait a turn,
  only delays an event. Links in the file system. The accessors (\<open>tunnels\<close>, \<open>tunnels_mut\<close>, \<open>get_tunnel_mut\<close>, \<open>addr\<close>,
  \<open>client_addr\<close>) are the selectors of the records and tables. Every other function of \<open>lantun-core\<close>
  and \<open>lantun-cli\<close> is a definition.

  \<^bold>\<open>What could be added.\<close> Several client tunnels on one host tunnel at a time, with what the order
  of their requests means for each; the end of a request's sessions on both machines together.
\<close>

subsection \<open>Pairing two machines\<close>

lemma last_with_secret_only:
  assumes "t \<in> set ts" and "secret_of dec (he_private_secret t) = Some s"
    and "\<And>u. u \<in> set ts \<Longrightarrow> secret_of dec (he_private_secret u) = Some s \<Longrightarrow> u = t"
  shows "last_with_secret dec s ts = Some t"
proof -
  let ?P = "\<lambda>u. secret_of dec (he_private_secret u) = Some s"
  have "find ?P (rev ts) \<noteq> None" using assms(1,2) by (auto simp: find_None_iff)
  then obtain u where u: "find ?P (rev ts) = Some u" by blast
  then obtain i where "i < length ts" "?P (rev ts ! i)" "u = rev ts ! i"
    by (auto simp: find_Some_iff)
  then have "u \<in> set ts" "?P u" using nth_mem[of i "rev ts"] by simp_all
  with assms(3) u show ?thesis by (simp add: last_with_secret_def)
qed

text \<open>
  C20. The way a tunnel is shared, over both machines: \<open>add-host\<close> creates a key pair and prints the
  public key as a hex text, and \<open>add-client\<close> with this text on another machine makes a client tunnel
  whose key is the public key of the host tunnel's secret. When both commands succeed on usable
  configurations, with addresses that were read from text, the next runs hold a host tunnel with the secret and a client tunnel with its
  public key.
\<close>

theorem pairing_end_to_end:
  assumes "env_ok parse dec henv" and "env_ok parse' dec cenv"
    and "secret = keygen henv (os_rng henv)" and "pub = public_of henv secret"
    and "hex_encode henv pub = text"
    and "config_usable (valid_key henv) dec c" and "(local, proto) \<notin> host_key ` set (host_tunnels c)"
    and "\<forall>t \<in> set (host_tunnels c). secret_of dec (he_private_secret t) \<noteq> Some secret"
    and "add_host henv p local proto name c fs = (Ok (), fs', ls)"
    and "config_usable (valid_key cenv) dec d" and "(local', proto) \<notin> client_key ` set (client_tunnels d)"
    and "length pub = 32" and "valid_key cenv pub"
    and "addrs_text c" and "addrs_text d" and "text_addr local" and "text_addr local'"
    and "add_client cenv q text local' proto name' d gs = (Ok (), gs', ls')"
  shows "Out (''The public secret is '' @ quoted text) \<in> set ls \<and>
    (\<exists>c' lt. load_config (load_env_of henv) p fs' = (Returned (Ok c'), fs') \<and>
       create_state (valid_key henv) dec c' = Returned (Ok lt) \<and>
       host_get_tunnel (lt_host lt) secret = Some (new_host_tunnel local name secret proto)) \<and>
    (\<exists>d' lt. load_config (load_env_of cenv) q gs' = (Returned (Ok d'), gs') \<and>
       create_state (valid_key cenv) dec d' = Returned (Ok lt) \<and>
       client_get_tunnel (lt_client lt) local' proto = Some (new_client_tunnel local' name' pub proto))"
proof (intro conjI)
  let ?e = "new_host_entry henv local proto name"
  let ?c = "c\<lparr>host_tunnels := sort_key he_name (host_tunnels c @ [?e])\<rparr>"
  let ?d = "with_client cenv pub local' proto name' d"
  have public: "he_public_secret ?e = text"
    using assms(3-5) by (simp add: new_host_entry_def gen_secret_def Let_def)
  have "\<not> (\<exists>t \<in> set (host_tunnels c). he_local t = local \<and> he_protocol t = proto)"
    using assms(7) by (force simp: host_key_def)
  with assms(9) public show "Out (''The public secret is '' @ quoted text) \<in> set ls"
    by (auto simp: add_host_def Let_def split: prod.splits sum.splits if_splits)
  have load: "load_config (load_env_of henv) p fs' = (Returned (Ok ?c), fs')"
    by (rule add_host_Ok[OF assms(1,9,7,14,16)])
  have new: "secret_of dec (he_private_secret ?e) = Some secret"
    using new_host_secret[OF assms(1)] assms(3) by simp
  then have "config_usable (valid_key henv) dec ?c"
    using assms(6) by (simp add: config_usable_def hosts_ok_def)
  then obtain lt where lt: "create_state (valid_key henv) dec ?c = Returned (Ok lt)"
    using create_state_Ok_iff by blast
  have "last_with_secret dec secret (host_tunnels ?c) = Some ?e"
    by (rule last_with_secret_only[OF _ new]) (use assms(8) in auto)
  with create_hosts_get[OF conjunct1[OF create_state_OkD[OF lt]] host_state_ok_new, of secret]
  have "host_get_tunnel (lt_host lt) secret = Some (new_host_tunnel local name secret proto)"
    by (simp add: entry_host_def new_host_entry_def Let_def)
  with load lt show "\<exists>c' lt. load_config (load_env_of henv) p fs' = (Returned (Ok c'), fs') \<and>
      create_state (valid_key henv) dec c' = Returned (Ok lt) \<and>
      host_get_tunnel (lt_host lt) secret = Some (new_host_tunnel local name secret proto)" by blast
  have "dec text = Ok pub"
    using assms(1,5) by (auto simp: env_ok_def hex_ok_def)
  from add_client_Ok[OF assms(2,18,11) this assms(15,17)]
  have load': "load_config (load_env_of cenv) q gs' = (Returned (Ok ?d), gs')"
    by (simp add: with_client_def)
  note state = with_client_state[OF assms(2,10,11), of pub name']
  from state(1) assms(12,13) obtain lt' where lt': "create_state (valid_key cenv) dec ?d = Returned (Ok lt')"
    using create_state_Ok_iff by blast
  with load' state(2) show "\<exists>d' lt. load_config (load_env_of cenv) q gs' = (Returned (Ok d'), gs') \<and>
      create_state (valid_key cenv) dec d' = Returned (Ok lt) \<and>
      client_get_tunnel (lt_client lt) local' proto = Some (new_client_tunnel local' name' pub proto)" by blast
qed

text \<open>A serializer that also knows the configuration with the host that the environment creates.\<close>

definition demo_hosting :: lantun_config where
  "demo_hosting =
     \<lparr>host_tunnels =
        [\<lparr>he_name = ''mc'', he_local = demo_service, he_protocol = Tcp, he_private_secret = demo_secret 1,
          he_public_secret = demo_secret 2, he_enabled = True\<rparr>],
      client_tunnels = []\<rparr>"

definition host_load_env :: load_env where
  "host_load_env =
     \<lparr>to_toml = (\<lambda>d. if d = config_doc default_config then Ok ''[]''
        else if d = config_doc demo_hosting then Ok ''[h]'' else Err ''unknown''),
      from_toml = (\<lambda>s. if s = ''[]'' then Ok (config_doc default_config)
        else if s = ''[h]'' then Ok (config_doc demo_hosting) else Err ''unknown''),
      mkdir_fault = None, load_write_fault = No_Fault\<rparr>"

definition demo_host_env :: cli_env where
  "demo_host_env = demo_env\<lparr>load_env_of := host_load_env\<rparr>"

lemma demo_hosting_new: "config_doc demo_hosting \<noteq> config_doc default_config"
  by (simp add: demo_hosting_def default_config_def config_doc_inject addrs_text_def demo_service_def)

lemma demo_host_env_ok: "env_ok (read_config (from_toml host_load_env)) demo_hex_decode demo_host_env"
proof -
  have "toml_ok (to_toml host_load_env) (from_toml host_load_env)"
    by (auto simp: toml_ok_def host_load_env_def split: if_splits)
  with demo_hex_ok show ?thesis
    by (simp add: env_ok_def demo_host_env_def demo_env_def host_load_env_def not_broken_def)
qed

lemma demo_host_save: "\<exists>fs'. cli_save demo_host_env [''t''] demo_hosting demo_before = (Ok (), fs')"
  using demo_hosting_new
  by (simp add: cli_save_def save_config_def fs_write_def demo_host_env_def demo_env_def host_load_env_def
      demo_before_def demo_fs_def)

lemma demo_host_entry:
  "default_config\<lparr>host_tunnels := [new_host_entry demo_host_env demo_service Tcp ''mc'']\<rparr> = demo_hosting"
  by (simp add: default_config_def demo_hosting_def new_host_entry_def gen_secret_def demo_host_env_def
      demo_env_def demo_secret_def Let_def)

theorem pairing_end_to_end_witness:
  "\<exists>fs' ls d' lt. add_host demo_host_env [''t''] demo_service Tcp ''mc'' default_config demo_before = (Ok (), fs', ls) \<and>
     Out (''The public secret is '' @ quoted (demo_secret 2)) \<in> set ls \<and>
     create_state (\<lambda>_. True) demo_hex_decode d' = Returned (Ok lt) \<and>
     client_get_tunnel (lt_client lt) (V4 0 25565) Tcp =
       Some (new_client_tunnel (V4 0 25565) ''c'' (replicate 32 2) Tcp)"
proof -
  have usable: "config_usable valid demo_hex_decode default_config" for valid
    by (simp add: config_usable_def hosts_ok_def clients_ok_def default_config_def)
  have none: "host_tunnels default_config = []" "client_tunnels default_config = []"
    by (simp_all add: default_config_def)
  have fresh: "(a, p) \<notin> host_key ` set (host_tunnels default_config)"
    "(a, p) \<notin> client_key ` set (client_tunnels default_config)"
    "\<forall>t \<in> set (host_tunnels default_config). secret_of demo_hex_decode (he_private_secret t) \<noteq> Some s" for a p s
    by (simp_all add: none)
  obtain fs' ls where h:
    "add_host demo_host_env [''t''] demo_service Tcp ''mc'' default_config demo_before = (Ok (), fs', ls)"
    using demo_host_save demo_host_entry none by (auto simp: add_host_def Let_def)
  obtain ls' where c: "add_client demo_env [''t''] (demo_secret 2) (V4 0 25565) Tcp ''c'' default_config demo_before =
      (Ok (), demo_after, ls')"
    using demo_add_run by (auto simp: demo_add_def)
  have env: "replicate 32 1 = keygen demo_host_env (os_rng demo_host_env)"
    "replicate 32 2 = public_of demo_host_env (replicate 32 1)"
    "hex_encode demo_host_env (replicate 32 2) = demo_secret 2"
    "length (replicate 32 2 :: bytes) = 32"
    "valid_key demo_env (replicate 32 2)" "valid_key demo_env = (\<lambda>_. True)"
    by (simp_all add: demo_host_env_def demo_env_def demo_secret_def)
  have texts: "text_addr demo_service" "text_addr (V4 0 25565)" by (simp_all add: demo_service_def)
  note paired = pairing_end_to_end[OF demo_host_env_ok demo_env_ok env(1-3) usable fresh(1,3) h usable
      fresh(2) env(4,5) demo_text(1) demo_text(1) texts c]
  from paired[THEN conjunct2, THEN conjunct2, unfolded env(6)] paired[THEN conjunct1] h show ?thesis by blast
qed

text \<open>
  C21. The command that \<open>add-host\<close> prints for the other machine is one that its parsers accept: for
  every address that can be read, its words are the program, \<open>add-client\<close>, a key that the hex decoder of the other
  machine reads as the public key of the new tunnel, a text that the standard library reads as
  the tunnel's address, a text that \<open>FromStr\<close> reads as its protocol, and a place for the name.
\<close>

theorem printed_command_is_accepted:
  assumes "env_ok parse dec henv" and "text_addr local"
    and "(local, proto) \<notin> host_key ` set (host_tunnels c)"
    and "add_host henv p local proto name c fs = (Ok (), fs', ls)"
    and "pub = public_of henv (keygen henv (os_rng henv))" and "is_word (hex_encode henv pub)"
  shows "\<exists>cmd key addr protocol. last ls = Out cmd \<and>
    words cmd = [''lantun'', ''add-client'', key, addr, protocol, ''<name>''] \<and>
    dec key = Ok pub \<and> read_addr addr = Some local \<and> tunnel_protocol_from_str protocol = Ok proto"
proof -
  let ?key = "hex_encode henv pub"
  let ?cmd = "''  lantun add-client '' @ ?key @ '' '' @ show_addr local @ '' '' @ tunnel_protocol_fmt proto @ '' <name>''"
  have "\<not> (\<exists>t \<in> set (host_tunnels c). he_local t = local \<and> he_protocol t = proto)"
    using assms(3) by (force simp: host_key_def)
  with assms(4,5) have line: "last ls = Out ?cmd"
    by (auto simp: add_host_def new_host_entry_def gen_secret_def Let_def split: prod.splits sum.splits if_splits)
  have "words (''lantun'' @ CHR '' '' # ''add-client'' @ CHR '' '' # ?key @ CHR '' '' #
      show_addr local @ CHR '' '' # tunnel_protocol_fmt proto @ CHR '' '' # ''<name>'') =
    [''lantun'', ''add-client'', ?key, show_addr local, tunnel_protocol_fmt proto, ''<name>'']"
  proof -
    have "is_word ''lantun''" "is_word ''add-client''" "is_word ''<name>''" by (simp_all add: is_word_def)
    with assms(6) show ?thesis
      by (simp only: words_word words_single show_addr_text_word[OF assms(2)] protocol_word)
  qed
  then have "words ?cmd = [''lantun'', ''add-client'', ?key, show_addr local, tunnel_protocol_fmt proto, ''<name>'']"
    by simp
  moreover have "dec ?key = Ok pub" using assms(1) by (simp add: env_ok_def hex_ok_def)
  moreover have "read_addr (show_addr local) = Some local" by (rule read_addr_show[OF assms(2)])
  ultimately show ?thesis using line from_str_fmt by blast
qed

theorem printed_command_is_accepted_witness:
  "\<exists>fs' ls cmd. add_host demo_host_env [''t''] demo_service Tcp ''mc'' default_config demo_before = (Ok (), fs', ls) \<and>
     last ls = Out cmd \<and> length (words cmd) = 6 \<and>
     read_addr (words cmd ! 3) = Some (V4 2130706433 25565) \<and> tunnel_protocol_from_str (words cmd ! 4) = Ok Tcp"
proof -
  have none: "host_tunnels default_config = []" by (simp add: default_config_def)
  obtain fs' ls where h:
    "add_host demo_host_env [''t''] demo_service Tcp ''mc'' default_config demo_before = (Ok (), fs', ls)"
    using demo_host_save demo_host_entry none by (auto simp: add_host_def Let_def)
  have key: "is_word (hex_encode demo_host_env (public_of demo_host_env (keygen demo_host_env (os_rng demo_host_env))))"
    by (simp add: demo_host_env_def demo_env_def is_word_def demo_hex_encode_def char_of_def)
  have fresh: "(demo_service, Tcp) \<notin> host_key ` set (host_tunnels default_config)" by (simp add: none)
  have "text_addr demo_service" by (simp add: demo_service_def)
  from printed_command_is_accepted[OF demo_host_env_ok this fresh h refl key] h
  show ?thesis by (force simp: demo_service_def)
qed

subsection \<open>The life of tunnels\<close>

text \<open>
  C40. Over every sequence of starts, stops and steps of the tasks, a host tunnel and a client tunnel
  keep their name, secret, address and protocol, and each reports to run exactly when it has
  running properties, as long as no stop or disconnect panics.
\<close>

theorem lifecycles_coherent:
  assumes "\<not> life_panics host_start host_stop ops (new_host_tunnel addr name secret proto, w)"
    and "life_run host_start host_stop ops (new_host_tunnel addr name secret proto, w) = (t', w')"
    and "\<not> life_panics client_connect client_disconnect cops (new_client_tunnel caddr cname key cproto, cw)"
    and "life_run client_connect client_disconnect cops (new_client_tunnel caddr cname key cproto, cw) = (c', cw')"
  shows "host_ident t' = (name, secret, addr, proto) \<and>
    (host_is_running t' \<longleftrightarrow> ht_running_props t' \<noteq> None) \<and>
    client_ident c' = (cname, key, caddr, cproto) \<and>
    (client_is_running c' \<longleftrightarrow> ct_running_props c' \<noteq> None)"
  using host_lifecycle_coherent[OF assms(1,2)] client_lifecycle_coherent[OF assms(3,4)] by blast

theorem lifecycles_coherent_witness:
  "host_is_running (fst (life_run host_start host_stop [Op_Start (Ok ()), Op_Stop, Op_Start (Ok ())]
     (demo_host_tunnel, empty_host_world))) \<and>
   client_is_running (fst (life_run client_connect client_disconnect
     [Op_Start reached, Op_Stop, Op_Stop, Op_Start reached] (demo_client_tunnel, empty_client_world)))"
proof -
  let ?ops = "[Op_Start (Ok ()), Op_Stop, Op_Start (Ok ())]"
  let ?cops = "[Op_Start reached, Op_Stop, Op_Stop, Op_Start reached]"
  obtain t' w' where run: "life_run host_start host_stop ?ops (demo_host_tunnel, empty_host_world) = (t', w')"
    by fastforce
  obtain c' cw' where crun:
    "life_run client_connect client_disconnect ?cops (demo_client_tunnel, empty_client_world) = (c', cw')"
    by fastforce
  have calm: "\<not> life_panics host_start host_stop ?ops (demo_host_tunnel, empty_host_world)"
    by (simp add: demo_host_tunnel_def new_host_tunnel_def host_start_def host_stop_def empty_host_world_def)
  have ccalm: "\<not> life_panics client_connect client_disconnect ?cops (demo_client_tunnel, empty_client_world)"
    by (simp add: demo_client_defs client_connect_def client_disconnect_def client_is_running_def
        new_client_run_def Let_def)
  note coherent = lifecycles_coherent[OF calm[unfolded demo_host_tunnel_def] run[unfolded demo_host_tunnel_def]
      ccalm[unfolded demo_client_tunnel_def] crun[unfolded demo_client_tunnel_def]]
  have "ht_running_props t' \<noteq> None"
    using run by (auto simp: demo_host_tunnel_def new_host_tunnel_def host_start_def host_stop_def
        empty_host_world_def)
  moreover have "ct_running_props c' \<noteq> None"
    using crun by (auto simp: demo_client_defs client_connect_def client_disconnect_def
        client_is_running_def new_client_run_def update_run_def Let_def)
  ultimately show ?thesis using coherent run crun by simp
qed

end
